theory Spec2Isabelle
  imports Main
begin

section \<open>Station names\<close>

text \<open>
  Go strings are byte strings; they are modelled as \<open>string\<close> (a list of 8-bit
  characters), and a rune (a Unicode code point) as a natural number.  An \<open>error\<close> of Go
  is represented by its text (\<open>err.Error()\<close>).
\<close>

type_synonym error = string

type_synonym rune = nat

text \<open>
  \<open>strings.ToLower\<close> is a function of the Go library.  On a string of ASCII bytes it
  moves \<open>A\<close>..\<open>Z\<close> to \<open>a\<close>..\<open>z\<close>.  On any other string it is
  \<open>strings.Map(unicode.ToLower, s)\<close>: the bytes are decoded as UTF-8, rune by rune, a
  byte that starts no valid encoding being read as the rune \<open>U+FFFD\<close> of width 1; every
  rune is mapped by \<open>unicode.ToLower\<close>; and the results are encoded as UTF-8 again.

  \<open>DecodeRuneInString\<close> and \<open>EncodeRune\<close> follow the package \<open>unicode/utf8\<close>: the lead
  byte gives the size of the encoding and the range that the second byte may have (the
  table \<open>first\<close> and the \<open>acceptRanges\<close> of the package), the other continuation bytes
  lie between \<open>0x80\<close> and \<open>0xBF\<close>; a surrogate or a rune above \<open>U+10FFFF\<close> is encoded as
  \<open>U+FFFD\<close>.  \<open>runes s\<close> is what a \<open>range\<close> loop over \<open>s\<close> yields.
\<close>

definition RuneError :: rune where
  "RuneError = 65533"

definition DecodeRuneInString :: "string \<Rightarrow> rune \<times> nat" where
  "DecodeRuneInString s =
    (let n = length s in
     if n < 1 then (RuneError, 0)
     else
     (let s0 = (of_char (s ! 0) :: nat) in
      if s0 < 128 then (s0, 1)
      else if s0 < 194 \<or> 244 < s0 then (RuneError, 1)
      else
      (let sz = (if s0 < 224 then 2 else if s0 < 240 then 3 else 4 :: nat);
           lo = (if s0 = 224 then 160 else if s0 = 240 then 144 else 128 :: nat);
           hi = (if s0 = 237 then 159 else if s0 = 244 then 143 else 191 :: nat)
       in
       if n < sz then (RuneError, 1)
       else
       (let s1 = (of_char (s ! 1) :: nat) in
        if s1 < lo \<or> hi < s1 then (RuneError, 1)
        else if sz \<le> 2 then ((s0 mod 32) * 64 + s1 mod 64, 2)
        else
        (let s2 = (of_char (s ! 2) :: nat) in
         if s2 < 128 \<or> 191 < s2 then (RuneError, 1)
         else if sz \<le> 3 then ((s0 mod 16) * 4096 + (s1 mod 64) * 64 + s2 mod 64, 3)
         else
         (let s3 = (of_char (s ! 3) :: nat) in
          if s3 < 128 \<or> 191 < s3 then (RuneError, 1)
          else ((s0 mod 8) * 262144 + (s1 mod 64) * 4096 + (s2 mod 64) * 64 + s3 mod 64, 4)))))))"

fun runes :: "string \<Rightarrow> rune list" where
  "runes [] = []"
| "runes (c # cs) =
     (case DecodeRuneInString (c # cs) of (r, width) \<Rightarrow> r # runes (drop (width - 1) cs))"

definition EncodeRune :: "rune \<Rightarrow> string" where
  "EncodeRune r =
     (if r \<le> 127 then [char_of r]
      else if r \<le> 2047 then [char_of (192 + r div 64), char_of (128 + r mod 64)]
      else
      (let r = (if 1114111 < r \<or> (55296 \<le> r \<and> r \<le> 57343) then RuneError else r) in
       if r \<le> 65535 then
         [char_of (224 + r div 4096), char_of (128 + (r div 64) mod 64), char_of (128 + r mod 64)]
       else
         [char_of (240 + r div 262144), char_of (128 + (r div 4096) mod 64),
          char_of (128 + (r div 64) mod 64), char_of (128 + r mod 64)]))"

definition strings_Map :: "(rune \<Rightarrow> rune) \<Rightarrow> string \<Rightarrow> string" where
  "strings_Map mapping s = concat (map (\<lambda>c. EncodeRune (mapping c)) (runes s))"

text \<open>
  Modelled from the spec: \<open>validateName\<close>, \<open>replaceDelimiters\<close>, \<open>revertDelimiters\<close> and
  the two delimiter constants they use are code of the repository that is not among the
  source files.  The spec (4.1) says that the external form is "validated (domain-defined
  character class and length)" and that the internal form "substitutes user delimiters
  with engine-safe delimiters (reversible)".  The validator and the two delimiters are
  therefore parameters of the model, gathered in the record \<open>naming\<close>; the substitution
  replaces every occurrence of the one delimiter by the other.

  The record also holds the names of the dead-letter streams, which are not among the
  source files either: \<open>dlsStreamName N x\<close> is \<open>fmt.Sprintf(dlsStreamName, x)\<close>, the name
  of the DLS stream of the station with internal name \<open>x\<close>; \<open>dlsMsgSep\<close> is the
  separator of the DLS id format \<open><internalStation><sep><kind><sep><seq>\<close> (one
  character); \<open>GetDlsSubject N kind station id\<close> is the subject under which the DLS
  stream stores the message with that id; \<open>JSApiRequestNextT N stream durable\<close> is
  \<open>fmt.Sprintf(JSApiRequestNextT, stream, durable)\<close>, the subject of the engine's
  "request next" API.

  The last field is the lower-case mapping of the Unicode case tables of the Go library
  (\<open>unicode.To(unicode.LowerCase, r)\<close>), which \<open>unicode.ToLower\<close> consults for the runes
  above ASCII.
\<close>

record naming =
  validateName :: "string \<Rightarrow> string \<Rightarrow> error option"
  delimiterToReplace :: char
  delimiterReplacement :: char
  dlsStreamName :: "string \<Rightarrow> string"
  dlsMsgSep :: char
  GetDlsSubject :: "string \<Rightarrow> string \<Rightarrow> string \<Rightarrow> string"
  JSApiRequestNextT :: "string \<Rightarrow> string \<Rightarrow> string"
  unicodeLowerCase :: "rune \<Rightarrow> rune"

definition unicode_ToLower :: "naming \<Rightarrow> rune \<Rightarrow> rune" where
  "unicode_ToLower N r =
     (if r \<le> 127 then (if 65 \<le> r \<and> r \<le> 90 then r + 32 else r)
      else unicodeLowerCase N r)"

definition toLowerChar :: "char \<Rightarrow> char" where
  "toLowerChar c =
     (let n = (of_char c :: nat) in if 65 \<le> n \<and> n \<le> 90 then char_of (n + 32) else c)"

definition ToLower :: "naming \<Rightarrow> string \<Rightarrow> string" where
  "ToLower N s =
     (if list_all (\<lambda>c. (of_char c :: nat) < 128) s then map toLowerChar s
      else strings_Map (unicode_ToLower N) s)"

definition replaceDelimiters :: "naming \<Rightarrow> string \<Rightarrow> string" where
  "replaceDelimiters N name =
     map (\<lambda>c. if c = delimiterToReplace N then delimiterReplacement N else c) name"

definition revertDelimiters :: "naming \<Rightarrow> string \<Rightarrow> string" where
  "revertDelimiters N name =
     map (\<lambda>c. if c = delimiterReplacement N then delimiterToReplace N else c) name"

text \<open>
  A rune is valid when it is at most \<open>U+10FFFF\<close> and no surrogate.  \<open>lowerCaseTable\<close>
  says of the lower-case mapping what the Unicode tables satisfy: the lower case of a
  valid rune is a valid rune, and it is its own lower case.

  "Reversible": the two delimiters are ASCII characters, lower-casing does not change the
  engine-safe delimiter and gives the user delimiter for the user delimiter only, and no
  accepted name contains the engine-safe delimiter.
\<close>

definition ValidRune :: "rune \<Rightarrow> bool" where
  "ValidRune r \<longleftrightarrow> r \<le> 1114111 \<and> \<not> (55296 \<le> r \<and> r \<le> 57343)"

definition lowerCaseTable :: "naming \<Rightarrow> bool" where
  "lowerCaseTable N \<longleftrightarrow>
     (\<forall>r. ValidRune r \<longrightarrow>
        ValidRune (unicode_ToLower N r)
        \<and> unicode_ToLower N (unicode_ToLower N r) = unicode_ToLower N r)"

definition reversible :: "naming \<Rightarrow> string \<Rightarrow> bool" where
  "reversible N obj \<longleftrightarrow>
     (of_char (delimiterToReplace N) :: nat) < 128
     \<and> (of_char (delimiterReplacement N) :: nat) < 128
     \<and> unicode_ToLower N (of_char (delimiterReplacement N)) = of_char (delimiterReplacement N)
     \<and> (\<forall>r. unicode_ToLower N r = of_char (delimiterToReplace N)
              \<longleftrightarrow> r = of_char (delimiterToReplace N))
     \<and> (\<forall>name. validateName N name obj = None \<longrightarrow> delimiterReplacement N \<notin> set name)"

definition stationObjectName :: string where
  "stationObjectName = ''Station''"

record StationName =
  internal :: string
  external :: string

definition Ext :: "StationName \<Rightarrow> string" where
  "Ext sn = external sn"

definition Intern :: "StationName \<Rightarrow> string" where
  "Intern sn = internal sn"

definition StationNameFromStr :: "naming \<Rightarrow> string \<Rightarrow> error + StationName" where
  "StationNameFromStr N name =
     (let extern = ToLower N name in
      case validateName N extern stationObjectName of
        Some err \<Rightarrow> Inl err
      | None \<Rightarrow>
          (let intern = replaceDelimiters N name;
               intern = ToLower N intern
           in Inr \<lparr>internal = intern, external = extern\<rparr>))"

definition StationNameFromStreamName :: "naming \<Rightarrow> string \<Rightarrow> StationName" where
  "StationNameFromStreamName N streamName =
     (let intern = streamName;
          extern = revertDelimiters N intern
      in \<lparr>internal = intern, external = extern\<rparr>)"

text \<open>
  A concrete naming scheme, used to run the model: names are non-empty, at most 128
  characters of \<open>a\<close>..\<open>z\<close>, \<open>0\<close>..\<open>9\<close>, dot, dash and underscore; the dot is replaced
  by \<open>#\<close>.  Its lower-case mapping is an excerpt of the Unicode tables: the capital
  letters of Latin-1 (\<open>U+00C0\<close>..\<open>U+00DE\<close> but the sign \<open>U+00D7\<close>), of Greek
  (\<open>U+0391\<close>..\<open>U+03AB\<close>) and of Cyrillic (\<open>U+0400\<close>..\<open>U+042F\<close>), and the signs Ohm,
  Kelvin and Angstrom (\<open>U+2126\<close>, \<open>U+212A\<close>, \<open>U+212B\<close>); every other rune is kept.
\<close>

definition nameChar :: "char \<Rightarrow> bool" where
  "nameChar c =
     (let n = (of_char c :: nat) in
      (97 \<le> n \<and> n \<le> 122) \<or> (48 \<le> n \<and> n \<le> 57) \<or> n = 46 \<or> n = 45 \<or> n = 95)"

definition exampleValidateName :: "string \<Rightarrow> string \<Rightarrow> error option" where
  "exampleValidateName name obj =
     (if length name = 0 then Some (obj @ '' name can not be empty'')
      else if length name > 128 then Some (obj @ '' should be under 128 characters'')
      else if \<not> list_all nameChar name then Some (''Invalid characters in '' @ obj)
      else None)"

definition exampleLowerCase :: "rune \<Rightarrow> rune" where
  "exampleLowerCase r =
     (if (192 \<le> r \<and> r \<le> 214) \<or> (216 \<le> r \<and> r \<le> 222) then r + 32
      else if (913 \<le> r \<and> r \<le> 929) \<or> (931 \<le> r \<and> r \<le> 939) then r + 32
      else if 1040 \<le> r \<and> r \<le> 1071 then r + 32
      else if 1024 \<le> r \<and> r \<le> 1039 then r + 80
      else if r = 8486 then 969
      else if r = 8490 then 107
      else if r = 8491 then 229
      else r)"

definition exampleNaming :: naming where
  "exampleNaming =
     \<lparr>validateName = exampleValidateName,
      delimiterToReplace = CHR ''.'',
      delimiterReplacement = CHR ''#'',
      dlsStreamName = (\<lambda>x. ''$memphis-'' @ x @ ''-dls''),
      dlsMsgSep = CHR ''~'',
      GetDlsSubject = (\<lambda>kind station i. ''$memphis-'' @ station @ ''-dls.'' @ kind @ ''.'' @ i),
      JSApiRequestNextT = (\<lambda>stream durable. ''$JS.API.CONSUMER.MSG.NEXT.'' @ stream @ ''.'' @ durable),
      unicodeLowerCase = exampleLowerCase\<rparr>"

section \<open>Persisted records\<close>

text \<open>
  The package \<open>models\<close> is not among the source files; the records below carry the
  attributes that the handlers read and write (spec, sections 3 and 6).  Time stamps
  (\<open>time.Now()\<close>) and the always empty \<open>functions\<close> list are left out.  An
  \<open>ObjectID\<close> is a number; \<open>primitive.NewObjectID()\<close> draws the next one from a counter
  of the state.
\<close>

type_synonym ObjectID = nat

record SchemaDetails =
  SchemaName :: string
  VersionNumber :: int

record DlsConfiguration =
  Poison :: bool
  Schemaverse :: bool

text \<open>
  A station.  The field \<open>IsDeleted\<close> is \<open>None\<close> for a persisted document that has no
  \<open>is_deleted\<close> field; decoding a document into the Go struct gives the zero value
  \<open>false\<close> to a missing field (\<open>decodeStation\<close>).
\<close>

record Station =
  ID :: ObjectID
  Name :: string
  RetentionType :: string
  RetentionValue :: int
  StorageType :: string
  Replicas :: int
  DedupEnabled :: bool
  DedupWindowInMs :: int
  CreatedByUser :: string
  Schema :: SchemaDetails
  IdempotencyWindow :: int
  DlsConfig :: DlsConfiguration
  IsNative :: bool
  IsDeleted :: "bool option"

definition emptySchemaDetails :: SchemaDetails where
  "emptySchemaDetails = \<lparr>SchemaName = [], VersionNumber = 0\<rparr>"

definition zeroStation :: Station where
  "zeroStation =
     \<lparr>ID = 0, Name = [], RetentionType = [], RetentionValue = 0, StorageType = [],
      Replicas = 0, DedupEnabled = False, DedupWindowInMs = 0, CreatedByUser = [],
      Schema = emptySchemaDetails, IdempotencyWindow = 0,
      DlsConfig = \<lparr>Poison = False, Schemaverse = False\<rparr>, IsNative = False,
      IsDeleted = Some False\<rparr>"

definition decodeStation :: "Station \<Rightarrow> Station" where
  "decodeStation d =
     d\<lparr>IsDeleted := Some (case IsDeleted d of None \<Rightarrow> False | Some b \<Rightarrow> b)\<rparr>"

record SchemaRec =
  schemaId :: ObjectID
  schemaRecName :: string

record SchemaVersion =
  versionSchemaId :: ObjectID
  versionNumber :: int
  versionActive :: bool
  versionContent :: string

record Member =
  memberName :: string
  memberStationId :: ObjectID
  memberIsActive :: bool
  memberIsDeleted :: bool

record AuditLog =
  logID :: ObjectID
  logStationName :: string
  logMessage :: string
  logCreatedByUser :: string
  logUserType :: string

section \<open>Document-store filters and updates\<close>

text \<open>
  The filters that the handlers pass to the stations collection.  A filter (\<open>bson.M\<close>) is
  a conjunction of conditions; \<open>OrDeleted\<close> is the \<open>$or\<close> of conditions on \<open>is_deleted\<close>.
  \<open>DelEq b\<close> is \<open>{"is_deleted": b}\<close>, which a document without the field does not
  match; \<open>DelExists b\<close> is \<open>{"is_deleted": {"$exists": b}}\<close>.
\<close>

datatype dcond = DelEq bool | DelExists bool

datatype cond = NameEq string | NameIn "string list" | DelIs bool | OrDeleted "dcond list"

type_synonym bfilter = "cond list"

fun matches_dcond :: "Station \<Rightarrow> dcond \<Rightarrow> bool" where
  "matches_dcond d (DelEq b) = (IsDeleted d = Some b)"
| "matches_dcond d (DelExists b) = ((IsDeleted d \<noteq> None) = b)"

fun matches_cond :: "Station \<Rightarrow> cond \<Rightarrow> bool" where
  "matches_cond d (NameEq n) = (Name d = n)"
| "matches_cond d (NameIn ns) = (Name d \<in> set ns)"
| "matches_cond d (DelIs b) = (IsDeleted d = Some b)"
| "matches_cond d (OrDeleted cs) = list_ex (matches_dcond d) cs"

definition matches :: "bfilter \<Rightarrow> Station \<Rightarrow> bool" where
  "matches f d = list_all (matches_cond d) f"

text \<open>\<open>{"$or": [{"is_deleted": false}, {"is_deleted": {"$exists": false}}]}\<close>\<close>

definition notDeletedOrAbsent :: cond where
  "notDeletedOrAbsent = OrDeleted [DelEq False, DelExists False]"

definition FindOne :: "bfilter \<Rightarrow> Station list \<Rightarrow> Station option" where
  "FindOne f ds = find (matches f) ds"

definition Find :: "bfilter \<Rightarrow> Station list \<Rightarrow> Station list" where
  "Find f ds = filter (matches f) ds"

text \<open>\<open>UpdateOne\<close> changes the first matching document, \<open>UpdateMany\<close> all of them.\<close>

fun UpdateOne :: "bfilter \<Rightarrow> (Station \<Rightarrow> Station) \<Rightarrow> Station list \<Rightarrow> Station list" where
  "UpdateOne f u [] = []"
| "UpdateOne f u (d # ds) = (if matches f d then u d # ds else d # UpdateOne f u ds)"

definition UpdateMany :: "bfilter \<Rightarrow> (Station \<Rightarrow> Station) \<Rightarrow> Station list \<Rightarrow> Station list" where
  "UpdateMany f u ds = map (\<lambda>d. if matches f d then u d else d) ds"

definition MatchedCount :: "bfilter \<Rightarrow> Station list \<Rightarrow> nat" where
  "MatchedCount f ds = (if list_ex (matches f) ds then 1 else 0)"

text \<open>
  \<open>UpdateOne\<close> with \<open>SetUpsert(true)\<close>: when no document matches, one is inserted; \<open>new\<close>
  is that document (the equality conditions of the filter together with the fields of
  the update).
\<close>

definition UpdateOneUpsert ::
  "bfilter \<Rightarrow> (Station \<Rightarrow> Station) \<Rightarrow> Station \<Rightarrow> Station list \<Rightarrow> Station list" where
  "UpdateOneUpsert f u new ds = (if list_ex (matches f) ds then UpdateOne f u ds else ds @ [new])"

text \<open>The document that an upsert builds from the conditions of its filter alone.\<close>

fun fromFilter :: "bfilter \<Rightarrow> Station \<Rightarrow> Station" where
  "fromFilter [] d = d"
| "fromFilter (NameEq n # cs) d = fromFilter cs (d\<lparr>Name := n\<rparr>)"
| "fromFilter (DelIs b # cs) d = fromFilter cs (d\<lparr>IsDeleted := Some b\<rparr>)"
| "fromFilter (c # cs) d = fromFilter cs d"

section \<open>The state of the control plane and of its collaborators\<close>

record StoredMsg =
  Subject :: string
  Sequence :: nat
  Data :: string
  Time :: int

datatype DeliverPolicy = DeliverAll

datatype AckPolicy = AckExplicit

record ConsumerConfig =
  DeliverPol :: DeliverPolicy
  AckPol :: AckPolicy
  Durable :: string
  FilterSubject :: string

datatype ApiError =
    JSStreamCreateError "error option"
  | JSStreamNameExistError
  | JSStreamDeleteError "error option"

datatype JSApiResponseType = JSApiStreamCreateResponseType | JSApiStreamDeleteResponseType

record JSApiResponse =
  respType :: JSApiResponseType
  respError :: "ApiError option"

datatype SchemaUpdateType = SchemaUpdateTypeInit | SchemaUpdateTypeDrop

record ProducerSchemaUpdateInit =
  initSchemaName :: string
  initVersionNumber :: int
  initContent :: string

record ProducerSchemaUpdate =
  UpdateType :: SchemaUpdateType
  Init :: ProducerSchemaUpdateInit

definition zeroInit :: ProducerSchemaUpdateInit where
  "zeroInit = \<lparr>initSchemaName = [], initVersionNumber = 0, initContent = []\<rparr>"

text \<open>
  What is sent on a subject of the global account: the bytes of a reply, an API error
  response of the stream engine, a schema update, a "request next" of the fetch protocol
  (reply subject and requested amount), or a re-published dead-letter message (data and
  headers).
\<close>

datatype payload =
    Bytes string
  | ApiErrResponse JSApiResponse
  | SchemaUpdateMsg ProducerSchemaUpdate
  | RequestNext string string
  | Republished string "(string \<times> string) list"

text \<open>
  The calls on the stream engine that change it, in the order in which they are made.
\<close>

datatype EngineCall =
    AddConsumer string ConsumerConfig
  | RemoveConsumer string string
  | DeleteMsg string nat

text \<open>
  HTTP responses.  \<open>configuration.SHOWABLE_ERROR_STATUS_CODE\<close> is a constant that is not
  among the source files; it is kept symbolic.
\<close>

datatype status = Status nat | SHOWABLE_ERROR_STATUS_CODE

datatype body =
    Message string
  | EmptyObject
  | StationBody Station "string list"
  | CreatedBody Station "bool option"
  | SchemaBody SchemaDetails bool

record world =
  stations :: "Station list"
  schemas :: "SchemaRec list"
  schemaVersions :: "SchemaVersion list"
  producers :: "Member list"
  consumers :: "Member list"
  tags :: "(ObjectID \<times> string) list"
  auditLogs :: "AuditLog list"
  streams :: "(string \<times> StoredMsg list) list"
  durables :: "(string \<times> ConsumerConfig) list"
  subscriptions :: "string list"
  engineLog :: "EngineCall list"
  sent :: "(string \<times> payload) list"
  http :: "(status \<times> body) list"
  objectIDs :: nat
  nuid :: nat

definition emptyWorld :: world where
  "emptyWorld =
     \<lparr>stations = [], schemas = [], schemaVersions = [], producers = [], consumers = [],
      tags = [], auditLogs = [], streams = [], durables = [], subscriptions = [],
      engineLog = [], sent = [], http = [], objectIDs = 0, nuid = 0\<rparr>"

text \<open>
  The calls on the metadata store, on the stream engine and on other collaborators that
  can fail.  A fault environment gives the error that each kind of call returns, if any;
  within one run of a handler a kind of call fails always or never.
\<close>

datatype call =
    CallUnmarshal
  | CallIsStationExist
  | CallIsSchemaExist
  | CallGetActiveVersion
  | CallGenerateSchemaUpdateInit
  | CallCreateStream
  | CallCreateDlsStream
  | CallRemoveStream
  | CallInsertOne
  | CallUpdateOne
  | CallUpdateMany
  | CallUpdateProducers
  | CallUpdateConsumers
  | CallFind
  | CallFindOne
  | CallGetTags
  | CallAddTags
  | CallCreateAuditLogs
  | CallRemoveAuditLogs
  | CallGetUser
  | CallStreamInfo
  | CallAddConsumer
  | CallSubscribe
  | CallRemoveConsumer
  | CallDeleteMsg
  | CallResend

type_synonym faults = "call \<Rightarrow> error option"

definition noFaults :: faults where
  "noFaults = (\<lambda>c. None)"

record client =
  memphisInfoUsername :: string
  clientInfoName :: string

record user =
  Username :: string
  UserType :: string

definition zeroUser :: user where
  "zeroUser = \<lparr>Username = [], UserType = []\<rparr>"

definition NewObjectID :: "world \<Rightarrow> ObjectID \<times> world" where
  "NewObjectID w = (objectIDs w, w\<lparr>objectIDs := Suc (objectIDs w)\<rparr>)"

section \<open>Collaborators that are not among the source files\<close>

text \<open>
  Modelled from the spec: the functions of this section are code of the repository that
  is not among the source files (the metadata repository facade, the stream engine
  adapter, the schema propagation service, audit logs and tags).  Each one does what the
  spec says of it (sections 2 to 4), on the state above; a store or engine failure is
  taken from the fault environment.
\<close>

definition respondOnGlobalAcc :: "world \<Rightarrow> string \<Rightarrow> string \<Rightarrow> world" where
  "respondOnGlobalAcc w replySubject resp = w\<lparr>sent := sent w @ [(replySubject, Bytes resp)]\<rparr>"

definition sendAPIErrResponse :: "world \<Rightarrow> string \<Rightarrow> JSApiResponse \<Rightarrow> world" where
  "sendAPIErrResponse w reply resp = w\<lparr>sent := sent w @ [(reply, ApiErrResponse resp)]\<rparr>"

text \<open>
  "Query Metadata Repository for an existing non-deleted station with this external
  name": the filter is the one of the lookups that are among the source files
  (\<open>GetStation\<close>); an absent station gives the zero-valued record.
\<close>

definition IsStationExist :: "faults \<Rightarrow> world \<Rightarrow> StationName \<Rightarrow> bool \<times> Station \<times> error option" where
  "IsStationExist F w sn =
     (case F CallIsStationExist of
        Some err \<Rightarrow> (False, zeroStation, Some err)
      | None \<Rightarrow>
          (case FindOne [NameEq (Ext sn), notDeletedOrAbsent] (stations w) of
             None \<Rightarrow> (False, zeroStation, None)
           | Some d \<Rightarrow> (True, decodeStation d, None)))"

definition zeroSchema :: SchemaRec where
  "zeroSchema = \<lparr>schemaId = 0, schemaRecName = []\<rparr>"

definition IsSchemaExist :: "faults \<Rightarrow> world \<Rightarrow> string \<Rightarrow> bool \<times> SchemaRec \<times> error option" where
  "IsSchemaExist F w n =
     (case F CallIsSchemaExist of
        Some err \<Rightarrow> (False, zeroSchema, Some err)
      | None \<Rightarrow>
          (case find (\<lambda>s. schemaRecName s = n) (schemas w) of
             None \<Rightarrow> (False, zeroSchema, None)
           | Some s \<Rightarrow> (True, s, None)))"

definition ErrNoDocuments :: error where
  "ErrNoDocuments = ''mongo: no documents in result''"

definition getActiveVersionBySchemaId :: "faults \<Rightarrow> world \<Rightarrow> ObjectID \<Rightarrow> error + SchemaVersion" where
  "getActiveVersionBySchemaId F w i =
     (case F CallGetActiveVersion of
        Some err \<Rightarrow> Inl err
      | None \<Rightarrow>
          (case find (\<lambda>v. versionSchemaId v = i \<and> versionActive v) (schemaVersions w) of
             None \<Rightarrow> Inl ErrNoDocuments
           | Some v \<Rightarrow> Inr v))"

definition generateSchemaUpdateInit ::
  "faults \<Rightarrow> world \<Rightarrow> SchemaRec \<Rightarrow> error + ProducerSchemaUpdateInit" where
  "generateSchemaUpdateInit F w schema =
     (case F CallGenerateSchemaUpdateInit of
        Some err \<Rightarrow> Inl err
      | None \<Rightarrow>
          (case find (\<lambda>v. versionSchemaId v = schemaId schema \<and> versionActive v) (schemaVersions w) of
             None \<Rightarrow> Inl ErrNoDocuments
           | Some v \<Rightarrow>
               Inr \<lparr>initSchemaName = schemaRecName schema, initVersionNumber = versionNumber v,
                    initContent = versionContent v\<rparr>))"

text \<open>"Schema-update publish subject. \<open>$memphis_schema_updates_<internalStation>\<close>"\<close>

definition updateStationProducersOfSchemaChange ::
  "world \<Rightarrow> StationName \<Rightarrow> ProducerSchemaUpdate \<Rightarrow> world" where
  "updateStationProducersOfSchemaChange w sn update =
     w\<lparr>sent := sent w @ [(''$memphis_schema_updates_'' @ Intern sn, SchemaUpdateMsg update)]\<rparr>"

definition addStream :: "string \<Rightarrow> (string \<times> StoredMsg list) list \<Rightarrow> (string \<times> StoredMsg list) list" where
  "addStream n ss = (if n \<in> fst ` set ss then ss else ss @ [(n, [])])"

definition CreateStream :: "faults \<Rightarrow> world \<Rightarrow> StationName \<Rightarrow> Station \<Rightarrow> error option \<times> world" where
  "CreateStream F w sn station =
     (case F CallCreateStream of
        Some err \<Rightarrow> (Some err, w)
      | None \<Rightarrow> (None, w\<lparr>streams := addStream (Intern sn) (streams w)\<rparr>))"

definition CreateDlsStream ::
  "naming \<Rightarrow> faults \<Rightarrow> world \<Rightarrow> StationName \<Rightarrow> Station \<Rightarrow> error option \<times> world" where
  "CreateDlsStream N F w sn station =
     (case F CallCreateDlsStream of
        Some err \<Rightarrow> (Some err, w)
      | None \<Rightarrow> (None, w\<lparr>streams := addStream (dlsStreamName N (Intern sn)) (streams w)\<rparr>))"

definition RemoveStream :: "faults \<Rightarrow> world \<Rightarrow> string \<Rightarrow> error option \<times> world" where
  "RemoveStream F w n =
     (case F CallRemoveStream of
        Some err \<Rightarrow> (Some err, w)
      | None \<Rightarrow> (None, w\<lparr>streams := filter (\<lambda>s. fst s \<noteq> n) (streams w)\<rparr>))"

definition CreateAuditLogs :: "faults \<Rightarrow> world \<Rightarrow> AuditLog list \<Rightarrow> error option \<times> world" where
  "CreateAuditLogs F w logs =
     (case F CallCreateAuditLogs of
        Some err \<Rightarrow> (Some err, w)
      | None \<Rightarrow> (None, w\<lparr>auditLogs := auditLogs w @ logs\<rparr>))"

definition RemoveAllAuditLogsByStation :: "faults \<Rightarrow> world \<Rightarrow> string \<Rightarrow> error option \<times> world" where
  "RemoveAllAuditLogsByStation F w n =
     (case F CallRemoveAuditLogs of
        Some err \<Rightarrow> (Some err, w)
      | None \<Rightarrow> (None, w\<lparr>auditLogs := filter (\<lambda>l. logStationName l \<noteq> n) (auditLogs w)\<rparr>))"

definition DeleteTagsFromStation :: "world \<Rightarrow> ObjectID \<Rightarrow> world" where
  "DeleteTagsFromStation w i = w\<lparr>tags := filter (\<lambda>t. fst t \<noteq> i) (tags w)\<rparr>"

definition GetTagsByStation :: "faults \<Rightarrow> world \<Rightarrow> ObjectID \<Rightarrow> error + string list" where
  "GetTagsByStation F w i =
     (case F CallGetTags of
        Some err \<Rightarrow> Inl err
      | None \<Rightarrow> Inr (map snd (filter (\<lambda>t. fst t = i) (tags w))))"

definition AddTagsToEntity :: "faults \<Rightarrow> world \<Rightarrow> string list \<Rightarrow> ObjectID \<Rightarrow> error option \<times> world" where
  "AddTagsToEntity F w ts i =
     (case F CallAddTags of
        Some err \<Rightarrow> (Some err, w)
      | None \<Rightarrow> (None, w\<lparr>tags := tags w @ map (\<lambda>t. (i, t)) ts\<rparr>))"

definition getUserDetailsFromMiddleware :: "faults \<Rightarrow> user \<Rightarrow> user \<times> error option" where
  "getUserDetailsFromMiddleware F u =
     (case F CallGetUser of Some err \<Rightarrow> (zeroUser, Some err) | None \<Rightarrow> (u, None))"

section \<open>Replies (memphis_sdk_handlers.go)\<close>

record createStationRequest =
  csrStationName :: string
  csrSchemaName :: string
  csrRetentionType :: string
  csrRetentionValue :: int
  csrStorageType :: string
  csrReplicas :: int
  csrDedupEnabled :: bool
  csrDedupWindowMillis :: int
  csrIdempotencyWindow :: int
  csrDlsConfiguration :: DlsConfiguration

record destroyStationRequest =
  dsrStationName :: string

record attachSchemaRequest =
  asrName :: string
  asrStationName :: string

definition respondWithErr :: "world \<Rightarrow> string \<Rightarrow> error option \<Rightarrow> world" where
  "respondWithErr w replySubject err =
     (let resp = (case err of None \<Rightarrow> [] | Some e \<Rightarrow> e)
      in respondOnGlobalAcc w replySubject resp)"

definition respondWithErrOrJsApiResp ::
  "bool \<Rightarrow> world \<Rightarrow> string \<Rightarrow> JSApiResponse \<Rightarrow> error option \<Rightarrow> world" where
  "respondWithErrOrJsApiResp jsApi w reply resp err =
     (if jsApi then sendAPIErrResponse w reply resp else respondWithErr w reply err)"

section \<open>Stations: validation\<close>

definition validateRetentionType :: "string \<Rightarrow> error option" where
  "validateRetentionType retentionType =
     (if retentionType \<noteq> ''message_age_sec'' \<and> retentionType \<noteq> ''messages''
         \<and> retentionType \<noteq> ''bytes''
      then Some ''retention type can be one of the following message_age_sec/messages/bytes''
      else None)"

definition validateStorageType :: "string \<Rightarrow> error option" where
  "validateStorageType storageType =
     (if storageType \<noteq> ''file'' \<and> storageType \<noteq> ''memory''
      then Some ''storage type can be one of the following file/memory''
      else None)"

definition validateReplicas :: "int \<Rightarrow> error option" where
  "validateReplicas replicas =
     (if replicas > 5 then Some ''max replicas in a cluster is 5'' else None)"

section \<open>CreateStation, SDK variant\<close>

text \<open>
  A handler takes the state and returns the state after it; what it logs
  (\<open>serv.Warnf\<close>, \<open>serv.Errorf\<close>, \<open>serv.Noticef\<close>) and the best-effort analytics events
  are not part of the state.  The callback of the non-native path acts on the streams of
  the engine.

  The blocks of \<open>createStationDirectIntern\<close> are definitions of their own, in the order
  of the source: the schema (lines 192 to 219), the retention (221 to 236), the storage
  type (238 to 250), the replicas (252 to 263), and what follows the construction of
  \<open>newStation\<close> (291 to 347).  A block gives \<open>Inl\<close> when the handler returns in it.
\<close>

type_synonym streamFunc = "(string \<times> StoredMsg list) list \<Rightarrow> error option \<times> (string \<times> StoredMsg list) list"

definition createStationDirect_schema ::
  "naming \<Rightarrow> faults \<Rightarrow> world \<Rightarrow> bool \<Rightarrow> string \<Rightarrow> JSApiResponse \<Rightarrow> createStationRequest
     \<Rightarrow> world + SchemaDetails" where
  "createStationDirect_schema N F w isNative reply jsApiResp csr =
     (if csrSchemaName csr \<noteq> [] then
        (let schemaName = ToLower N (csrSchemaName csr) in
         case IsSchemaExist F w schemaName of
           (exist, schema, Some err) \<Rightarrow>
             Inl (respondWithErrOrJsApiResp (\<not> isNative) w reply
                    (jsApiResp\<lparr>respError := Some (JSStreamCreateError (Some err))\<rparr>) (Some err))
         | (exist, schema, None) \<Rightarrow>
             if \<not> exist then
               \<comment> \<open>\<open>errMsg\<close> is logged; the \<open>err\<close> passed on is nil\<close>
               Inl (respondWithErrOrJsApiResp (\<not> isNative) w reply
                      (jsApiResp\<lparr>respError := Some (JSStreamCreateError None)\<rparr>) None)
             else
               (case getActiveVersionBySchemaId F w (schemaId schema) of
                  Inl err \<Rightarrow>
                    Inl (respondWithErrOrJsApiResp (\<not> isNative) w reply
                           (jsApiResp\<lparr>respError := Some (JSStreamCreateError (Some err))\<rparr>) (Some err))
                | Inr schemaVersion \<Rightarrow>
                    Inr \<lparr>SchemaName = schemaName, VersionNumber = versionNumber schemaVersion\<rparr>))
      else Inr emptySchemaDetails)"

definition createStationDirect_retention :: "naming \<Rightarrow> createStationRequest \<Rightarrow> error + string \<times> int" where
  "createStationDirect_retention N csr =
     (if csrRetentionType csr \<noteq> [] then
        (let retentionType = ToLower N (csrRetentionType csr) in
         case validateRetentionType retentionType of
           Some err \<Rightarrow> Inl err
         | None \<Rightarrow> Inr (retentionType, csrRetentionValue csr))
      else Inr (''message_age_sec'', 604800))"

definition createStation_storage :: "naming \<Rightarrow> string \<Rightarrow> error + string" where
  "createStation_storage N requested =
     (if requested \<noteq> [] then
        (let storageType = ToLower N requested in
         case validateStorageType storageType of
           Some err \<Rightarrow> Inl err
         | None \<Rightarrow> Inr storageType)
      else Inr ''file'')"

definition createStation_replicas :: "int \<Rightarrow> error + int" where
  "createStation_replicas requested =
     (if requested > 0 then
        (case validateReplicas requested of
           Some err \<Rightarrow> Inl err
         | None \<Rightarrow> Inr requested)
      else Inr 1)"

definition createStationDirect_persist ::
  "naming \<Rightarrow> faults \<Rightarrow> world \<Rightarrow> client \<Rightarrow> string \<Rightarrow> StationName \<Rightarrow> Station
     \<Rightarrow> streamFunc option \<Rightarrow> world" where
  "createStationDirect_persist N F w c reply stationName newStation nonNativeCreateStreamFunc =
    (let (err, w) =
           (case nonNativeCreateStreamFunc of
              None \<Rightarrow> CreateStream F w stationName newStation
            | Some f \<Rightarrow> (let (e, ss) = f (streams w) in (e, w\<lparr>streams := ss\<rparr>)))
     in
     case err of
       Some err \<Rightarrow> respondWithErr w reply (Some err)
     | None \<Rightarrow>
     (case CreateDlsStream N F w stationName newStation of
       (Some err, w) \<Rightarrow> respondWithErr w reply (Some err)
     | (None, w) \<Rightarrow>
     (case F CallInsertOne of
       Some err \<Rightarrow> respondWithErr w reply (Some err)
     | None \<Rightarrow>
     (let w = w\<lparr>stations := stations w @ [newStation]\<rparr>;
          message = ''Station '' @ Ext stationName @ '' has been created by user ''
                      @ memphisInfoUsername c;
          (logId, w) = NewObjectID w;
          newAuditLog =
            \<lparr>logID = logId, logStationName = Ext stationName, logMessage = message,
             logCreatedByUser = memphisInfoUsername c, logUserType = ''application''\<rparr>;
          (err, w) = CreateAuditLogs F w [newAuditLog]
      in respondWithErr w reply None))))"

definition createStationDirectIntern ::
  "naming \<Rightarrow> faults \<Rightarrow> world \<Rightarrow> client \<Rightarrow> string \<Rightarrow> createStationRequest
     \<Rightarrow> streamFunc option \<Rightarrow> world" where
  "createStationDirectIntern N F w c reply csr nonNativeCreateStreamFunc =
    (let isNative = (case nonNativeCreateStreamFunc of None \<Rightarrow> True | Some f \<Rightarrow> False);
         jsApiResp = \<lparr>respType = JSApiStreamCreateResponseType, respError = None\<rparr>
     in
     case StationNameFromStr N (csrStationName csr) of
       Inl err \<Rightarrow>
         respondWithErrOrJsApiResp (\<not> isNative) w reply
           (jsApiResp\<lparr>respError := Some (JSStreamCreateError (Some err))\<rparr>) (Some err)
     | Inr stationName \<Rightarrow>
     (case IsStationExist F w stationName of
       (exist, station, Some err) \<Rightarrow>
         respondWithErrOrJsApiResp (\<not> isNative) w reply
           (jsApiResp\<lparr>respError := Some (JSStreamCreateError (Some err))\<rparr>) (Some err)
     | (exist, station, None) \<Rightarrow>
     if exist then
       \<comment> \<open>\<open>errMsg\<close> is logged; the \<open>err\<close> passed on is the nil \<open>err\<close> of \<open>IsStationExist\<close>\<close>
       respondWithErrOrJsApiResp (\<not> isNative) w reply
         (jsApiResp\<lparr>respError := Some JSStreamNameExistError\<rparr>) None
     else
     (case createStationDirect_schema N F w isNative reply jsApiResp csr of
       Inl w' \<Rightarrow> w'
     | Inr schemaDetails \<Rightarrow>
     (case createStationDirect_retention N csr of
       Inl err \<Rightarrow>
         respondWithErrOrJsApiResp (\<not> isNative) w reply
           (jsApiResp\<lparr>respError := Some (JSStreamCreateError (Some err))\<rparr>) (Some err)
     | Inr (retentionType, retentionValue) \<Rightarrow>
     (case createStation_storage N (csrStorageType csr) of
       Inl err \<Rightarrow>
         respondWithErrOrJsApiResp (\<not> isNative) w reply
           (jsApiResp\<lparr>respError := Some (JSStreamCreateError (Some err))\<rparr>) (Some err)
     | Inr storageType \<Rightarrow>
     (case createStation_replicas (csrReplicas csr) of
       Inl err \<Rightarrow>
         respondWithErrOrJsApiResp (\<not> isNative) w reply
           (jsApiResp\<lparr>respError := Some (JSStreamCreateError (Some err))\<rparr>) (Some err)
     | Inr replicas \<Rightarrow>
     (let idempotencyWindow =
            (if csrIdempotencyWindow csr \<le> 0 then 120000
             else if csrIdempotencyWindow csr < 100 then 100
             else csrIdempotencyWindow csr);
          (newID, w) = NewObjectID w;
          newStation =
            \<lparr>ID = newID, Name = Ext stationName, RetentionType = retentionType,
             RetentionValue = retentionValue, StorageType = storageType, Replicas = replicas,
             DedupEnabled = csrDedupEnabled csr, DedupWindowInMs = csrDedupWindowMillis csr,
             CreatedByUser = memphisInfoUsername c, Schema = schemaDetails,
             IdempotencyWindow = idempotencyWindow, DlsConfig = csrDlsConfiguration csr,
             IsNative = isNative, IsDeleted = Some False\<rparr>
      in createStationDirect_persist N F w c reply stationName newStation
           nonNativeCreateStreamFunc)))))))"

text \<open>
  \<open>createStationDirect\<close>: the request is the result of \<open>json.Unmarshal\<close>, an error or
  the decoded request.
\<close>

definition createStationDirect ::
  "naming \<Rightarrow> faults \<Rightarrow> world \<Rightarrow> client \<Rightarrow> string \<Rightarrow> error + createStationRequest \<Rightarrow> world" where
  "createStationDirect N F w c reply msg =
     (case msg of
        Inl err \<Rightarrow> respondWithErr w reply (Some err)
      | Inr csr \<Rightarrow> createStationDirectIntern N F w c reply csr None)"

section \<open>CreateStation, HTTP variant\<close>

text \<open>
  An HTTP handler takes the validated body (\<open>utils.Validate\<close> returns before anything is
  done when the body is refused) and the user that the middleware put into the context.
  The blocks of \<open>CreateStation\<close> are the schema (lines 555 to 582), the retention (584 to
  596), the storage type and the replicas (as in the SDK variant), and what follows the
  construction of \<open>newStation\<close> (652 to 798).
\<close>

record CreateStationSchema = createStationRequest +
  bodyTags :: "string list"

definition AbortWithStatusJSON :: "world \<Rightarrow> status \<Rightarrow> string \<Rightarrow> world" where
  "AbortWithStatusJSON w code message = w\<lparr>http := http w @ [(code, Message message)]\<rparr>"

definition IndentedJSON :: "world \<Rightarrow> status \<Rightarrow> body \<Rightarrow> world" where
  "IndentedJSON w code obj = w\<lparr>http := http w @ [(code, obj)]\<rparr>"

definition CreateStation_schema ::
  "faults \<Rightarrow> world \<Rightarrow> string \<Rightarrow> string \<Rightarrow> world + SchemaDetails" where
  "CreateStation_schema F w bodySchemaName schemaName =
     (if bodySchemaName \<noteq> [] then
        (case IsSchemaExist F w schemaName of
           (exist, schema, Some err) \<Rightarrow> Inl (AbortWithStatusJSON w (Status 500) ''Server Error'')
         | (exist, schema, None) \<Rightarrow>
             if \<not> exist then
               Inl (AbortWithStatusJSON w SHOWABLE_ERROR_STATUS_CODE
                      (''Schema '' @ schemaName @ '' does not exist''))
             else
               (case getActiveVersionBySchemaId F w (schemaId schema) of
                  Inl err \<Rightarrow> Inl (AbortWithStatusJSON w (Status 500) err)
                | Inr schemaVersion \<Rightarrow>
                    Inr \<lparr>SchemaName = schemaName, VersionNumber = versionNumber schemaVersion\<rparr>))
      else Inr emptySchemaDetails)"

definition CreateStation_retention :: "naming \<Rightarrow> string \<Rightarrow> int \<Rightarrow> error + string \<times> int" where
  "CreateStation_retention N bodyRetentionType bodyRetentionValue =
     (if bodyRetentionType \<noteq> [] \<and> bodyRetentionValue > 0 then
        (let retentionType = ToLower N bodyRetentionType in
         case validateRetentionType retentionType of
           Some err \<Rightarrow> Inl err
         | None \<Rightarrow> Inr (retentionType, bodyRetentionValue))
      else Inr (''message_age_sec'', 604800))"

definition CreateStation_persist ::
  "naming \<Rightarrow> faults \<Rightarrow> world \<Rightarrow> user \<Rightarrow> string list \<Rightarrow> StationName \<Rightarrow> Station \<Rightarrow> string
     \<Rightarrow> string \<Rightarrow> world" where
  "CreateStation_persist N F w user bodyTagNames stationName newStation schemaName
     storageTypeForResponse =
    (case CreateStream F w stationName newStation of
       (Some err, w) \<Rightarrow> AbortWithStatusJSON w (Status 500) ''Server error''
     | (None, w) \<Rightarrow>
     (case CreateDlsStream N F w stationName newStation of
       (Some err, w) \<Rightarrow> AbortWithStatusJSON w (Status 500) ''Server error''
     | (None, w) \<Rightarrow>
     (let filter = [NameEq (Name newStation), DelIs False];
          \<comment> \<open>\<open>$setOnInsert\<close>: every field but \<open>name\<close> and \<open>is_deleted\<close>\<close>
          setOnInsert =
            newStation\<lparr>Name := [], IsDeleted := None,
              Schema := (if schemaName \<noteq> [] then Schema newStation else emptySchemaDetails)\<rparr>
      in
      case F CallUpdateOne of
        Some err \<Rightarrow> AbortWithStatusJSON w (Status 500) ''Server error''
      | None \<Rightarrow>
      (let matchedCount = MatchedCount filter (stations w);
           w = w\<lparr>stations :=
                  UpdateOneUpsert filter (\<lambda>d. d) (fromFilter filter setOnInsert) (stations w)\<rparr>
       in
       if matchedCount > 0 then
         AbortWithStatusJSON w SHOWABLE_ERROR_STATUS_CODE
           (''Station '' @ Name newStation @ '' already exists'')
       else
       (case (if length bodyTagNames > 0
              then AddTagsToEntity F w bodyTagNames (ID newStation) else (None, w)) of
         (Some err, w) \<Rightarrow> AbortWithStatusJSON w (Status 500) ''Server error''
       | (None, w) \<Rightarrow>
       (let message = ''Station '' @ Ext stationName @ '' has been created by '' @ Username user;
            (logId, w) = NewObjectID w;
            newAuditLog =
              \<lparr>logID = logId, logStationName = Ext stationName, logMessage = message,
               logCreatedByUser = Username user, logUserType = UserType user\<rparr>;
            (err, w) = CreateAuditLogs F w [newAuditLog];
            (respId, w) = NewObjectID w
        in IndentedJSON w (Status 200)
             (CreatedBody
                (newStation\<lparr>ID := respId, StorageType := storageTypeForResponse,
                   Schema := (if schemaName \<noteq> [] then Schema newStation else emptySchemaDetails)\<rparr>)
                (if schemaName \<noteq> [] then Some True else None))))))))"

definition CreateStation :: "naming \<Rightarrow> faults \<Rightarrow> world \<Rightarrow> user \<Rightarrow> CreateStationSchema \<Rightarrow> world" where
  "CreateStation N F w ctxUser body =
    (case StationNameFromStr N (csrStationName body) of
       Inl err \<Rightarrow> AbortWithStatusJSON w SHOWABLE_ERROR_STATUS_CODE err
     | Inr stationName \<Rightarrow>
     (case IsStationExist F w stationName of
       (exist, station, Some err) \<Rightarrow> AbortWithStatusJSON w (Status 500) ''Server error''
     | (exist, station, None) \<Rightarrow>
     if exist then
       AbortWithStatusJSON w SHOWABLE_ERROR_STATUS_CODE
         (''Station '' @ external stationName @ '' already exists'')
     else
     (let (user, err) = getUserDetailsFromMiddleware F ctxUser;
          \<comment> \<open>no \<open>return\<close> after this abort\<close>
          w = (case err of
                 Some e \<Rightarrow> AbortWithStatusJSON w (Status 401) ''Unauthorized''
               | None \<Rightarrow> w);
          schemaName = (if csrSchemaName body \<noteq> [] then ToLower N (csrSchemaName body) else [])
      in
      case CreateStation_schema F w (csrSchemaName body) schemaName of
        Inl w' \<Rightarrow> w'
      | Inr schemaDetails \<Rightarrow>
      (case CreateStation_retention N (csrRetentionType body) (csrRetentionValue body) of
        Inl err \<Rightarrow> AbortWithStatusJSON w SHOWABLE_ERROR_STATUS_CODE err
      | Inr (retentionType, retentionValue) \<Rightarrow>
      (case createStation_storage N (csrStorageType body) of
        Inl err \<Rightarrow> AbortWithStatusJSON w SHOWABLE_ERROR_STATUS_CODE err
      | Inr storageType \<Rightarrow>
      (let storageTypeForResponse = (if storageType = ''memory'' then storageType else ''disk'')
       in
       case createStation_replicas (csrReplicas body) of
         Inl err \<Rightarrow> AbortWithStatusJSON w SHOWABLE_ERROR_STATUS_CODE err
       | Inr replicas \<Rightarrow>
       (let idempotencyWindow =
              (if csrIdempotencyWindow body \<le> 0 then 120000
               else if csrIdempotencyWindow body < 100 then 100
               else csrIdempotencyWindow body);
            (newID, w) = NewObjectID w;
            newStation =
              \<lparr>ID = newID, Name = Ext stationName, RetentionType = retentionType,
               RetentionValue = retentionValue, StorageType = storageType, Replicas = replicas,
               DedupEnabled = csrDedupEnabled body, DedupWindowInMs = csrDedupWindowMillis body,
               CreatedByUser = Username user, Schema = schemaDetails,
               IdempotencyWindow = idempotencyWindow, DlsConfig = csrDlsConfiguration body,
               IsNative = True, IsDeleted = Some False\<rparr>
        in CreateStation_persist N F w user (bodyTags body) stationName newStation schemaName
             storageTypeForResponse)))))))"

section \<open>DestroyStation\<close>

definition removeStationResources ::
  "naming \<Rightarrow> faults \<Rightarrow> world \<Rightarrow> Station \<Rightarrow> streamFunc option \<Rightarrow> error option \<times> world" where
  "removeStationResources N F w station nonNativeRemoveStreamFunc =
    (case StationNameFromStr N (Name station) of
       Inl err \<Rightarrow> (Some err, w)
     | Inr stationName \<Rightarrow>
     (let (err, w) =
            (case nonNativeRemoveStreamFunc of
               None \<Rightarrow> RemoveStream F w (Intern stationName)
             | Some f \<Rightarrow> (let (e, ss) = f (streams w) in (e, w\<lparr>streams := ss\<rparr>)))
      in
      case err of
        Some err \<Rightarrow> (Some err, w)
      | None \<Rightarrow>
      (case RemoveStream F w (dlsStreamName N (Intern stationName)) of
        (Some err, w) \<Rightarrow> (Some err, w)
      | (None, w) \<Rightarrow>
      (let w = DeleteTagsFromStation w (ID station) in
       case F CallUpdateProducers of
         Some err \<Rightarrow> (Some err, w)
       | None \<Rightarrow>
       (let w = w\<lparr>producers :=
                    map (\<lambda>p. if memberStationId p = ID station
                              then p\<lparr>memberIsActive := False, memberIsDeleted := True\<rparr> else p)
                      (producers w)\<rparr>
        in
        case F CallUpdateConsumers of
          Some err \<Rightarrow> (Some err, w)
        | None \<Rightarrow>
        (let w = w\<lparr>consumers :=
                     map (\<lambda>p. if memberStationId p = ID station
                               then p\<lparr>memberIsActive := False, memberIsDeleted := True\<rparr> else p)
                       (consumers w)\<rparr>;
             \<comment> \<open>an error of the audit-log removal is logged only\<close>
             (err, w) = RemoveAllAuditLogsByStation F w (Name station)
         in (None, w)))))))"

definition removeStationDirectIntern ::
  "naming \<Rightarrow> faults \<Rightarrow> world \<Rightarrow> client \<Rightarrow> string \<Rightarrow> destroyStationRequest
     \<Rightarrow> streamFunc option \<Rightarrow> world" where
  "removeStationDirectIntern N F w c reply dsr nonNativeRemoveStreamFunc =
    (let isNative = (case nonNativeRemoveStreamFunc of None \<Rightarrow> True | Some f \<Rightarrow> False);
         jsApiResp = \<lparr>respType = JSApiStreamDeleteResponseType, respError = None\<rparr>
     in
     case StationNameFromStr N (dsrStationName dsr) of
       Inl err \<Rightarrow>
         respondWithErrOrJsApiResp (\<not> isNative) w reply
           (jsApiResp\<lparr>respError := Some (JSStreamDeleteError (Some err))\<rparr>) (Some err)
     | Inr stationName \<Rightarrow>
     (case IsStationExist F w stationName of
       (exist, station, Some err) \<Rightarrow>
         respondWithErrOrJsApiResp (\<not> isNative) w reply
           (jsApiResp\<lparr>respError := Some (JSStreamDeleteError (Some err))\<rparr>) (Some err)
     | (exist, station, None) \<Rightarrow>
     if \<not> exist then
       (let errMsg = ''Station '' @ Name station @ '' does not exist'';
            err = errMsg
        in respondWithErrOrJsApiResp (\<not> isNative) w reply
             (jsApiResp\<lparr>respError := Some (JSStreamDeleteError (Some err))\<rparr>) (Some err))
     else
     (case removeStationResources N F w station nonNativeRemoveStreamFunc of
       (Some err, w) \<Rightarrow> respondWithErr w reply (Some err)
     | (None, w) \<Rightarrow>
     (case F CallUpdateOne of
       Some err \<Rightarrow> respondWithErr w reply (Some err)
     | None \<Rightarrow>
     (let w = w\<lparr>stations :=
                  UpdateOne [NameEq (Ext stationName), notDeletedOrAbsent]
                    (\<lambda>d. d\<lparr>IsDeleted := Some True\<rparr>) (stations w)\<rparr>;
          message = ''Station '' @ Ext stationName @ '' has been deleted by user '' @ memphisInfoUsername c;
          (logId, w) = NewObjectID w;
          newAuditLog =
            \<lparr>logID = logId, logStationName = Ext stationName, logMessage = message,
             logCreatedByUser = memphisInfoUsername c, logUserType = ''application''\<rparr>;
          (err, w) = CreateAuditLogs F w [newAuditLog]
      in respondWithErr w reply None)))))"

definition removeStationDirect ::
  "naming \<Rightarrow> faults \<Rightarrow> world \<Rightarrow> client \<Rightarrow> string \<Rightarrow> error + destroyStationRequest \<Rightarrow> world" where
  "removeStationDirect N F w c reply msg =
     (case msg of
        Inl err \<Rightarrow> respondWithErr w reply (Some err)
      | Inr dsr \<Rightarrow> removeStationDirectIntern N F w c reply dsr None)"

section \<open>GetStation\<close>

definition GetStation :: "faults \<Rightarrow> world \<Rightarrow> string \<Rightarrow> world" where
  "GetStation F w bodyStationName =
    (case F CallFindOne of
       Some err \<Rightarrow> AbortWithStatusJSON w (Status 500) ''Server error''
     | None \<Rightarrow>
     (case FindOne [NameEq bodyStationName, notDeletedOrAbsent] (stations w) of
       None \<Rightarrow>
         AbortWithStatusJSON w SHOWABLE_ERROR_STATUS_CODE
           (''Station '' @ bodyStationName @ '' does not exist'')
     | Some d \<Rightarrow>
     (let station = decodeStation d in
      case GetTagsByStation F w (ID station) of
        Inl err \<Rightarrow> AbortWithStatusJSON w (Status 500) ''Server error''
      | Inr stationTags \<Rightarrow>
      (let station = (if StorageType station = ''file''
                      then station\<lparr>StorageType := ''disk''\<rparr> else station)
       in IndentedJSON w (Status 200) (StationBody station stationTags)))))"

section \<open>AttachSchema\<close>

text \<open>
  A handler that runs on a task of its own either returns or panics; a panic is not
  recovered.
\<close>

datatype 'a outcome = Returned 'a | Panicked 'a

text \<open>
  \<open>useSchemaDirect\<close>: the message is the result of \<open>json.Unmarshal\<close>, the request as far
  as it was decoded and the error, if any.
\<close>

definition useSchemaDirect ::
  "naming \<Rightarrow> faults \<Rightarrow> world \<Rightarrow> client \<Rightarrow> string \<Rightarrow> attachSchemaRequest \<times> error option
     \<Rightarrow> world outcome" where
  "useSchemaDirect N F w c reply msg =
    (let (asr, unmarshalErr) = msg in
     case unmarshalErr of
       Some err \<Rightarrow>
         (let errMsg = ''failed attaching schema '' @ asrName asr @ '': '' @ err
          in Returned (respondWithErr w reply (Some errMsg)))
     | None \<Rightarrow>
     (case StationNameFromStr N (asrStationName asr) of
       Inl err \<Rightarrow> Returned (respondWithErr w reply (Some err))
     | Inr stationName \<Rightarrow>
     (case IsStationExist F w stationName of
       (exist, station, Some err) \<Rightarrow> Returned (respondWithErr w reply (Some err))
     | (exist, station, None) \<Rightarrow>
     if \<not> exist then
       (let errMsg = ''Station '' @ external stationName @ '' does not exist''
        in Returned (respondWithErr w reply (Some (''memphis: '' @ errMsg))))
     else
     (let schemaName = ToLower N (asrName asr) in
      case IsSchemaExist F w schemaName of
        (exist, schema, Some err) \<Rightarrow> Returned (respondWithErr w reply (Some err))
      | (exist, schema, None) \<Rightarrow>
      if \<not> exist then
        \<comment> \<open>the message is built with \<open>err.Error()\<close>, and \<open>err\<close> is nil here\<close>
        Panicked w
      else
      (case getActiveVersionBySchemaId F w (schemaId schema) of
        Inl err \<Rightarrow> Returned (respondWithErr w reply (Some err))
      | Inr schemaVersion \<Rightarrow>
      (let schemaDetails =
             \<lparr>SchemaName = schemaName, VersionNumber = versionNumber schemaVersion\<rparr>
       in
       case F CallUpdateOne of
         Some err \<Rightarrow> Returned (respondWithErr w reply (Some err))
       | None \<Rightarrow>
       (let w = w\<lparr>stations :=
                    UpdateOne [NameEq (Ext stationName), DelIs False]
                      (\<lambda>d. d\<lparr>Schema := schemaDetails\<rparr>) (stations w)\<rparr>;
            username = clientInfoName c;
            message = ''Schema '' @ schemaName @ '' has been attached to station ''
                        @ Ext stationName @ '' by user '' @ username;
            (logId, w) = NewObjectID w;
            newAuditLog =
              \<lparr>logID = logId, logStationName = Intern stationName, logMessage = message,
               logCreatedByUser = username, logUserType = ''sdk''\<rparr>;
            (err, w) = CreateAuditLogs F w [newAuditLog]
        in
        case generateSchemaUpdateInit F w schema of
          Inl err \<Rightarrow> Returned w  \<comment> \<open>\<open>return\<close> without a reply\<close>
        | Inr updateContent \<Rightarrow>
        (let update = \<lparr>UpdateType = SchemaUpdateTypeInit, Init = updateContent\<rparr>;
             w = updateStationProducersOfSchemaChange w stationName update
         in Returned (respondWithErr w reply None)))))))))"

text \<open>The loop of \<open>UseSchema\<close> over the station names; \<open>Inl\<close> is a \<open>return\<close> from the handler.\<close>

fun UseSchema_stations ::
  "naming \<Rightarrow> faults \<Rightarrow> SchemaRec \<Rightarrow> string \<Rightarrow> SchemaDetails \<Rightarrow> user \<Rightarrow> world \<Rightarrow> string list
     \<Rightarrow> world + world" where
  "UseSchema_stations N F schema schemaName schemaDetails user w [] = Inr w"
| "UseSchema_stations N F schema schemaName schemaDetails user w (name # names) =
    (case StationNameFromStr N name of
       Inl err \<Rightarrow> Inl (AbortWithStatusJSON w SHOWABLE_ERROR_STATUS_CODE err)
     | Inr stationName \<Rightarrow>
     (case IsStationExist F w stationName of
       (exist, station, Some err) \<Rightarrow> Inl (AbortWithStatusJSON w (Status 500) ''Server error'')
     | (exist, station, None) \<Rightarrow>
     if \<not> exist then
       Inl (AbortWithStatusJSON w SHOWABLE_ERROR_STATUS_CODE
              (''Station '' @ Name station @ '' does not exist''))
     else
     (case F CallUpdateOne of
       Some err \<Rightarrow> Inl (AbortWithStatusJSON w (Status 500) err)
     | None \<Rightarrow>
     (let w = w\<lparr>stations :=
                  UpdateOne [NameEq (Ext stationName), DelIs False]
                    (\<lambda>d. d\<lparr>Schema := schemaDetails\<rparr>) (stations w)\<rparr>;
          message = ''Schema '' @ schemaName @ '' has been attached to station ''
                      @ Ext stationName @ '' by user '' @ Username user;
          (logId, w) = NewObjectID w;
          newAuditLog =
            \<lparr>logID = logId, logStationName = Intern stationName, logMessage = message,
             logCreatedByUser = Username user, logUserType = UserType user\<rparr>;
          (err, w) = CreateAuditLogs F w [newAuditLog]
      in
      case generateSchemaUpdateInit F w schema of
        Inl err \<Rightarrow> Inl w
      | Inr updateContent \<Rightarrow>
      (let update = \<lparr>UpdateType = SchemaUpdateTypeInit, Init = updateContent\<rparr>;
           w = updateStationProducersOfSchemaChange w stationName update
       in UseSchema_stations N F schema schemaName schemaDetails user w names)))))"

definition UseSchema :: "naming \<Rightarrow> faults \<Rightarrow> world \<Rightarrow> user \<Rightarrow> string \<Rightarrow> string list \<Rightarrow> world" where
  "UseSchema N F w ctxUser bodySchemaName bodyStationNames =
    (let schemaName = ToLower N bodySchemaName in
     case IsSchemaExist F w schemaName of
       (exist, schema, Some err) \<Rightarrow> AbortWithStatusJSON w (Status 500) ''Server Error''
     | (exist, schema, None) \<Rightarrow>
     if \<not> exist then
       AbortWithStatusJSON w SHOWABLE_ERROR_STATUS_CODE (''Schema '' @ schemaName @ '' does not exist'')
     else
     (case getActiveVersionBySchemaId F w (schemaId schema) of
       Inl err \<Rightarrow> AbortWithStatusJSON w (Status 500) err
     | Inr schemaVersion \<Rightarrow>
     (let schemaDetails =
            \<lparr>SchemaName = schemaName, VersionNumber = versionNumber schemaVersion\<rparr>;
          (user, err) = getUserDetailsFromMiddleware F ctxUser;
          \<comment> \<open>no \<open>return\<close> after this abort\<close>
          w = (case err of
                 Some e \<Rightarrow> AbortWithStatusJSON w (Status 401) ''Unauthorized''
               | None \<Rightarrow> w)
      in
      case UseSchema_stations N F schema schemaName schemaDetails user w bodyStationNames of
        Inl w \<Rightarrow> w
      | Inr w \<Rightarrow> IndentedJSON w (Status 200) (SchemaBody schemaDetails False))))"

section \<open>The stream engine adapter for dead-letter streams\<close>

text \<open>
  Modelled from the spec: the engine calls of the fetch-by-filter protocol (spec, 4.5)
  are not among the source files.  "If the stream is missing, the operation fails
  StreamMissing"; the amount that the handlers request is \<open>streamInfo.State.Msgs\<close>, the
  number of messages of the stream.  Every call that changes the engine is entered in
  \<open>engineLog\<close> when it is made.
\<close>

datatype StreamInfoErr = JSStreamNotFoundErr | OtherStreamErr error

definition memphisStreamInfo :: "faults \<Rightarrow> world \<Rightarrow> string \<Rightarrow> StreamInfoErr + nat" where
  "memphisStreamInfo F w streamName =
     (case F CallStreamInfo of
        Some err \<Rightarrow> Inl (OtherStreamErr err)
      | None \<Rightarrow>
          (case map_of (streams w) streamName of
             None \<Rightarrow> Inl JSStreamNotFoundErr
           | Some msgs \<Rightarrow> Inr (length msgs)))"

definition memphisAddConsumer ::
  "faults \<Rightarrow> world \<Rightarrow> string \<Rightarrow> ConsumerConfig \<Rightarrow> error option \<times> world" where
  "memphisAddConsumer F w streamName cc =
     (let w = w\<lparr>engineLog := engineLog w @ [AddConsumer streamName cc]\<rparr> in
      case F CallAddConsumer of
        Some err \<Rightarrow> (Some err, w)
      | None \<Rightarrow> (None, w\<lparr>durables := durables w @ [(streamName, cc)]\<rparr>))"

definition memphisRemoveConsumer ::
  "faults \<Rightarrow> world \<Rightarrow> string \<Rightarrow> string \<Rightarrow> error option \<times> world" where
  "memphisRemoveConsumer F w streamName durableName =
     (let w = w\<lparr>engineLog := engineLog w @ [RemoveConsumer streamName durableName]\<rparr> in
      case F CallRemoveConsumer of
        Some err \<Rightarrow> (Some err, w)
      | None \<Rightarrow>
          (None, w\<lparr>durables :=
                     filter (\<lambda>d. \<not> (fst d = streamName \<and> Durable (snd d) = durableName))
                       (durables w)\<rparr>))"

definition memphisDeleteMsgFromStream ::
  "faults \<Rightarrow> world \<Rightarrow> string \<Rightarrow> nat \<Rightarrow> error option \<times> world" where
  "memphisDeleteMsgFromStream F w streamName seq =
     (let w = w\<lparr>engineLog := engineLog w @ [DeleteMsg streamName seq]\<rparr> in
      case F CallDeleteMsg of
        Some err \<Rightarrow> (Some err, w)
      | None \<Rightarrow>
          (None, w\<lparr>streams :=
                     map (\<lambda>s. if fst s = streamName
                               then (fst s, filter (\<lambda>m. Sequence m \<noteq> seq) (snd s)) else s)
                       (streams w)\<rparr>))"

definition subscribeOnGlobalAcc :: "faults \<Rightarrow> world \<Rightarrow> string \<Rightarrow> error option \<times> world" where
  "subscribeOnGlobalAcc F w subject =
     (case F CallSubscribe of
        Some err \<Rightarrow> (Some err, w)
      | None \<Rightarrow> (None, w\<lparr>subscriptions := subscriptions w @ [subject]\<rparr>))"

definition unsubscribeOnGlobalAcc :: "world \<Rightarrow> string \<Rightarrow> world" where
  "unsubscribeOnGlobalAcc w subject =
     w\<lparr>subscriptions := filter (\<lambda>s. s \<noteq> subject) (subscriptions w)\<rparr>"

definition sendInternalAccountMsgWithReply :: "world \<Rightarrow> string \<Rightarrow> string \<Rightarrow> string \<Rightarrow> world" where
  "sendInternalAccountMsgWithReply w subject reply req =
     w\<lparr>sent := sent w @ [(subject, RequestNext reply req)]\<rparr>"

definition ResendPoisonMessage ::
  "faults \<Rightarrow> world \<Rightarrow> string \<Rightarrow> string \<Rightarrow> (string \<times> string) list \<Rightarrow> error option \<times> world" where
  "ResendPoisonMessage F w subject data headers =
     (case F CallResend of
        Some err \<Rightarrow> (Some err, w)
      | None \<Rightarrow> (None, w\<lparr>sent := sent w @ [(subject, Republished data headers)]\<rparr>))"

text \<open>\<open>strconv.FormatUint(n, 10)\<close>\<close>

fun FormatUint :: "nat \<Rightarrow> string" where
  "FormatUint n =
     (if n < 10 then [char_of (48 + n)] else FormatUint (n div 10) @ [char_of (48 + n mod 10)])"

declare FormatUint.simps [simp del]

text \<open>
  Modelled from the spec: the nuid is "a process-wide monotonic id source"; the state
  counts the ids drawn, and the id drawn is the numeral of the count.
\<close>

definition nuidNext :: "world \<Rightarrow> string \<times> world" where
  "nuidNext w = (FormatUint (nuid w), w\<lparr>nuid := Suc (nuid w)\<rparr>)"

section \<open>Fetch by filter (AckPoisonMessages, ResendPoisonMessages)\<close>

text \<open>
  The collection loop selects between the timer and the response channel.  What the
  \<open>select\<close> yields, in order, is an input of the model: \<open>TimerC\<close> when the one-second
  timer has fired, \<open>ResponseChan msg\<close> when the subscription has delivered a message.
  The timer fires in the end, so a list that is used up stands for \<open>TimerC\<close>.  The first
  argument of \<open>collectLoop\<close> is the number of iterations that are left, \<open>amount - i\<close>.
\<close>

datatype event = TimerC | ResponseChan StoredMsg

fun collectLoop :: "nat \<Rightarrow> event list \<Rightarrow> StoredMsg list \<Rightarrow> StoredMsg list" where
  "collectLoop 0 evs msgs = msgs"
| "collectLoop (Suc n) [] msgs = msgs"
| "collectLoop (Suc n) (TimerC # evs) msgs = msgs"
| "collectLoop (Suc n) (ResponseChan msg # evs) msgs = collectLoop n evs (msgs @ [msg])"

text \<open>
  One fetch: the body of the loop over the ids up to and including the \<open>cleanup\<close> label.
  The two handlers have the same code here but for the prefix of what they log.  \<open>Inl\<close>
  is a \<open>return\<close> from the handler after \<open>AbortWithStatusJSON\<close>.
\<close>

definition fetchDlsMessages ::
  "naming \<Rightarrow> faults \<Rightarrow> world \<Rightarrow> StationName \<Rightarrow> string \<Rightarrow> string \<Rightarrow> event list
     \<Rightarrow> world + StoredMsg list \<times> world" where
  "fetchDlsMessages N F w sn streamName msgId events =
    (let (uid, w) = nuidNext w;
         durableName = ''$memphis_fetch_dls_consumer_'' @ uid
     in
     case memphisStreamInfo F w streamName of
       Inl err \<Rightarrow> Inl (AbortWithStatusJSON w (Status 500) ''Server error'')
     | Inr stateMsgs \<Rightarrow>
     (let filter = GetDlsSubject N ''poison'' (Intern sn) msgId;
          amount = stateMsgs;
          cc = \<lparr>DeliverPol = DeliverAll, AckPol = AckExplicit, Durable = durableName,
                FilterSubject = filter\<rparr>
      in
      case memphisAddConsumer F w streamName cc of
        (Some err, w) \<Rightarrow> Inl (AbortWithStatusJSON w (Status 500) ''Server error'')
      | (None, w) \<Rightarrow>
      (let subject = JSApiRequestNextT N streamName durableName;
           reply = durableName @ ''_reply'';
           req = FormatUint amount
       in
       case subscribeOnGlobalAcc F w reply of
         (Some err, w) \<Rightarrow> Inl (AbortWithStatusJSON w (Status 500) ''Server error'')
       | (None, w) \<Rightarrow>
       (let w = sendInternalAccountMsgWithReply w subject reply req;
            msgs = collectLoop amount events [];
            \<comment> \<open>cleanup\<close>
            w = unsubscribeOnGlobalAcc w reply
        in
        case memphisRemoveConsumer F w streamName durableName of
          (Some err, w) \<Rightarrow> Inl (AbortWithStatusJSON w (Status 500) ''Server error'')
        | (None, w) \<Rightarrow> Inr (msgs, w)))))"

section \<open>AckPoisonMessages\<close>

fun deleteMsgs :: "faults \<Rightarrow> world \<Rightarrow> string \<Rightarrow> StoredMsg list \<Rightarrow> world + world" where
  "deleteMsgs F w streamName [] = Inr w"
| "deleteMsgs F w streamName (msg # msgs) =
     (case memphisDeleteMsgFromStream F w streamName (Sequence msg) of
        (Some err, w) \<Rightarrow> Inl (AbortWithStatusJSON w (Status 500) ''Server error'')
      | (None, w) \<Rightarrow> deleteMsgs F w streamName msgs)"

text \<open>
  The loop over the ids.  The \<open>i\<close>-th list of \<open>eventss\<close> is what the \<open>select\<close> of the
  \<open>i\<close>-th fetch yields.  Next to the state, the loop returns the messages that the
  fetches have gathered in \<open>msgs\<close>, so that properties can speak of them.
\<close>

fun AckPoisonMessages_ids ::
  "naming \<Rightarrow> faults \<Rightarrow> StationName \<Rightarrow> string \<Rightarrow> world \<Rightarrow> string list \<Rightarrow> event list list
     \<Rightarrow> (world + world) \<times> StoredMsg list" where
  "AckPoisonMessages_ids N F sn streamName w [] eventss = (Inr w, [])"
| "AckPoisonMessages_ids N F sn streamName w (msgId # ids) eventss =
    (case fetchDlsMessages N F w sn streamName msgId (case eventss of [] \<Rightarrow> [] | e # es \<Rightarrow> e) of
       Inl w \<Rightarrow> (Inl w, [])
     | Inr (msgs, w) \<Rightarrow>
     (case deleteMsgs F w streamName msgs of
       Inl w \<Rightarrow> (Inl w, msgs)
     | Inr w \<Rightarrow>
     (let (r, collected) = AckPoisonMessages_ids N F sn streamName w ids (tl eventss)
      in (r, msgs @ collected))))"

definition AckPoisonMessages ::
  "naming \<Rightarrow> faults \<Rightarrow> world \<Rightarrow> string list \<Rightarrow> event list list \<Rightarrow> world outcome \<times> StoredMsg list" where
  "AckPoisonMessages N F w bodyPoisonMessageIds eventss =
    (case bodyPoisonMessageIds of
       [] \<Rightarrow> (Panicked w, [])  \<comment> \<open>\<open>body.PoisonMessageIds[0]\<close>: index out of range\<close>
     | first # rest \<Rightarrow>
     (let stationName = takeWhile (\<lambda>c. c \<noteq> dlsMsgSep N) first in
      case StationNameFromStr N stationName of
        Inl err \<Rightarrow> (Returned (AbortWithStatusJSON w (Status 500) ''Server error''), [])
      | Inr sn \<Rightarrow>
      (let streamName = dlsStreamName N (Intern sn) in
       case AckPoisonMessages_ids N F sn streamName w bodyPoisonMessageIds eventss of
         (Inl w, collected) \<Rightarrow> (Returned w, collected)
       | (Inr w, collected) \<Rightarrow> (Returned (IndentedJSON w (Status 200) EmptyObject), collected))))"

section \<open>ResendPoisonMessages\<close>

record DlsMessage =
  dlsID :: string
  dlsStationName :: string
  dlsCgName :: string
  dlsHeaders :: "(string \<times> string) list"
  dlsData :: string

text \<open>
  \<open>json.Unmarshal\<close> into a \<open>models.DlsMessage\<close> and \<open>hex.DecodeString\<close> are library
  functions; they are parameters.  A \<open>map[string]string\<close> is an association list.
\<close>

record codecs =
  unmarshalDlsMessage :: "string \<Rightarrow> error + DlsMessage"
  hexDecodeString :: "string \<Rightarrow> error + string"

definition setHeader :: "string \<Rightarrow> string \<Rightarrow> (string \<times> string) list \<Rightarrow> (string \<times> string) list" where
  "setHeader k v hs =
     (if k \<in> fst ` set hs then map (\<lambda>h. if fst h = k then (k, v) else h) hs else hs @ [(k, v)])"

fun resendMsgs ::
  "codecs \<Rightarrow> naming \<Rightarrow> faults \<Rightarrow> world \<Rightarrow> StoredMsg list \<Rightarrow> world + world" where
  "resendMsgs C N F w [] = Inr w"
| "resendMsgs C N F w (msg # msgs) =
    (case unmarshalDlsMessage C (Data msg) of
       Inl err \<Rightarrow> Inl (AbortWithStatusJSON w (Status 500) ''Server error'')
     | Inr dlsMsg \<Rightarrow>
     (let stationName = replaceDelimiters N (dlsStationName dlsMsg);
          cgName = replaceDelimiters N (dlsCgName dlsMsg);
          headersJson = fold (\<lambda>h hs. setHeader (fst h) (snd h) hs) (dlsHeaders dlsMsg) [];
          headersJson = setHeader ''$memphis_pm_id'' (dlsID dlsMsg) headersJson;
          headersJson = setHeader ''$memphis_pm_sequence'' (FormatUint (Sequence msg)) headersJson
      in
      case hexDecodeString C (dlsData dlsMsg) of
        Inl err \<Rightarrow> Inl (AbortWithStatusJSON w (Status 500) ''Server error'')
      | Inr data \<Rightarrow>
      (case ResendPoisonMessage F w (''$memphis_dls_'' @ stationName @ ''_'' @ cgName) data headersJson of
        (Some err, w) \<Rightarrow> Inl (AbortWithStatusJSON w (Status 500) ''Server error'')
      | (None, w) \<Rightarrow> resendMsgs C N F w msgs)))"

fun ResendPoisonMessages_ids ::
  "codecs \<Rightarrow> naming \<Rightarrow> faults \<Rightarrow> StationName \<Rightarrow> string \<Rightarrow> world \<Rightarrow> string list \<Rightarrow> event list list
     \<Rightarrow> world + world" where
  "ResendPoisonMessages_ids C N F sn streamName w [] eventss = Inr w"
| "ResendPoisonMessages_ids C N F sn streamName w (msgId # ids) eventss =
    (case fetchDlsMessages N F w sn streamName msgId (case eventss of [] \<Rightarrow> [] | e # es \<Rightarrow> e) of
       Inl w \<Rightarrow> Inl w
     | Inr (msgs, w) \<Rightarrow>
     (case resendMsgs C N F w msgs of
       Inl w \<Rightarrow> Inl w
     | Inr w \<Rightarrow> ResendPoisonMessages_ids C N F sn streamName w ids (tl eventss)))"

definition ResendPoisonMessages ::
  "codecs \<Rightarrow> naming \<Rightarrow> faults \<Rightarrow> world \<Rightarrow> string list \<Rightarrow> event list list \<Rightarrow> world outcome" where
  "ResendPoisonMessages C N F w bodyPoisonMessageIds eventss =
    (case bodyPoisonMessageIds of
       [] \<Rightarrow> Panicked w
     | first # rest \<Rightarrow>
     (let stationName = takeWhile (\<lambda>c. c \<noteq> dlsMsgSep N) first in
      case StationNameFromStr N stationName of
        Inl err \<Rightarrow> Returned (AbortWithStatusJSON w (Status 500) ''Server error'')
      | Inr sn \<Rightarrow>
      (let streamName = dlsStreamName N (Intern sn) in
       case ResendPoisonMessages_ids C N F sn streamName w bodyPoisonMessageIds eventss of
         Inl w \<Rightarrow> Returned w
       | Inr w \<Rightarrow> Returned (IndentedJSON w (Status 200) EmptyObject))))"

section \<open>LaunchDlsForOldStations\<close>

definition absentStation :: Station where
  "absentStation = zeroStation\<lparr>IsDeleted := None\<rparr>"

fun LaunchDls_stations :: "naming \<Rightarrow> faults \<Rightarrow> world \<Rightarrow> Station list \<Rightarrow> error option \<times> world" where
  "LaunchDls_stations N F w [] = (None, w)"
| "LaunchDls_stations N F w (station # rest) =
    (case StationNameFromStr N (Name station) of
       Inl err \<Rightarrow> (Some err, w)
     | Inr sn \<Rightarrow>
     (let streamName = dlsStreamName N (Intern sn) in
      case memphisStreamInfo F w streamName of
        Inr info \<Rightarrow> LaunchDls_stations N F w rest
      | Inl (OtherStreamErr err) \<Rightarrow> (Some err, w)
      | Inl JSStreamNotFoundErr \<Rightarrow>
      (let dlsConfigurationNew = \<lparr>Poison = True, Schemaverse = True\<rparr>;
           filter = [NameEq (Name station), notDeletedOrAbsent]
       in
       case F CallUpdateOne of
         Some err \<Rightarrow> (Some err, w)
       | None \<Rightarrow>
       (let w = w\<lparr>stations :=
                    UpdateOneUpsert filter (\<lambda>d. d\<lparr>DlsConfig := dlsConfigurationNew\<rparr>)
                      (fromFilter filter (absentStation\<lparr>DlsConfig := dlsConfigurationNew\<rparr>))
                      (stations w)\<rparr>
        in
        case CreateDlsStream N F w sn station of
          (Some err, w) \<Rightarrow> (Some err, w)
        | (None, w) \<Rightarrow> LaunchDls_stations N F w rest))))"

definition LaunchDlsForOldStations :: "naming \<Rightarrow> faults \<Rightarrow> world \<Rightarrow> error option \<times> world" where
  "LaunchDlsForOldStations N F w =
    (case F CallFind of
       Some err \<Rightarrow> (Some err, w)
     | None \<Rightarrow>
     (let found = map decodeStation (Find [notDeletedOrAbsent] (stations w))
      in LaunchDls_stations N F w found))"

section \<open>Specification functions and example states\<close>

text \<open>
  The normalization of the idempotency window in the words of the spec: a value of at
  most 0 becomes 120000, a value strictly between 0 and 100 becomes 100, any other value
  is kept.
\<close>

definition specWindow :: "int \<Rightarrow> int" where
  "specWindow v = (if v \<le> 0 then 120000 else if 0 < v \<and> v < 100 then 100 else v)"

definition exCreate :: createStationRequest where
  "exCreate =
     \<lparr>csrStationName = ''Orders'', csrSchemaName = [], csrRetentionType = [],
      csrRetentionValue = 0, csrStorageType = [], csrReplicas = 0, csrDedupEnabled = False,
      csrDedupWindowMillis = 0, csrIdempotencyWindow = 50,
      csrDlsConfiguration = \<lparr>Poison = True, Schemaverse = True\<rparr>\<rparr>"

definition exBody :: CreateStationSchema where
  "exBody =
     \<lparr>csrStationName = ''Orders'', csrSchemaName = [], csrRetentionType = [],
      csrRetentionValue = 0, csrStorageType = [], csrReplicas = 0, csrDedupEnabled = False,
      csrDedupWindowMillis = 0, csrIdempotencyWindow = 50,
      csrDlsConfiguration = \<lparr>Poison = True, Schemaverse = True\<rparr>, bodyTags = []\<rparr>"

definition exClient :: client where
  "exClient = \<lparr>memphisInfoUsername = ''root'', clientInfoName = ''sdk''\<rparr>"

definition exUser :: user where
  "exUser = \<lparr>Username = ''root'', UserType = ''root''\<rparr>"

text \<open>
  A state with the live station \<open>orders\<close>, its two streams, and the schema \<open>orderv1\<close>
  whose active version is 3.
\<close>

definition exOrders :: Station where
  "exOrders =
     \<lparr>ID = 0, Name = ''orders'', RetentionType = ''message_age_sec'', RetentionValue = 604800,
      StorageType = ''file'', Replicas = 1, DedupEnabled = False, DedupWindowInMs = 0,
      CreatedByUser = ''root'', Schema = emptySchemaDetails, IdempotencyWindow = 120000,
      DlsConfig = \<lparr>Poison = True, Schemaverse = True\<rparr>, IsNative = True,
      IsDeleted = Some False\<rparr>"

definition exWorld :: world where
  "exWorld =
     emptyWorld
       \<lparr>stations := [exOrders],
        schemas := [\<lparr>schemaId = 7, schemaRecName = ''orderv1''\<rparr>],
        schemaVersions :=
          [\<lparr>versionSchemaId = 7, versionNumber = 3, versionActive = True,
            versionContent = ''{}''\<rparr>],
        streams := [(''orders'', []), (''$memphis-orders-dls'', [])],
        objectIDs := 8\<rparr>"

text \<open>
  What a run has done to the engine, read off the log of engine calls: the messages
  deleted (stream and sequence), and the consumers created (stream and filter subject).
  \<open>withoutSeqs streamName seqs\<close> removes the messages with the given sequences from one
  stream.
\<close>

fun deletions :: "EngineCall list \<Rightarrow> (string \<times> nat) list" where
  "deletions [] = []"
| "deletions (DeleteMsg s q # cs) = (s, q) # deletions cs"
| "deletions (c # cs) = deletions cs"

fun consumersAdded :: "EngineCall list \<Rightarrow> (string \<times> string) list" where
  "consumersAdded [] = []"
| "consumersAdded (AddConsumer s cc # cs) = (s, FilterSubject cc) # consumersAdded cs"
| "consumersAdded (c # cs) = consumersAdded cs"

definition withoutSeqs :: "string \<Rightarrow> nat set \<Rightarrow> (string \<times> StoredMsg list) list \<Rightarrow> (string \<times> StoredMsg list) list" where
  "withoutSeqs streamName seqs ss =
     map (\<lambda>s. if fst s = streamName then (fst s, filter (\<lambda>m. Sequence m \<notin> seqs) (snd s)) else s) ss"

fun outcomeState :: "'a outcome \<Rightarrow> 'a" where
  "outcomeState (Returned w) = w"
| "outcomeState (Panicked w) = w"

text \<open>
  The state \<open>exWorld\<close> with two dead-letter messages of the station \<open>orders\<close>, and with
  the station record as an older release wrote it, without the field \<open>is_deleted\<close>.
\<close>

definition exMsg1 :: StoredMsg where
  "exMsg1 = \<lparr>Subject = ''$memphis-orders-dls.poison.orders~poison~1'', Sequence = 1,
             Data = ''a'', Time = 0\<rparr>"

definition exMsg2 :: StoredMsg where
  "exMsg2 = \<lparr>Subject = ''$memphis-orders-dls.poison.orders~poison~1'', Sequence = 2,
             Data = ''b'', Time = 0\<rparr>"

definition exDlsWorld :: world where
  "exDlsWorld = exWorld\<lparr>streams := [(''orders'', []), (''$memphis-orders-dls'', [exMsg1, exMsg2])]\<rparr>"

text \<open>
  \<open>hex.DecodeString\<close> of the Go library, and a stand-in for \<open>json.Unmarshal\<close> that reads
  the payloads of the two messages above; they are the codecs of the example runs.
\<close>

definition fromHexChar :: "char \<Rightarrow> nat option" where
  "fromHexChar c =
     (let n = (of_char c :: nat) in
      if 48 \<le> n \<and> n \<le> 57 then Some (n - 48)
      else if 97 \<le> n \<and> n \<le> 102 then Some (n - 97 + 10)
      else if 65 \<le> n \<and> n \<le> 70 then Some (n - 65 + 10)
      else None)"

fun hexDecode :: "string \<Rightarrow> error + string" where
  "hexDecode [] = Inr []"
| "hexDecode [c] = Inl ''encoding/hex: odd length hex string''"
| "hexDecode (a # b # rest) =
     (case (fromHexChar a, fromHexChar b) of
        (Some x, Some y) \<Rightarrow>
          (case hexDecode rest of Inl err \<Rightarrow> Inl err | Inr bytes \<Rightarrow> Inr (char_of (16 * x + y) # bytes))
      | _ \<Rightarrow> Inl ''encoding/hex: invalid byte'')"

definition exUnmarshal :: "string \<Rightarrow> error + DlsMessage" where
  "exUnmarshal x =
     (if x = ''a'' then
        Inr \<lparr>dlsID = ''orders~poison~1'', dlsStationName = ''orders'', dlsCgName = ''billing.eu'',
             dlsHeaders = [(''trace'', ''7'')], dlsData = ''6f6b''\<rparr>
      else if x = ''b'' then
        Inr \<lparr>dlsID = ''orders~poison~1'', dlsStationName = ''orders'', dlsCgName = ''audit'',
             dlsHeaders = [], dlsData = ''6f6b''\<rparr>
      else Inl ''unexpected end of JSON input'')"

definition exCodecs :: codecs where
  "exCodecs = \<lparr>unmarshalDlsMessage = exUnmarshal, hexDecodeString = hexDecode\<rparr>"

definition exLegacyWorld :: world where
  "exLegacyWorld = exWorld\<lparr>stations := [exOrders\<lparr>IsDeleted := None\<rparr>]\<rparr>"

text \<open>
  Modelled from the spec: how the DLS stream stores its messages is code of the engine
  that is not among the source files.  The id of a dead-letter message has the format
  \<open><internalStation><sep><kind><sep><seq>\<close> (spec, 4.5); a consumer with a filter subject
  is given the messages stored under that subject (\<open>dlsMatching\<close>).
  \<open>storedUnderOwnSubject\<close> says that every message of the DLS stream of a station is
  stored under the subject of its own kind and id, an id of that station;
  \<open>subjectsDistinct\<close> says that different kinds or ids give different subjects.
\<close>

definition dlsId :: "naming \<Rightarrow> string \<Rightarrow> string \<Rightarrow> string \<Rightarrow> string" where
  "dlsId N station kind seq = station @ [dlsMsgSep N] @ kind @ [dlsMsgSep N] @ seq"

definition dlsMatching :: "string \<Rightarrow> StoredMsg list \<Rightarrow> StoredMsg list" where
  "dlsMatching filterSubject msgs = filter (\<lambda>m. Subject m = filterSubject) msgs"

definition storedUnderOwnSubject :: "naming \<Rightarrow> string \<Rightarrow> string set \<Rightarrow> StoredMsg list \<Rightarrow> bool" where
  "storedUnderOwnSubject N station kinds msgs \<longleftrightarrow>
     (\<forall>m \<in> set msgs. \<exists>kind \<in> kinds. \<exists>seq.
        Subject m = GetDlsSubject N kind station (dlsId N station kind seq))"

definition subjectsDistinct :: "naming \<Rightarrow> string \<Rightarrow> string set \<Rightarrow> bool" where
  "subjectsDistinct N station kinds \<longleftrightarrow>
     (\<forall>k \<in> kinds. \<forall>k' \<in> kinds. \<forall>i i'.
        GetDlsSubject N k station i = GetDlsSubject N k' station i' \<longrightarrow> k = k' \<and> i = i')"

text \<open>
  What the claims about the fetches speak of.  \<open>arrivals evs\<close> are the messages that the
  subscription delivers in \<open>evs\<close>; \<open>decodes C msg\<close> says that the payload of \<open>msg\<close> is a
  dead-letter message whose data is a hex string; \<open>poisonConsumers N sn ids\<close> are, for the
  ids of a list, the DLS stream of the station \<open>sn\<close> with the poison-kind subject of \<open>sn\<close>
  and of the id; \<open>fetchCallsSucceed\<close> says that the engine calls of a fetch do not fail.
\<close>

fun arrivals :: "event list \<Rightarrow> StoredMsg list" where
  "arrivals [] = []"
| "arrivals (TimerC # evs) = arrivals evs"
| "arrivals (ResponseChan msg # evs) = msg # arrivals evs"

definition decodes :: "codecs \<Rightarrow> StoredMsg \<Rightarrow> bool" where
  "decodes C msg =
     (case unmarshalDlsMessage C (Data msg) of
        Inl err \<Rightarrow> False
      | Inr dlsMsg \<Rightarrow>
          (case hexDecodeString C (dlsData dlsMsg) of Inl err \<Rightarrow> False | Inr data \<Rightarrow> True))"

definition poisonConsumers :: "naming \<Rightarrow> StationName \<Rightarrow> string list \<Rightarrow> (string \<times> string) list" where
  "poisonConsumers N sn ids =
     map (\<lambda>msgId. (dlsStreamName N (Intern sn), GetDlsSubject N ''poison'' (Intern sn) msgId)) ids"

definition fetchCallsSucceed :: "faults \<Rightarrow> bool" where
  "fetchCallsSucceed F \<longleftrightarrow>
     F CallStreamInfo = None \<and> F CallAddConsumer = None \<and> F CallSubscribe = None
     \<and> F CallRemoveConsumer = None"

section \<open>Properties of the name canonicalizer\<close>

subsection \<open>The UTF-8 decoder, case by case of the lead byte\<close>

lemma mod_offset:
  fixes x :: nat
  assumes "k * m \<le> x" and "x < k * m + m"
  shows "x mod m = x - k * m"
proof -
  define y where "y = x - k * m"
  from assms have x: "x = y + m * k" and y: "y < m"
    by (simp_all add: y_def mult.commute)
  have "(y + m * k) mod m = y mod m"
    by (rule mod_mult_self2)
  with y show ?thesis
    by (simp add: x mult.commute)
qed

lemma cont_mod: "128 \<le> x \<Longrightarrow> x \<le> 191 \<Longrightarrow> x mod 64 = x - (128::nat)"
  using mod_offset [of 2 64 x] by simp

lemma lead2_mod: "194 \<le> x \<Longrightarrow> x < 224 \<Longrightarrow> x mod 32 = x - (192::nat)"
  using mod_offset [of 6 32 x] by simp

lemma lead3_mod: "224 \<le> x \<Longrightarrow> x < 240 \<Longrightarrow> x mod 16 = x - (224::nat)"
  using mod_offset [of 14 16 x] by simp

lemma lead4_mod: "240 \<le> x \<Longrightarrow> x \<le> 244 \<Longrightarrow> x mod 8 = x - (240::nat)"
  using mod_offset [of 30 8 x] by simp

lemma decode_ascii:
  assumes "s \<noteq> []" and "(of_char (s ! 0) :: nat) < 128"
  shows "DecodeRuneInString s = (of_char (s ! 0), 1)"
  using assms by (simp add: DecodeRuneInString_def Let_def)

lemma decode_bad:
  assumes "s \<noteq> []" and "128 \<le> (of_char (s ! 0) :: nat)"
    and "(of_char (s ! 0) :: nat) < 194 \<or> 244 < (of_char (s ! 0) :: nat)"
  shows "DecodeRuneInString s = (RuneError, 1)"
  using assms by (auto simp: DecodeRuneInString_def Let_def)

lemma decode_2:
  assumes "s \<noteq> []" and "194 \<le> (of_char (s ! 0) :: nat)" and "(of_char (s ! 0) :: nat) < 224"
  shows "DecodeRuneInString s =
    (if 2 \<le> length s \<and> 128 \<le> (of_char (s ! 1) :: nat) \<and> (of_char (s ! 1) :: nat) \<le> 191
     then ((of_char (s ! 0) - 192) * 64 + (of_char (s ! 1) - 128), 2)
     else (RuneError, 1))"
proof -
  define n where "n = length s"
  define a where "a = (of_char (s ! 0) :: nat)"
  define b where "b = (of_char (s ! 1) :: nat)"
  from assms have h: "0 < n" "194 \<le> a" "a < 224"
    by (simp_all add: n_def a_def)
  show ?thesis
    unfolding DecodeRuneInString_def Let_def
      n_def [symmetric] a_def [symmetric] b_def [symmetric]
    using h by (simp add: cont_mod lead2_mod not_less)
qed

lemma decode_3:
  assumes "s \<noteq> []" and "224 \<le> (of_char (s ! 0) :: nat)" and "(of_char (s ! 0) :: nat) < 240"
  shows "DecodeRuneInString s =
    (if 3 \<le> length s
        \<and> (if (of_char (s ! 0) :: nat) = 224 then 160 else 128) \<le> (of_char (s ! 1) :: nat)
        \<and> (of_char (s ! 1) :: nat) \<le> (if (of_char (s ! 0) :: nat) = 237 then 159 else 191)
        \<and> 128 \<le> (of_char (s ! 2) :: nat) \<and> (of_char (s ! 2) :: nat) \<le> 191
     then ((of_char (s ! 0) - 224) * 4096 + (of_char (s ! 1) - 128) * 64 + (of_char (s ! 2) - 128), 3)
     else (RuneError, 1))"
proof -
  define n where "n = length s"
  define a where "a = (of_char (s ! 0) :: nat)"
  define b where "b = (of_char (s ! 1) :: nat)"
  define c where "c = (of_char (s ! 2) :: nat)"
  from assms have h: "0 < n" "224 \<le> a" "a < 240"
    by (simp_all add: n_def a_def)
  have m: "128 \<le> b \<Longrightarrow> b \<le> 191 \<Longrightarrow> b mod 64 = b - 128"
    "128 \<le> c \<Longrightarrow> c \<le> 191 \<Longrightarrow> c mod 64 = c - 128"
    "a mod 16 = a - 224"
    using h by (simp_all add: cont_mod lead3_mod)
  show ?thesis
    unfolding DecodeRuneInString_def Let_def
      n_def [symmetric] a_def [symmetric] b_def [symmetric] c_def [symmetric]
    using h m by (auto simp: not_less)
qed

lemma decode_4:
  assumes "s \<noteq> []" and "240 \<le> (of_char (s ! 0) :: nat)" and "(of_char (s ! 0) :: nat) \<le> 244"
  shows "DecodeRuneInString s =
    (if 4 \<le> length s
        \<and> (if (of_char (s ! 0) :: nat) = 240 then 144 else 128) \<le> (of_char (s ! 1) :: nat)
        \<and> (of_char (s ! 1) :: nat) \<le> (if (of_char (s ! 0) :: nat) = 244 then 143 else 191)
        \<and> 128 \<le> (of_char (s ! 2) :: nat) \<and> (of_char (s ! 2) :: nat) \<le> 191
        \<and> 128 \<le> (of_char (s ! 3) :: nat) \<and> (of_char (s ! 3) :: nat) \<le> 191
     then ((of_char (s ! 0) - 240) * 262144 + (of_char (s ! 1) - 128) * 4096
             + (of_char (s ! 2) - 128) * 64 + (of_char (s ! 3) - 128), 4)
     else (RuneError, 1))"
proof -
  define n where "n = length s"
  define a where "a = (of_char (s ! 0) :: nat)"
  define b where "b = (of_char (s ! 1) :: nat)"
  define c where "c = (of_char (s ! 2) :: nat)"
  define d where "d = (of_char (s ! 3) :: nat)"
  from assms have h: "0 < n" "240 \<le> a" "a \<le> 244"
    by (simp_all add: n_def a_def)
  have m: "128 \<le> b \<Longrightarrow> b \<le> 191 \<Longrightarrow> b mod 64 = b - 128"
    "128 \<le> c \<Longrightarrow> c \<le> 191 \<Longrightarrow> c mod 64 = c - 128"
    "128 \<le> d \<Longrightarrow> d \<le> 191 \<Longrightarrow> d mod 64 = d - 128"
    "a mod 8 = a - 240"
    using h by (simp_all add: cont_mod lead4_mod)
  show ?thesis
    unfolding DecodeRuneInString_def Let_def
      n_def [symmetric] a_def [symmetric] b_def [symmetric] c_def [symmetric] d_def [symmetric]
    using h m by (auto simp: not_less)
qed

subsection \<open>Decoded runes are valid, and decoding inverts encoding\<close>

lemma decode_valid: "ValidRune (fst (DecodeRuneInString s))"
proof (cases "s = []")
  case True
  then show ?thesis
    by (simp add: DecodeRuneInString_def ValidRune_def RuneError_def)
next
  case False
  define a where "a = (of_char (s ! 0) :: nat)"
  define b where "b = (of_char (s ! 1) :: nat)"
  define c where "c = (of_char (s ! 2) :: nat)"
  define d where "d = (of_char (s ! 3) :: nat)"
  consider "a < 128" | "128 \<le> a \<and> (a < 194 \<or> 244 < a)" | "194 \<le> a \<and> a < 224"
    | "224 \<le> a \<and> a < 240" | "240 \<le> a \<and> a \<le> 244"
    by linarith
  then show ?thesis
  proof cases
    case 1
    with False show ?thesis
      by (simp add: decode_ascii a_def ValidRune_def)
  next
    case 2
    with False show ?thesis
      by (simp add: decode_bad a_def ValidRune_def RuneError_def)
  next
    case 3
    with False have "DecodeRuneInString s =
      (if 2 \<le> length s \<and> 128 \<le> b \<and> b \<le> 191 then ((a - 192) * 64 + (b - 128), 2)
       else (RuneError, 1))"
      unfolding a_def b_def by (simp add: decode_2)
    with 3 show ?thesis
      by (auto simp: ValidRune_def RuneError_def)
  next
    case 4
    with False have "DecodeRuneInString s =
      (if 3 \<le> length s \<and> (if a = 224 then 160 else 128) \<le> b
          \<and> b \<le> (if a = 237 then 159 else 191) \<and> 128 \<le> c \<and> c \<le> 191
       then ((a - 224) * 4096 + (b - 128) * 64 + (c - 128), 3)
       else (RuneError, 1))"
      unfolding a_def b_def c_def by (simp add: decode_3)
    with 4 show ?thesis
      by (auto simp: ValidRune_def RuneError_def split: if_splits)
  next
    case 5
    with False have "DecodeRuneInString s =
      (if 4 \<le> length s \<and> (if a = 240 then 144 else 128) \<le> b
          \<and> b \<le> (if a = 244 then 143 else 191) \<and> 128 \<le> c \<and> c \<le> 191
          \<and> 128 \<le> d \<and> d \<le> 191
       then ((a - 240) * 262144 + (b - 128) * 4096 + (c - 128) * 64 + (d - 128), 4)
       else (RuneError, 1))"
      unfolding a_def b_def c_def d_def by (simp add: decode_4)
    with 5 show ?thesis
      by (auto simp: ValidRune_def RuneError_def split: if_splits)
  qed
qed

lemma runes_valid: "r \<in> set (runes s) \<Longrightarrow> ValidRune r"
proof (induction s arbitrary: r rule: runes.induct)
  case 1
  then show ?case by simp
next
  case (2 c cs)
  obtain x w where d: "DecodeRuneInString (c # cs) = (x, w)"
    by (cases "DecodeRuneInString (c # cs)")
  from decode_valid [of "c # cs"] d have "ValidRune x" by simp
  with 2 d show ?case by auto
qed

lemma split3:
  fixes r :: nat
  shows "r = (r div 4096) * 4096 + ((r div 64) mod 64) * 64 + r mod 64"
proof -
  define t where "t = r div 64"
  have e: "(x * 64 + y) * 64 = x * 4096 + y * 64" for x y :: nat
    by simp
  have c: "r div 4096 = t div 64"
    using div_mult2_eq [of r 64 64] by (simp add: t_def)
  have "r = t * 64 + r mod 64"
    by (simp add: t_def)
  also have "t * 64 = (t div 64 * 64 + t mod 64) * 64"
    by simp
  also have "\<dots> = t div 64 * 4096 + t mod 64 * 64"
    by (rule e)
  finally show ?thesis
    by (simp add: c t_def)
qed

lemma split4:
  fixes r :: nat
  shows "r = (r div 262144) * 262144 + ((r div 4096) mod 64) * 4096
             + ((r div 64) mod 64) * 64 + r mod 64"
proof -
  define u where "u = r div 4096"
  have e: "(x * 64 + y) * 4096 = x * 262144 + y * 4096" for x y :: nat
    by simp
  have c: "r div 262144 = u div 64"
    using div_mult2_eq [of r 4096 64] by (simp add: u_def)
  have "u * 4096 = (u div 64 * 64 + u mod 64) * 4096"
    by simp
  also have "\<dots> = u div 64 * 262144 + u mod 64 * 4096"
    by (rule e)
  finally have "u * 4096 = r div 262144 * 262144 + (r div 4096) mod 64 * 4096"
    by (simp add: c u_def)
  with split3 [of r] show ?thesis
    by (simp add: u_def)
qed

lemma decode_encode:
  assumes "ValidRune r"
  shows "DecodeRuneInString (EncodeRune r @ rest) = (r, length (EncodeRune r))"
proof -
  consider "r \<le> 127" | "128 \<le> r \<and> r \<le> 2047" | "2048 \<le> r \<and> r \<le> 65535" | "65536 \<le> r"
    by linarith
  then show ?thesis
  proof cases
    case 1
    then have e: "EncodeRune r = [char_of r]"
      by (simp add: EncodeRune_def)
    from 1 show ?thesis
      unfolding e using decode_ascii [of "[char_of r] @ rest"] by simp
  next
    case 2
    define q where "q = r div 64"
    define m where "m = r mod 64"
    have m: "m < 64" and r: "r = q * 64 + m"
      unfolding q_def m_def by simp_all
    from 2 have q: "2 \<le> q" "q \<le> 31"
      unfolding r using m by linarith+
    from 2 have e: "EncodeRune r = [char_of (192 + q), char_of (128 + m)]"
      by (simp add: EncodeRune_def q_def m_def)
    from q m show ?thesis
      unfolding e using decode_2 [of "[char_of (192 + q), char_of (128 + m)] @ rest"]
      by (simp add: r)
  next
    case 3
    define q where "q = r div 4096"
    define p where "p = (r div 64) mod 64"
    define m where "m = r mod 64"
    have m: "m < 64" and p: "p < 64" and r: "r = q * 4096 + p * 64 + m"
      unfolding q_def p_def m_def using split3 [of r] by simp_all
    from 3 have q: "q \<le> 15"
      unfolding r by linarith
    from 3 assms have lo: "q = 0 \<Longrightarrow> 32 \<le> p" and hi: "q = 13 \<Longrightarrow> p \<le> 31"
      unfolding r ValidRune_def using m p by linarith+
    from 3 assms have e: "EncodeRune r = [char_of (224 + q), char_of (128 + p), char_of (128 + m)]"
      by (auto simp: EncodeRune_def ValidRune_def q_def p_def m_def)
    from q p m lo hi show ?thesis
      unfolding e
      using decode_3 [of "[char_of (224 + q), char_of (128 + p), char_of (128 + m)] @ rest"]
      by (simp add: r)
  next
    case 4
    define q where "q = r div 262144"
    define p where "p = (r div 4096) mod 64"
    define p2 where "p2 = (r div 64) mod 64"
    define m where "m = r mod 64"
    have m: "m < 64" and p: "p < 64" and p2: "p2 < 64"
      and r: "r = q * 262144 + p * 4096 + p2 * 64 + m"
      unfolding q_def p_def p2_def m_def using split4 [of r] by simp_all
    from assms have q: "q \<le> 4"
      unfolding r ValidRune_def by linarith
    from 4 assms have lo: "q = 0 \<Longrightarrow> 16 \<le> p" and hi: "q = 4 \<Longrightarrow> p \<le> 15"
      unfolding r ValidRune_def using m p p2 by linarith+
    from 4 assms have e: "EncodeRune r
        = [char_of (240 + q), char_of (128 + p), char_of (128 + p2), char_of (128 + m)]"
      by (auto simp: EncodeRune_def ValidRune_def q_def p_def p2_def m_def)
    from q p p2 m lo hi show ?thesis
      unfolding e
      using decode_4 [of "[char_of (240 + q), char_of (128 + p), char_of (128 + p2), char_of (128 + m)] @ rest"]
      by (simp add: r)
  qed
qed

lemma encode_nonempty: "EncodeRune r \<noteq> []"
  by (simp add: EncodeRune_def Let_def)

lemma runes_encode:
  assumes "ValidRune r"
  shows "runes (EncodeRune r @ rest) = r # runes rest"
proof -
  from encode_nonempty obtain c cs where e: "EncodeRune r = c # cs"
    by (cases "EncodeRune r") auto
  from decode_encode [OF assms, of rest] have "DecodeRuneInString (c # cs @ rest) = (r, Suc (length cs))"
    by (simp add: e)
  then show ?thesis
    by (simp add: e)
qed

lemma runes_concat_encode:
  assumes "\<forall>r \<in> set rs. ValidRune r"
  shows "runes (concat (map EncodeRune rs)) = rs"
  using assms by (induction rs) (simp_all add: runes_encode)

subsection \<open>Lower-casing twice, and lower-casing after a substitution of ASCII bytes\<close>

lemma Map_idem:
  assumes "\<And>r. ValidRune r \<Longrightarrow> ValidRune (f r) \<and> f (f r) = f r"
  shows "strings_Map f (strings_Map f s) = strings_Map f s"
proof -
  have v: "\<forall>r \<in> set (map f (runes s)). ValidRune r"
    using runes_valid [of _ s] assms by auto
  have "runes (strings_Map f s) = map f (runes s)"
    unfolding strings_Map_def
    using runes_concat_encode [OF v] by (simp add: comp_def)
  moreover have "map (\<lambda>c. EncodeRune (f c)) (map f (runes s)) = map (\<lambda>c. EncodeRune (f c)) (runes s)"
    unfolding map_map
  proof (rule map_cong [OF refl])
    fix x
    assume "x \<in> set (runes s)"
    then have "f (f x) = f x"
      using runes_valid [of x s] assms by simp
    then show "((\<lambda>c. EncodeRune (f c)) \<circ> f) x = EncodeRune (f x)"
      by simp
  qed
  ultimately show ?thesis
    by (simp only: strings_Map_def)
qed

lemma encode_high:
  assumes "128 \<le> r" and "c \<in> set (EncodeRune r)"
  shows "128 \<le> (of_char c :: nat)"
proof -
  have b: "(of_char (char_of (k + x)) :: nat) \<ge> 128" if "128 \<le> k" "k + x < 256" for k x :: nat
    using that by simp
  have q2: "r div 64 < 32" if "r \<le> 2047"
    using that by (simp add: div_less_iff_less_mult)
  have q3: "r div 4096 < 16" if "r \<le> 65535"
    using that by (simp add: div_less_iff_less_mult)
  have q4: "r div 262144 < 5" if "r \<le> 1114111"
    using that by (simp add: div_less_iff_less_mult)
  have m: "x mod 64 < 64" for x :: nat
    by simp
  have e: "(65533::nat) div 4096 = 15" "(65533::nat) div 64 mod 64 = 63" "(65533::nat) mod 64 = 61"
    by simp_all
  from assms show ?thesis
    unfolding EncodeRune_def Let_def RuneError_def
    using q2 q3 q4 m [of r] m [of "r div 64"] m [of "r div 4096"]
    by (auto simp: e not_le split: if_splits intro!: b)
qed

lemma decode_high:
  assumes "s \<noteq> []" and "128 \<le> (of_char (s ! 0) :: nat)"
  shows "128 \<le> fst (DecodeRuneInString s)"
proof -
  define a where "a = (of_char (s ! 0) :: nat)"
  define b where "b = (of_char (s ! 1) :: nat)"
  define c where "c = (of_char (s ! 2) :: nat)"
  define d where "d = (of_char (s ! 3) :: nat)"
  from assms(2) consider "128 \<le> a \<and> (a < 194 \<or> 244 < a)" | "194 \<le> a \<and> a < 224"
    | "224 \<le> a \<and> a < 240" | "240 \<le> a \<and> a \<le> 244"
    unfolding a_def by linarith
  then show ?thesis
  proof cases
    case 1
    with assms(1) show ?thesis
      by (simp add: decode_bad a_def RuneError_def)
  next
    case 2
    note ds = decode_2 [OF assms(1) conjunct1 [OF 2 [unfolded a_def]] conjunct2 [OF 2 [unfolded a_def]], folded a_def b_def]
    from 2 have "128 \<le> (a - 192) * 64 + (b - 128)" by linarith
    then show ?thesis
      unfolding ds RuneError_def by (simp only: fst_conv split: if_split) simp
  next
    case 3
    note ds = decode_3 [OF assms(1) conjunct1 [OF 3 [unfolded a_def]] conjunct2 [OF 3 [unfolded a_def]], folded a_def b_def c_def]
    show ?thesis
    proof (cases "3 \<le> length s \<and> (if a = 224 then 160 else 128) \<le> b
        \<and> b \<le> (if a = 237 then 159 else 191) \<and> 128 \<le> c \<and> c \<le> 191")
      case False
      then have "DecodeRuneInString s = (RuneError, 1)"
        by (simp only: ds if_False)
      then show ?thesis
        by (simp add: RuneError_def)
    next
      case True
      then have val: "DecodeRuneInString s = ((a - 224) * 4096 + (b - 128) * 64 + (c - 128), 3)"
        by (simp only: ds simp_thms if_True)
      have "128 \<le> (a - 224) * 4096 + (b - 128) * 64 + (c - 128)"
      proof (cases "a = 224")
        case True
        with \<open>3 \<le> length s \<and> (if a = 224 then 160 else 128) \<le> b
            \<and> b \<le> (if a = 237 then 159 else 191) \<and> 128 \<le> c \<and> c \<le> 191\<close>
        have "160 \<le> b" by simp
        then show ?thesis by linarith
      next
        case False
        with 3 show ?thesis by linarith
      qed
      then show ?thesis
        by (simp only: val fst_conv)
    qed
  next
    case 4
    note ds = decode_4 [OF assms(1) conjunct1 [OF 4 [unfolded a_def]] conjunct2 [OF 4 [unfolded a_def]], folded a_def b_def c_def d_def]
    show ?thesis
    proof (cases "4 \<le> length s \<and> (if a = 240 then 144 else 128) \<le> b
        \<and> b \<le> (if a = 244 then 143 else 191) \<and> 128 \<le> c \<and> c \<le> 191
        \<and> 128 \<le> d \<and> d \<le> 191")
      case False
      then have "DecodeRuneInString s = (RuneError, 1)"
        by (simp only: ds if_False)
      then show ?thesis
        by (simp add: RuneError_def)
    next
      case True
      then have val: "DecodeRuneInString s
          = ((a - 240) * 262144 + (b - 128) * 4096 + (c - 128) * 64 + (d - 128), 4)"
        by (simp only: ds simp_thms if_True)
      have "128 \<le> (a - 240) * 262144 + (b - 128) * 4096 + (c - 128) * 64 + (d - 128)"
      proof (cases "a = 240")
        case True
        with \<open>4 \<le> length s \<and> (if a = 240 then 144 else 128) \<le> b
            \<and> b \<le> (if a = 244 then 143 else 191) \<and> 128 \<le> c \<and> c \<le> 191
            \<and> 128 \<le> d \<and> d \<le> 191\<close>
        have "144 \<le> b" by simp
        then show ?thesis by linarith
      next
        case False
        with 4 show ?thesis by linarith
      qed
      then show ?thesis
        by (simp only: val fst_conv)
    qed
  qed
qed

lemma decode_subst_high:
  assumes d: "(of_char d :: nat) < 128" and r: "(of_char r :: nat) < 128" and s: "s \<noteq> []"
    and high: "128 \<le> (of_char (s ! 0) :: nat)"
  shows "DecodeRuneInString (map (\<lambda>c. if c = d then r else c) s) = DecodeRuneInString s"
proof -
  let ?g = "\<lambda>c. if c = d then r else c"
  let ?s = "map ?g s"
  have byte: "(128 \<le> (of_char (?s ! i) :: nat) \<longleftrightarrow> 128 \<le> (of_char (s ! i) :: nat))
        \<and> (128 \<le> (of_char (s ! i) :: nat) \<longrightarrow> ?s ! i = s ! i)" if "i < length s" for i
  proof -
    from that have n: "?s ! i = ?g (s ! i)" by simp
    show ?thesis
    proof (cases "s ! i = d")
      case True
      with d r show ?thesis unfolding n by simp
    next
      case False
      then show ?thesis unfolding n by simp
    qed
  qed
  from s have ne: "?s \<noteq> []" and l0: "0 < length s" by simp_all
  have len: "length ?s = length s" by simp
  define a where "a = (of_char (s ! 0) :: nat)"
  define b where "b = (of_char (s ! 1) :: nat)"
  define c where "c = (of_char (s ! 2) :: nat)"
  define e where "e = (of_char (s ! 3) :: nat)"
  define b' where "b' = (of_char (?s ! 1) :: nat)"
  define c' where "c' = (of_char (?s ! 2) :: nat)"
  define e' where "e' = (of_char (?s ! 3) :: nat)"
  from high byte [OF l0] have h: "?s ! 0 = s ! 0" by simp
  have b: "(128 \<le> b' \<longleftrightarrow> 128 \<le> b) \<and> (128 \<le> b \<longrightarrow> b' = b)" if "2 \<le> length s"
    using byte [of 1] that unfolding b_def b'_def by auto
  have c: "(128 \<le> c' \<longleftrightarrow> 128 \<le> c) \<and> (128 \<le> c \<longrightarrow> c' = c)" if "3 \<le> length s"
    using byte [of 2] that unfolding c_def c'_def by auto
  have e: "(128 \<le> e' \<longleftrightarrow> 128 \<le> e) \<and> (128 \<le> e \<longrightarrow> e' = e)" if "4 \<le> length s"
    using byte [of 3] that unfolding e_def e'_def by auto
  from high consider "128 \<le> a \<and> (a < 194 \<or> 244 < a)" | "194 \<le> a \<and> a < 224"
    | "224 \<le> a \<and> a < 240" | "240 \<le> a \<and> a \<le> 244"
    unfolding a_def by linarith
  then show ?thesis
  proof cases
    case 1
    from decode_bad [OF ne] decode_bad [OF s] 1 show ?thesis
      unfolding h a_def [symmetric] by simp
  next
    case 2
    note ds = decode_2 [OF s conjunct1 [OF 2 [unfolded a_def]] conjunct2 [OF 2 [unfolded a_def]], folded a_def b_def]
      and dm = decode_2 [OF ne conjunct1 [OF 2 [unfolded a_def h [symmetric]]] conjunct2 [OF 2 [unfolded a_def h [symmetric]]], unfolded h len, folded a_def b'_def]
    show ?thesis
    proof (cases "2 \<le> length s \<and> 128 \<le> b")
      case True
      with b have "b' = b" by simp
      with 2 show ?thesis by (simp only: ds dm)
    next
      case False
      with b have "\<not> (2 \<le> length s \<and> 128 \<le> b' \<and> b' \<le> 191)"
        "\<not> (2 \<le> length s \<and> 128 \<le> b \<and> b \<le> 191)"
        by auto
      with 2 show ?thesis by (simp only: ds dm if_False)
    qed
  next
    case 3
    note ds = decode_3 [OF s conjunct1 [OF 3 [unfolded a_def]] conjunct2 [OF 3 [unfolded a_def]], folded a_def b_def c_def]
      and dm = decode_3 [OF ne conjunct1 [OF 3 [unfolded a_def h [symmetric]]] conjunct2 [OF 3 [unfolded a_def h [symmetric]]], unfolded h len, folded a_def b'_def c'_def]
    show ?thesis
    proof (cases "3 \<le> length s \<and> 128 \<le> b \<and> 128 \<le> c")
      case True
      with b c have "b' = b" "c' = c" by simp_all
      with 3 show ?thesis by (simp only: ds dm)
    next
      case False
      define lo :: nat where "lo = (if a = 224 then 160 else 128)"
      define hi :: nat where "hi = (if a = 237 then 159 else 191)"
      have lo: "128 \<le> lo" by (simp add: lo_def)
      have "\<not> (3 \<le> length s \<and> lo \<le> b' \<and> b' \<le> hi \<and> 128 \<le> c' \<and> c' \<le> 191)"
        "\<not> (3 \<le> length s \<and> lo \<le> b \<and> b \<le> hi \<and> 128 \<le> c \<and> c \<le> 191)"
      proof -
        show "\<not> (3 \<le> length s \<and> lo \<le> b \<and> b \<le> hi \<and> 128 \<le> c \<and> c \<le> 191)"
          using False lo by linarith
        show "\<not> (3 \<le> length s \<and> lo \<le> b' \<and> b' \<le> hi \<and> 128 \<le> c' \<and> c' \<le> 191)"
        proof
          assume x: "3 \<le> length s \<and> lo \<le> b' \<and> b' \<le> hi \<and> 128 \<le> c' \<and> c' \<le> 191"
          with lo have "128 \<le> b'" "128 \<le> c'" by linarith+
          with b c x have "128 \<le> b" "128 \<le> c" by simp_all
          with False x show False by simp
        qed
      qed
      with 3 show ?thesis by (simp only: ds dm lo_def hi_def if_False)
    qed
  next
    case 4
    note ds = decode_4 [OF s conjunct1 [OF 4 [unfolded a_def]] conjunct2 [OF 4 [unfolded a_def]], folded a_def b_def c_def e_def]
      and dm = decode_4 [OF ne conjunct1 [OF 4 [unfolded a_def h [symmetric]]] conjunct2 [OF 4 [unfolded a_def h [symmetric]]], unfolded h len, folded a_def b'_def c'_def e'_def]
    show ?thesis
    proof (cases "4 \<le> length s \<and> 128 \<le> b \<and> 128 \<le> c \<and> 128 \<le> e")
      case True
      with b c e have "b' = b" "c' = c" "e' = e" by simp_all
      with 4 show ?thesis by (simp only: ds dm)
    next
      case False
      define lo :: nat where "lo = (if a = 240 then 144 else 128)"
      define hi :: nat where "hi = (if a = 244 then 143 else 191)"
      have lo: "128 \<le> lo" by (simp add: lo_def)
      have "\<not> (4 \<le> length s \<and> lo \<le> b' \<and> b' \<le> hi \<and> 128 \<le> c' \<and> c' \<le> 191
                \<and> 128 \<le> e' \<and> e' \<le> 191)"
        "\<not> (4 \<le> length s \<and> lo \<le> b \<and> b \<le> hi \<and> 128 \<le> c \<and> c \<le> 191
                \<and> 128 \<le> e \<and> e \<le> 191)"
      proof -
        show "\<not> (4 \<le> length s \<and> lo \<le> b \<and> b \<le> hi \<and> 128 \<le> c \<and> c \<le> 191
                \<and> 128 \<le> e \<and> e \<le> 191)"
          using False lo by linarith
        show "\<not> (4 \<le> length s \<and> lo \<le> b' \<and> b' \<le> hi \<and> 128 \<le> c' \<and> c' \<le> 191
                \<and> 128 \<le> e' \<and> e' \<le> 191)"
        proof
          assume x: "4 \<le> length s \<and> lo \<le> b' \<and> b' \<le> hi \<and> 128 \<le> c' \<and> c' \<le> 191
                \<and> 128 \<le> e' \<and> e' \<le> 191"
          with lo have "128 \<le> b'" "128 \<le> c'" "128 \<le> e'" by linarith+
          with b c e x have "128 \<le> b" "128 \<le> c" "128 \<le> e" by simp_all
          with False x show False by simp
        qed
      qed
      with 4 show ?thesis by (simp only: ds dm lo_def hi_def if_False)
    qed
  qed
qed

lemma decode_subst:
  assumes d: "(of_char d :: nat) < 128" and r: "(of_char r :: nat) < 128" and s: "s \<noteq> []"
  shows "DecodeRuneInString (map (\<lambda>c. if c = d then r else c) s)
       = ((\<lambda>x. if x = of_char d then of_char r else x) (fst (DecodeRuneInString s)),
          snd (DecodeRuneInString s))"
proof (cases "(of_char (s ! 0) :: nat) < 128")
  case True
  let ?s = "map (\<lambda>c. if c = d then r else c) s"
  from s have ne: "?s \<noteq> []" and l0: "0 < length s" by simp_all
  from True r l0 have "(of_char (?s ! 0) :: nat) < 128"
    by simp
  from decode_ascii [OF ne this] decode_ascii [OF s True] l0 show ?thesis
    by simp
next
  case False
  then have high: "128 \<le> (of_char (s ! 0) :: nat)" by simp
  from decode_high [OF s high] d have "fst (DecodeRuneInString s) \<noteq> of_char d"
    by simp
  with decode_subst_high [OF d r s high] show ?thesis
    by simp
qed

lemma runes_subst:
  assumes "(of_char d :: nat) < 128" and "(of_char r :: nat) < 128"
  shows "runes (map (\<lambda>c. if c = d then r else c) s)
       = map (\<lambda>x. if x = of_char d then of_char r else x) (runes s)"
proof (induction s rule: runes.induct)
  case 1
  then show ?case by simp
next
  case (2 c cs)
  obtain x w where dec: "DecodeRuneInString (c # cs) = (x, w)"
    by (cases "DecodeRuneInString (c # cs)")
  from decode_subst [OF assms, of "c # cs"] dec
  have "DecodeRuneInString ((if c = d then r else c) # map (\<lambda>c. if c = d then r else c) cs)
        = ((if x = of_char d then of_char r else x), w)"
    by simp
  with 2 [OF dec [symmetric]] dec show ?case
    by (simp add: drop_map)
qed

lemma Map_ascii:
  assumes "list_all (\<lambda>c. (of_char c :: nat) < 128) s"
  shows "strings_Map (unicode_ToLower N) s = map toLowerChar s"
  using assms
proof (induction s)
  case Nil
  then show ?case by (simp add: strings_Map_def)
next
  case (Cons c cs)
  then have c: "(of_char c :: nat) < 128" and cs: "list_all (\<lambda>c. (of_char c :: nat) < 128) cs"
    by simp_all
  from decode_ascii [of "c # cs"] c have "DecodeRuneInString (c # cs) = (of_char c, 1)"
    by simp
  then have r: "runes (c # cs) = of_char c # runes cs"
    by simp
  from c have "EncodeRune (unicode_ToLower N (of_char c)) = [toLowerChar c]"
    by (simp add: EncodeRune_def unicode_ToLower_def toLowerChar_def Let_def)
  with Cons.IH [OF cs] show ?case
    unfolding strings_Map_def r by simp
qed

lemma ToLower_Map: "ToLower N s = strings_Map (unicode_ToLower N) s"
  by (simp add: ToLower_def Map_ascii)

lemma ToLower_idem:
  assumes "lowerCaseTable N"
  shows "ToLower N (ToLower N s) = ToLower N s"
  unfolding ToLower_Map
  using assms by (intro Map_idem) (simp add: lowerCaseTable_def)

lemma ToLower_replace:
  assumes "reversible N obj"
  shows "ToLower N (replaceDelimiters N s) = replaceDelimiters N (ToLower N s)"
proof -
  define d where "d = delimiterToReplace N"
  define r where "r = delimiterReplacement N"
  let ?g = "\<lambda>c. if c = d then r else c"
  let ?f = "\<lambda>x. if x = of_char d then of_char r else (x :: nat)"
  let ?lw = "unicode_ToLower N"
  from assms have d: "(of_char d :: nat) < 128" and r: "(of_char r :: nat) < 128"
    and lr: "?lw (of_char r) = of_char r"
    and ld: "\<And>x. ?lw x = of_char d \<longleftrightarrow> x = of_char d"
    unfolding reversible_def d_def r_def by blast+
  have enc: "EncodeRune (?lw (?f x)) = map ?g (EncodeRune (?lw x))" for x
  proof (cases "x = of_char d")
    case True
    with d r lr ld [of x] show ?thesis
      by (simp add: EncodeRune_def)
  next
    case False
    with ld [of x] have n: "?lw x \<noteq> of_char d" by simp
    have "c \<noteq> d" if "c \<in> set (EncodeRune (?lw x))" for c
    proof (cases "128 \<le> ?lw x")
      case True
      from encode_high [OF True that] d show ?thesis by auto
    next
      case False
      with that have "c = char_of (?lw x)"
        by (simp add: EncodeRune_def)
      with False n show ?thesis by auto
    qed
    then have "map ?g (EncodeRune (?lw x)) = EncodeRune (?lw x)"
      by (simp add: map_idI)
    with False show ?thesis by simp
  qed
  have "strings_Map ?lw (map ?g s) = map ?g (strings_Map ?lw s)"
    unfolding strings_Map_def runes_subst [OF d r]
    by (simp add: map_concat comp_def enc)
  then show ?thesis
    by (simp only: ToLower_Map replaceDelimiters_def d_def r_def)
qed

lemma revert_replace:
  assumes "delimiterReplacement N \<notin> set s"
  shows "revertDelimiters N (replaceDelimiters N s) = s"
  using assms by (induction s) (auto simp: revertDelimiters_def replaceDelimiters_def)


subsection \<open>The round trip\<close>

lemma exampleNaming_lowerCaseTable: "lowerCaseTable exampleNaming"
proof -
  have u: "unicode_ToLower exampleNaming r =
      (if r \<le> 127 then (if 65 \<le> r \<and> r \<le> 90 then r + 32 else r) else exampleLowerCase r)" for r
    by (simp add: unicode_ToLower_def exampleNaming_def)
  have v: "ValidRune (unicode_ToLower exampleNaming r)" if "ValidRune r" for r
    using that unfolding u exampleLowerCase_def ValidRune_def by auto
  have i: "unicode_ToLower exampleNaming (unicode_ToLower exampleNaming r)
             = unicode_ToLower exampleNaming r" for r
    unfolding u exampleLowerCase_def by auto
  from v i show ?thesis
    by (simp add: lowerCaseTable_def)
qed

lemma exampleNaming_reversible: "reversible exampleNaming stationObjectName"
proof -
  have u: "unicode_ToLower exampleNaming r =
      (if r \<le> 127 then (if 65 \<le> r \<and> r \<le> 90 then r + 32 else r) else exampleLowerCase r)" for r
    by (simp add: unicode_ToLower_def exampleNaming_def)
  have a: "unicode_ToLower exampleNaming 35 = 35"
    by (simp add: u)
  have b: "unicode_ToLower exampleNaming r = 46 \<longleftrightarrow> r = 46" for r
    unfolding u exampleLowerCase_def by auto
  have c: "CHR ''#'' \<notin> set name" if "exampleValidateName name obj = None" for name obj
  proof
    assume "CHR ''#'' \<in> set name"
    moreover from that have "list_all nameChar name"
      by (simp add: exampleValidateName_def split: if_splits)
    ultimately have "nameChar (CHR ''#'')" by (simp add: list_all_iff)
    then show False by (simp add: nameChar_def)
  qed
  have d: "(of_char (CHR ''.'') :: nat) = 46" "(of_char (CHR ''#'') :: nat) = 35"
    by simp_all
  show ?thesis
    unfolding reversible_def
    using a b c by (simp add: exampleNaming_def d)
qed

text \<open>
  C6.  For every name accepted by the canonicalizer, the internal stream name that
  \<open>StationNameFromStr\<close> computes is mapped back by \<open>StationNameFromStreamName\<close> to the same
  station name (same external and same internal form), the external form is the
  lower-cased name, and canonicalizing the external name so obtained gives that station
  name again: the two functions are mutually inverse on valid names.  Lower-casing is
  that of \<open>strings.ToLower\<close> on every byte string, with any lower-case mapping of the
  runes above ASCII that has the properties \<open>lowerCaseTable\<close>.
\<close>

theorem station_name_round_trip:
  assumes "lowerCaseTable N" and "reversible N stationObjectName"
    and "StationNameFromStr N n = Inr sn"
  shows "StationNameFromStreamName N (Intern sn) = sn
       \<and> Ext (StationNameFromStreamName N (Intern sn)) = ToLower N n
       \<and> StationNameFromStr N (Ext (StationNameFromStreamName N (Intern sn))) = Inr sn"
proof -
  from assms(3) have ok: "validateName N (ToLower N n) stationObjectName = None"
    and sn: "sn = \<lparr>internal = ToLower N (replaceDelimiters N n), external = ToLower N n\<rparr>"
    by (auto simp: StationNameFromStr_def Let_def split: option.splits)
  from assms(2) ok have notin: "delimiterReplacement N \<notin> set (ToLower N n)"
    by (simp add: reversible_def)
  note swap = ToLower_replace [OF assms(2)]
  have "revertDelimiters N (ToLower N (replaceDelimiters N n)) = ToLower N n"
    unfolding swap by (rule revert_replace [OF notin])
  then have inv1: "StationNameFromStreamName N (Intern sn) = sn"
    by (simp add: StationNameFromStreamName_def Intern_def sn)
  have "ToLower N (replaceDelimiters N (ToLower N n)) = ToLower N (replaceDelimiters N n)"
    unfolding swap [of "ToLower N n"] swap [of n] ToLower_idem [OF assms(1)] by (rule refl)
  with ok have inv2: "StationNameFromStr N (ToLower N n) = Inr sn"
    by (simp add: StationNameFromStr_def Let_def ToLower_idem [OF assms(1)] sn)
  from inv1 inv2 show ?thesis
    by (simp add: Ext_def sn)
qed

theorem station_name_round_trip_witness:
  "lowerCaseTable exampleNaming
   \<and> reversible exampleNaming stationObjectName
   \<and> StationNameFromStr exampleNaming (CHR 0xE2 # CHR 0x84 # CHR 0xAA # ''afka.EU'')
       = Inr \<lparr>internal = ''kafka#eu'', external = ''kafka.eu''\<rparr>
   \<and> StationNameFromStreamName exampleNaming ''kafka#eu''
       = \<lparr>internal = ''kafka#eu'', external = ''kafka.eu''\<rparr>
   \<and> ToLower exampleNaming (CHR 0xE2 # CHR 0x84 # CHR 0xAA # ''afka.EU'') = ''kafka.eu''
   \<and> StationNameFromStr exampleNaming ''kafka.eu''
       = Inr \<lparr>internal = ''kafka#eu'', external = ''kafka.eu''\<rparr>"
proof -
  let ?sn = "\<lparr>internal = ''kafka#eu'', external = ''kafka.eu''\<rparr>"
  have fs: "StationNameFromStr exampleNaming (CHR 0xE2 # CHR 0x84 # CHR 0xAA # ''afka.EU'')
       = Inr ?sn"
    by code_simp
  have i: "Intern ?sn = ''kafka#eu''"
    by (simp add: Intern_def)
  have e: "Ext ?sn = ''kafka.eu''"
    by (simp add: Ext_def)
  note rt = station_name_round_trip [OF exampleNaming_lowerCaseTable exampleNaming_reversible fs,
      unfolded i]
  from rt have r1: "StationNameFromStreamName exampleNaming ''kafka#eu'' = ?sn"
    by (rule conjunct1)
  note rest = conjunct2 [OF rt [unfolded r1 e]]
  from conjunct1 [OF rest]
  have r2: "ToLower exampleNaming (CHR 0xE2 # CHR 0x84 # CHR 0xAA # ''afka.EU'') = ''kafka.eu''"
    by (rule sym)
  from conjunct2 [OF rest]
  have r3: "StationNameFromStr exampleNaming ''kafka.eu'' = Inr ?sn" .
  from exampleNaming_lowerCaseTable exampleNaming_reversible fs r1 r2 r3 show ?thesis
    by blast
qed


section \<open>Frame properties of the collaborators\<close>

lemma matches_live [simp]:
  "matches [NameEq n, notDeletedOrAbsent] d \<longleftrightarrow> Name d = n \<and> IsDeleted d \<noteq> Some True"
  by (cases "IsDeleted d") (auto simp: matches_def notDeletedOrAbsent_def)

lemma matches_not_deleted [simp]:
  "matches [NameEq n, DelIs False] d \<longleftrightarrow> Name d = n \<and> IsDeleted d = Some False"
  by (auto simp: matches_def)

lemma FindOne_None: "FindOne f ds = None \<longleftrightarrow> (\<forall>d \<in> set ds. \<not> matches f d)"
  by (auto simp: FindOne_def find_None_iff)

lemma UpdateOne_ident [simp]: "UpdateOne f (\<lambda>d. d) ds = ds"
  by (induction ds) auto

lemma respond_stations [simp]:
  "stations (respondWithErr w r e) = stations w"
  "stations (respondWithErrOrJsApiResp b w r j e) = stations w"
  by (simp_all add: respondWithErrOrJsApiResp_def respondWithErr_def respondOnGlobalAcc_def
      sendAPIErrResponse_def)

lemma abort_stations [simp]:
  "stations (AbortWithStatusJSON w s m) = stations w"
  "stations (IndentedJSON w s b) = stations w"
  by (simp_all add: AbortWithStatusJSON_def IndentedJSON_def)

lemma abort_unauthorized_stations [simp]:
  "stations (case e of None \<Rightarrow> w | Some x \<Rightarrow> AbortWithStatusJSON w s m) = stations w"
  by (cases e) simp_all

lemma collab_stations [simp]:
  "stations (snd (NewObjectID w)) = stations w"
  "stations (snd (CreateStream F w sn st)) = stations w"
  "stations (snd (CreateDlsStream N F w sn st)) = stations w"
  "stations (snd (CreateAuditLogs F w ls)) = stations w"
  "stations (snd (AddTagsToEntity F w ts i)) = stations w"
  by (simp_all add: NewObjectID_def CreateStream_def CreateDlsStream_def CreateAuditLogs_def
      AddTagsToEntity_def split: option.splits)

section \<open>The idempotency window\<close>

lemma sdk_persist_stations:
  "stations (createStationDirect_persist N F w c reply sn st f) = stations w \<or>
   stations (createStationDirect_persist N F w c reply sn st f) = stations w @ [st]"
  unfolding createStationDirect_persist_def
  by (cases f)
     (auto simp: Let_def split_beta CreateStream_def CreateDlsStream_def CreateAuditLogs_def
           NewObjectID_def
         split: option.splits prod.splits)

lemma sdk_schema_stage_stations [simp]:
  "createStationDirect_schema N F w n r j csr = Inl w' \<Longrightarrow> stations w' = stations w"
  by (auto simp: createStationDirect_schema_def Let_def
      split: if_splits prod.splits option.splits sum.splits)

lemma sdk_window:
  "stations (createStationDirectIntern N F w c reply csr f) = stations w \<or>
   (\<exists>d. stations (createStationDirectIntern N F w c reply csr f) = stations w @ [d]
        \<and> IdempotencyWindow d = specWindow (csrIdempotencyWindow csr))"
proof -
  have win: "(if csrIdempotencyWindow csr \<le> 0 then 120000
             else if csrIdempotencyWindow csr < 100 then 100
             else csrIdempotencyWindow csr) = specWindow (csrIdempotencyWindow csr)"
    by (simp add: specWindow_def)
  have tail: "stations (createStationDirect_persist N F w0 c reply sn st g) = stations w \<or>
     (\<exists>d. stations (createStationDirect_persist N F w0 c reply sn st g) = stations w @ [d]
          \<and> IdempotencyWindow d = specWindow (csrIdempotencyWindow csr))"
    if "stations w0 = stations w" and "IdempotencyWindow st = specWindow (csrIdempotencyWindow csr)"
    for w0 sn st g
    using sdk_persist_stations [of N F w0 c reply sn st g] that by auto
  show ?thesis
    unfolding createStationDirectIntern_def Let_def win split_beta
    by (simp add: NewObjectID_def tail split: sum.splits option.splits prod.splits)
qed

lemma http_persist_stations_eq:
  "stations (CreateStation_persist N F w u ts sn st sch stor) = stations w \<or>
   stations (CreateStation_persist N F w u ts sn st sch stor) =
     UpdateOneUpsert [NameEq (Name st), DelIs False] (\<lambda>d. d)
       (fromFilter [NameEq (Name st), DelIs False]
          (st\<lparr>Name := [], IsDeleted := None,
              Schema := (if sch \<noteq> [] then Schema st else emptySchemaDetails)\<rparr>))
       (stations w)"
proof (cases "0 < length ts")
  case True
  then show ?thesis
    unfolding CreateStation_persist_def Let_def split_beta
    by (cases "0 < MatchedCount [NameEq (Name st), DelIs False]
                       (stations (snd (CreateDlsStream N F (snd (CreateStream F w sn st)) sn st)))")
       (simp_all split del: if_split split: option.splits)
next
  case False
  then show ?thesis
    unfolding CreateStation_persist_def Let_def split_beta
    by (cases "0 < MatchedCount [NameEq (Name st), DelIs False]
                       (stations (snd (CreateDlsStream N F (snd (CreateStream F w sn st)) sn st)))")
       (simp_all split del: if_split split: option.splits)
qed

lemma http_persist_stations:
  "stations (CreateStation_persist N F w u ts sn st sch stor) = stations w \<or>
   (\<exists>d. stations (CreateStation_persist N F w u ts sn st sch stor) = stations w @ [d]
        \<and> IdempotencyWindow d = IdempotencyWindow st)"
  using http_persist_stations_eq [of N F w u ts sn st sch stor]
  by (auto simp: UpdateOneUpsert_def split: if_splits)

lemma http_schema_stage_stations [simp]:
  "CreateStation_schema F w b n = Inl w' \<Longrightarrow> stations w' = stations w"
  by (auto simp: CreateStation_schema_def Let_def
      split: if_splits prod.splits option.splits sum.splits)

lemma http_window:
  "stations (CreateStation N F w u body) = stations w \<or>
   (\<exists>d. stations (CreateStation N F w u body) = stations w @ [d]
        \<and> IdempotencyWindow d = specWindow (csrIdempotencyWindow body))"
proof -
  have win: "(if csrIdempotencyWindow body \<le> 0 then 120000
             else if csrIdempotencyWindow body < 100 then 100
             else csrIdempotencyWindow body) = specWindow (csrIdempotencyWindow body)"
    by (simp add: specWindow_def)
  have tail: "stations (CreateStation_persist N F w0 u0 ts sn st sch stor) = stations w \<or>
     (\<exists>d. stations (CreateStation_persist N F w0 u0 ts sn st sch stor) = stations w @ [d]
          \<and> IdempotencyWindow d = specWindow (csrIdempotencyWindow body))"
    if "stations w0 = stations w" and "IdempotencyWindow st = specWindow (csrIdempotencyWindow body)"
    for w0 u0 ts sn st sch stor
    using http_persist_stations [of N F w0 u0 ts sn st sch stor] that by auto
  show ?thesis
  proof (cases "StationNameFromStr N (csrStationName body)")
    case (Inl e)
    then show ?thesis by (simp add: CreateStation_def)
  next
    case (Inr sn)
    obtain ex st er where ise: "IsStationExist F w sn = (ex, st, er)"
      by (cases "IsStationExist F w sn") auto
    show ?thesis
    proof (cases "er = None \<and> \<not> ex")
      case False
      with Inr ise show ?thesis
        by (auto simp: CreateStation_def split: option.splits)
    next
      case True
      with Inr ise show ?thesis
        unfolding CreateStation_def Let_def win split_beta
        by (simp add: tail split del: if_split split: sum.splits option.splits)
    qed
  qed
qed

text \<open>
  C7.  In the SDK variant and in the HTTP variant of CreateStation, whenever the handler
  persists a station record, it is one new record, and its idempotency window is the
  requested value normalized: a value of at most 0 becomes 120000, a value strictly
  between 0 and 100 becomes 100, a value of at least 100 is kept; so 0 gives 120000, 50
  gives 100, 200 gives 200 and 1000000 gives 1000000.
\<close>

theorem idempotency_window_normalized:
  "(stations (createStationDirectIntern N F w c reply csr f) = stations w \<or>
    (\<exists>d. stations (createStationDirectIntern N F w c reply csr f) = stations w @ [d]
         \<and> IdempotencyWindow d = specWindow (csrIdempotencyWindow csr)))
   \<and> (stations (CreateStation N F w u body) = stations w \<or>
    (\<exists>d. stations (CreateStation N F w u body) = stations w @ [d]
         \<and> IdempotencyWindow d = specWindow (csrIdempotencyWindow body)))
   \<and> specWindow 0 = 120000 \<and> specWindow 50 = 100 \<and> specWindow 200 = 200
   \<and> specWindow 1000000 = 1000000"
  using sdk_window [of N F w c reply csr f] http_window [of N F w u body]
  by (simp add: specWindow_def)

theorem idempotency_window_normalized_witness:
  "(\<exists>d. stations (createStationDirectIntern exampleNaming noFaults emptyWorld exClient
                    ''reply'' exCreate None) = [d] \<and> IdempotencyWindow d = 100)
   \<and> (\<exists>d. stations (CreateStation exampleNaming noFaults emptyWorld exUser exBody) = [d]
          \<and> IdempotencyWindow d = 100)"
proof -
  have ne1: "stations (createStationDirectIntern exampleNaming noFaults emptyWorld exClient
                ''reply'' exCreate None) \<noteq> stations emptyWorld"
    by code_simp
  have ne2: "stations (CreateStation exampleNaming noFaults emptyWorld exUser exBody)
             \<noteq> stations emptyWorld"
    by code_simp
  have e: "stations emptyWorld = []"
    by (simp add: emptyWorld_def)
  have v: "specWindow (csrIdempotencyWindow exCreate) = 100"
    "specWindow (csrIdempotencyWindow exBody) = 100"
    by (simp_all add: specWindow_def exCreate_def exBody_def)
  from idempotency_window_normalized
         [of exampleNaming noFaults emptyWorld exClient "''reply''" exCreate None exUser exBody]
    ne1 ne2
  show ?thesis
    unfolding v e by simp
qed

section \<open>DestroyStation of a station that does not exist\<close>

lemma IsStationExist_absent:
  assumes "F CallIsStationExist = None"
    and "\<forall>d \<in> set (stations w). Name d = Ext sn \<longrightarrow> IsDeleted d = Some True"
  shows "IsStationExist F w sn = (False, zeroStation, None)"
proof -
  from assms(2) have "FindOne [NameEq (Ext sn), notDeletedOrAbsent] (stations w) = None"
    by (auto simp: FindOne_None)
  with assms(1) show ?thesis by (simp add: IsStationExist_def)
qed

text \<open>
  C8.  When the name of a destroy request canonicalizes, the lookup does not fail and no
  station of that name is live, \<open>removeStationDirectIntern\<close> builds the message from the
  zero-valued station record: the reply on the wire (\<open>removeStationDirect\<close>, the native
  path) is exactly the text "Station  does not exist", with an empty name and two
  spaces, whatever name was requested; on the non-native path the same text is the error
  of the API response.
\<close>

theorem destroy_absent_station_reply:
  assumes "StationNameFromStr N (dsrStationName dsr) = Inr sn"
    and "F CallIsStationExist = None"
    and "\<forall>d \<in> set (stations w). Name d = Ext sn \<longrightarrow> IsDeleted d = Some True"
  shows "removeStationDirect N F w c reply (Inr dsr)
           = w\<lparr>sent := sent w @ [(reply, Bytes ''Station  does not exist'')]\<rparr>
       \<and> removeStationDirectIntern N F w c reply dsr None
           = w\<lparr>sent := sent w @ [(reply, Bytes ''Station  does not exist'')]\<rparr>
       \<and> removeStationDirectIntern N F w c reply dsr (Some f)
           = w\<lparr>sent := sent w @
               [(reply, ApiErrResponse
                  \<lparr>respType = JSApiStreamDeleteResponseType,
                   respError = Some (JSStreamDeleteError (Some ''Station  does not exist''))\<rparr>)]\<rparr>"
  using assms(1) IsStationExist_absent [of F w sn] assms(2,3)
  by (simp add: removeStationDirect_def removeStationDirectIntern_def
      respondWithErrOrJsApiResp_def respondWithErr_def respondOnGlobalAcc_def
      sendAPIErrResponse_def zeroStation_def)

theorem destroy_absent_station_reply_witness:
  "StationNameFromStr exampleNaming (dsrStationName \<lparr>dsrStationName = ''Payments''\<rparr>)
     = Inr \<lparr>internal = ''payments'', external = ''payments''\<rparr>
   \<and> noFaults CallIsStationExist = None
   \<and> map Name (stations exWorld) = [''orders'']
   \<and> sent (removeStationDirect exampleNaming noFaults exWorld exClient ''reply''
             (Inr \<lparr>dsrStationName = ''Payments''\<rparr>))
       = [(''reply'', Bytes ''Station  does not exist'')]"
proof -
  have n: "StationNameFromStr exampleNaming (dsrStationName \<lparr>dsrStationName = ''Payments''\<rparr>)
     = Inr \<lparr>internal = ''payments'', external = ''payments''\<rparr>"
    by code_simp
  have f: "noFaults CallIsStationExist = None"
    by (simp add: noFaults_def)
  have a: "\<forall>d \<in> set (stations exWorld).
         Name d = Ext \<lparr>internal = ''payments'', external = ''payments''\<rparr>
         \<longrightarrow> IsDeleted d = Some True"
    by (simp add: exWorld_def emptyWorld_def exOrders_def Ext_def)
  have s: "sent exWorld = []"
    by (simp add: exWorld_def emptyWorld_def)
  from destroy_absent_station_reply
         [where N = exampleNaming and F = noFaults and w = exWorld and c = exClient
            and reply = "''reply''" and dsr = "\<lparr>dsrStationName = ''Payments''\<rparr>"
            and sn = "\<lparr>internal = ''payments'', external = ''payments''\<rparr>"]
       n f a
  have "removeStationDirect exampleNaming noFaults exWorld exClient ''reply''
          (Inr \<lparr>dsrStationName = ''Payments''\<rparr>)
        = exWorld\<lparr>sent := sent exWorld @ [(''reply'', Bytes ''Station  does not exist'')]\<rparr>"
    by blast
  moreover have "map Name (stations exWorld) = [''orders'']"
    by (simp add: exWorld_def emptyWorld_def exOrders_def)
  ultimately show ?thesis using n f s by simp
qed

section \<open>Replies of the SDK handlers\<close>

text \<open>
  C1.  Two consecutive CreateStation requests of the SDK variant with the same name,
  \<open>Orders\<close>, on an empty store.  The second request finds the live station and persists
  nothing, so exactly one record of that name remains; but its reply is the empty byte
  string, the reply of a success, and not an error that says that the name exists: the
  handler passes on the nil error of the lookup.  The HTTP variant answers the second
  request with the status of a user error and the message that the station already
  exists.
\<close>

theorem create_station_twice_sdk:
  "sent (createStationDirect exampleNaming noFaults
           (createStationDirect exampleNaming noFaults emptyWorld exClient ''reply1'' (Inr exCreate))
           exClient ''reply2'' (Inr exCreate))
     = [(''reply1'', Bytes []), (''reply2'', Bytes [])]
   \<and> map Name (stations (createStationDirect exampleNaming noFaults
           (createStationDirect exampleNaming noFaults emptyWorld exClient ''reply1'' (Inr exCreate))
           exClient ''reply2'' (Inr exCreate))) = [''orders'']
   \<and> http (CreateStation exampleNaming noFaults
           (CreateStation exampleNaming noFaults emptyWorld exUser exBody) exUser exBody)
       ! 1 = (SHOWABLE_ERROR_STATUS_CODE, Message ''Station orders already exists'')"
  by code_simp

text \<open>
  C2.  Two attach-schema requests on the state with the live station \<open>orders\<close> that get
  no reply.  The first names a schema that does not exist: the handler panics (it calls
  \<open>Error\<close> on a nil error) and nothing is sent.  The second names the schema \<open>orderv1\<close>
  and \<open>generateSchemaUpdateInit\<close> fails: the handler returns, and nothing was sent.
\<close>

theorem attach_schema_without_reply:
  "useSchemaDirect exampleNaming noFaults exWorld exClient ''reply''
      (\<lparr>asrName = ''nosuchschema'', asrStationName = ''Orders''\<rparr>, None) = Panicked exWorld
   \<and> sent exWorld = []
   \<and> (case useSchemaDirect exampleNaming
             (noFaults(CallGenerateSchemaUpdateInit := Some ''store failure''))
             exWorld exClient ''reply'' (\<lparr>asrName = ''OrderV1'', asrStationName = ''Orders''\<rparr>, None) of
         Returned w \<Rightarrow> sent w = [] | Panicked w \<Rightarrow> False)"
  by code_simp

section \<open>AttachSchema\<close>

lemma FindOne_UpdateOne:
  assumes "FindOne f ds = Some d" and "\<And>x. matches f (u x) = matches f x"
  shows "FindOne f (UpdateOne f u ds) = Some (u d)"
  using assms(1)
  by (induction ds) (auto simp: FindOne_def assms(2))

lemma IsStationExist_live:
  assumes "F CallIsStationExist = None"
    and "FindOne [NameEq (Ext sn), DelIs False] (stations w) = Some d"
  shows "\<exists>st. IsStationExist F w sn = (True, st, None)"
proof -
  from assms(2) have "d \<in> set (stations w)" "matches [NameEq (Ext sn), DelIs False] d"
    by (auto simp: FindOne_def find_Some_iff)
  then have "\<exists>x \<in> set (stations w). matches [NameEq (Ext sn), notDeletedOrAbsent] x"
    by auto
  then have "FindOne [NameEq (Ext sn), notDeletedOrAbsent] (stations w) \<noteq> None"
    by (simp add: FindOne_None)
  with assms(1) show ?thesis
    by (auto simp: IsStationExist_def)
qed

lemma collab_frames [simp]:
  "schemaVersions (snd (NewObjectID w)) = schemaVersions w"
  "schemaVersions (snd (CreateAuditLogs F w ls)) = schemaVersions w"
  "sent (snd (NewObjectID w)) = sent w"
  "sent (snd (CreateAuditLogs F w ls)) = sent w"
  "http (snd (NewObjectID w)) = http w"
  "http (snd (CreateAuditLogs F w ls)) = http w"
  by (simp_all add: NewObjectID_def CreateAuditLogs_def split: option.splits)

lemma publish_frames [simp]:
  "stations (updateStationProducersOfSchemaChange w sn u) = stations w"
  "sent (updateStationProducersOfSchemaChange w sn u)
     = sent w @ [(''$memphis_schema_updates_'' @ Intern sn, SchemaUpdateMsg u)]"
  "http (updateStationProducersOfSchemaChange w sn u) = http w"
  "sent (respondWithErr w r e) = sent w @ [(r, Bytes (case e of None \<Rightarrow> [] | Some x \<Rightarrow> x))]"
  "http (respondWithErr w r e) = http w"
  "sent (AbortWithStatusJSON w s m) = sent w"
  "sent (IndentedJSON w s b) = sent w"
  by (simp_all add: updateStationProducersOfSchemaChange_def respondWithErr_def
      respondOnGlobalAcc_def AbortWithStatusJSON_def IndentedJSON_def)

lemma attach_sdk:
  assumes a1: "StationNameFromStr N (asrStationName asr) = Inr sn"
    and a2: "FindOne [NameEq (Ext sn), DelIs False] (stations w) = Some d"
    and a3: "find (\<lambda>s. schemaRecName s = ToLower N (asrName asr)) (schemas w) = Some schema"
    and a4: "find (\<lambda>v. versionSchemaId v = schemaId schema \<and> versionActive v) (schemaVersions w)
               = Some v"
    and f: "F CallIsStationExist = None" "F CallIsSchemaExist = None"
      "F CallGetActiveVersion = None" "F CallUpdateOne = None"
      "F CallGenerateSchemaUpdateInit = None"
  shows "\<exists>w'. useSchemaDirect N F w c reply (asr, None) = Returned w'
     \<and> FindOne [NameEq (Ext sn), DelIs False] (stations w')
         = Some (d\<lparr>Schema := \<lparr>SchemaName = ToLower N (asrName asr), VersionNumber = versionNumber v\<rparr>\<rparr>)
     \<and> sent w' = sent w @
          [(''$memphis_schema_updates_'' @ Intern sn,
            SchemaUpdateMsg
              \<lparr>UpdateType = SchemaUpdateTypeInit,
               Init = \<lparr>initSchemaName = schemaRecName schema, initVersionNumber = versionNumber v,
                       initContent = versionContent v\<rparr>\<rparr>),
           (reply, Bytes [])]"
proof -
  from IsStationExist_live [of F sn w d] f(1) a2 obtain st where
    ex: "IsStationExist F w sn = (True, st, None)" by blast
  have upd: "FindOne [NameEq (Ext sn), DelIs False]
               (UpdateOne [NameEq (Ext sn), DelIs False] (\<lambda>d. d\<lparr>Schema := b\<rparr>) (stations w))
             = Some (d\<lparr>Schema := b\<rparr>)" for b
    by (rule FindOne_UpdateOne [OF a2]) simp
  show ?thesis
    using a1 ex a3 a4 f upd
    by (simp add: useSchemaDirect_def Let_def split_beta IsSchemaExist_def
        getActiveVersionBySchemaId_def generateSchemaUpdateInit_def)
qed


lemma unauthorized_frames [simp]:
  "schemaVersions (case e of None \<Rightarrow> w | Some x \<Rightarrow> AbortWithStatusJSON w s m) = schemaVersions w"
  "sent (case e of None \<Rightarrow> w | Some x \<Rightarrow> AbortWithStatusJSON w s m) = sent w"
  by (cases e; simp add: AbortWithStatusJSON_def)+

lemma attach_http:
  assumes a1: "StationNameFromStr N n = Inr sn"
    and a2: "FindOne [NameEq (Ext sn), DelIs False] (stations w) = Some d"
    and a3: "find (\<lambda>s. schemaRecName s = ToLower N s0) (schemas w) = Some schema"
    and a4: "find (\<lambda>v. versionSchemaId v = schemaId schema \<and> versionActive v) (schemaVersions w)
               = Some v"
    and f: "F CallIsStationExist = None" "F CallIsSchemaExist = None"
      "F CallGetActiveVersion = None" "F CallUpdateOne = None"
      "F CallGenerateSchemaUpdateInit = None"
  shows "FindOne [NameEq (Ext sn), DelIs False] (stations (UseSchema N F w u s0 [n]))
         = Some (d\<lparr>Schema := \<lparr>SchemaName = ToLower N s0, VersionNumber = versionNumber v\<rparr>\<rparr>)
     \<and> sent (UseSchema N F w u s0 [n]) = sent w @
          [(''$memphis_schema_updates_'' @ Intern sn,
            SchemaUpdateMsg
              \<lparr>UpdateType = SchemaUpdateTypeInit,
               Init = \<lparr>initSchemaName = schemaRecName schema, initVersionNumber = versionNumber v,
                       initContent = versionContent v\<rparr>\<rparr>)]"
proof -
  define w1 where "w1 = (case snd (getUserDetailsFromMiddleware F u) of
      None \<Rightarrow> w | Some e \<Rightarrow> AbortWithStatusJSON w (Status 401) ''Unauthorized'')"
  have w1: "stations w1 = stations w" "schemaVersions w1 = schemaVersions w" "sent w1 = sent w"
    by (simp_all add: w1_def)
  from IsStationExist_live [of F sn w1 d] f(1) a2 w1 obtain st where
    ex: "IsStationExist F w1 sn = (True, st, None)" by auto
  have upd: "FindOne [NameEq (Ext sn), DelIs False]
               (UpdateOne [NameEq (Ext sn), DelIs False] (\<lambda>d. d\<lparr>Schema := b\<rparr>) (stations w))
             = Some (d\<lparr>Schema := b\<rparr>)" for b
    by (rule FindOne_UpdateOne [OF a2]) simp
  define usr where "usr = fst (getUserDetailsFromMiddleware F u)"
  define w2 where "w2 = updateStationProducersOfSchemaChange
      (snd (CreateAuditLogs F
         (snd (NewObjectID
            (w1\<lparr>stations := UpdateOne [NameEq (Ext sn), DelIs False]
                 (\<lambda>d. d\<lparr>Schema := \<lparr>SchemaName = ToLower N s0, VersionNumber = versionNumber v\<rparr>\<rparr>)
                 (stations w1)\<rparr>)))
         [\<lparr>logID = fst (NewObjectID
            (w1\<lparr>stations := UpdateOne [NameEq (Ext sn), DelIs False]
                 (\<lambda>d. d\<lparr>Schema := \<lparr>SchemaName = ToLower N s0, VersionNumber = versionNumber v\<rparr>\<rparr>)
                 (stations w1)\<rparr>)),
           logStationName = Intern sn,
           logMessage = ''Schema '' @ ToLower N s0 @ '' has been attached to station ''
                      @ Ext sn @ '' by user '' @ Username usr,
           logCreatedByUser = Username usr, logUserType = UserType usr\<rparr>]))
      sn
      \<lparr>UpdateType = SchemaUpdateTypeInit,
       Init = \<lparr>initSchemaName = schemaRecName schema, initVersionNumber = versionNumber v,
               initContent = versionContent v\<rparr>\<rparr>"
  have run: "UseSchema_stations N F schema (ToLower N s0)
                \<lparr>SchemaName = ToLower N s0, VersionNumber = versionNumber v\<rparr> usr w1 [n] = Inr w2"
    using a1 ex a4 f w1
    by (simp add: Let_def split_beta generateSchemaUpdateInit_def w2_def)
  have eq: "UseSchema N F w u s0 [n] =
      IndentedJSON w2 (Status 200)
        (SchemaBody \<lparr>SchemaName = ToLower N s0, VersionNumber = versionNumber v\<rparr> False)"
    using a3 a4 f run
    unfolding UseSchema_def Let_def split_beta IsSchemaExist_def getActiveVersionBySchemaId_def
      w1_def usr_def
    by (simp del: UseSchema_stations.simps)
  show ?thesis
    unfolding eq
    using upd w1 by (simp add: w2_def)
qed


text \<open>
  C4.  AttachSchema on a station that exists and is live, without the binding being
  persisted.  The store holds the record of the station \<open>orders\<close> as an older release
  wrote it, without the field \<open>is_deleted\<close>; the existence check of the handlers accepts
  it.  The HTTP variant, called with the schema \<open>OrderV1\<close>, answers 200 with the binding
  (\<open>orderv1\<close>, 3) and publishes the Init update with the content of version 3, but its
  update asks for \<open>is_deleted = false\<close> and matches no record: the binding of the station
  stays empty.  The SDK variant does the same and replies with success.  On the record
  with \<open>is_deleted = false\<close> the same request persists the binding, as it does in every
  state with such a record (\<open>attach_sdk\<close>, \<open>attach_http\<close>).
\<close>

theorem attach_schema_binding_not_persisted:
  "fst (IsStationExist noFaults exLegacyWorld \<lparr>internal = ''orders'', external = ''orders''\<rparr>)
   \<and> http (UseSchema exampleNaming noFaults exLegacyWorld exUser ''OrderV1'' [''Orders''])
       = [(Status 200, SchemaBody \<lparr>SchemaName = ''orderv1'', VersionNumber = 3\<rparr> False)]
   \<and> sent (UseSchema exampleNaming noFaults exLegacyWorld exUser ''OrderV1'' [''Orders''])
       = [(''$memphis_schema_updates_orders'',
            SchemaUpdateMsg
              \<lparr>UpdateType = SchemaUpdateTypeInit,
               Init = \<lparr>initSchemaName = ''orderv1'', initVersionNumber = 3,
                       initContent = ''{}''\<rparr>\<rparr>)]
   \<and> map Schema (stations (UseSchema exampleNaming noFaults exLegacyWorld exUser ''OrderV1''
                               [''Orders'']))
       = [emptySchemaDetails]
   \<and> map Schema (stations (UseSchema exampleNaming noFaults exWorld exUser ''OrderV1''
                               [''Orders'']))
       = [\<lparr>SchemaName = ''orderv1'', VersionNumber = 3\<rparr>]
   \<and> (case useSchemaDirect exampleNaming noFaults exLegacyWorld exClient ''reply''
              (\<lparr>asrName = ''OrderV1'', asrStationName = ''Orders''\<rparr>, None) of
         Returned w \<Rightarrow>
           stations w = stations exLegacyWorld
           \<and> sent w =
               [(''$memphis_schema_updates_orders'',
                 SchemaUpdateMsg
                   \<lparr>UpdateType = SchemaUpdateTypeInit,
                    Init = \<lparr>initSchemaName = ''orderv1'', initVersionNumber = 3,
                            initContent = ''{}''\<rparr>\<rparr>),
                (''reply'', Bytes [])]
       | Panicked w \<Rightarrow> False)"
  by code_simp

section \<open>AckPoisonMessages\<close>

lemma deletions_append [simp]: "deletions (xs @ ys) = deletions xs @ deletions ys"
  by (induction xs rule: deletions.induct) auto

lemma consumersAdded_append [simp]: "consumersAdded (xs @ ys) = consumersAdded xs @ consumersAdded ys"
  by (induction xs rule: consumersAdded.induct) auto

lemma withoutSeqs_empty [simp]: "withoutSeqs n {} ss = ss"
  by (induction ss) (auto simp: withoutSeqs_def)

lemma withoutSeqs_insert:
  "map (\<lambda>s. if fst s = n then (fst s, filter (\<lambda>m. Sequence m \<noteq> q) (snd s)) else s) (withoutSeqs n A ss)
   = withoutSeqs n (insert q A) ss"
  by (induction ss) (auto simp: withoutSeqs_def intro: filter_cong)

lemma withoutSeqs_twice: "withoutSeqs n A (withoutSeqs n B ss) = withoutSeqs n (A \<union> B) ss"
  by (induction ss) (auto simp: withoutSeqs_def intro: filter_cong)

lemma engine_frames [simp]:
  "streams (snd (nuidNext w)) = streams w"
  "http (snd (nuidNext w)) = http w"
  "engineLog (snd (nuidNext w)) = engineLog w"
  "streams (snd (memphisAddConsumer F w s cc)) = streams w"
  "http (snd (memphisAddConsumer F w s cc)) = http w"
  "engineLog (snd (memphisAddConsumer F w s cc)) = engineLog w @ [AddConsumer s cc]"
  "streams (snd (subscribeOnGlobalAcc F w r)) = streams w"
  "http (snd (subscribeOnGlobalAcc F w r)) = http w"
  "engineLog (snd (subscribeOnGlobalAcc F w r)) = engineLog w"
  "streams (sendInternalAccountMsgWithReply w a b c) = streams w"
  "http (sendInternalAccountMsgWithReply w a b c) = http w"
  "engineLog (sendInternalAccountMsgWithReply w a b c) = engineLog w"
  "streams (unsubscribeOnGlobalAcc w r) = streams w"
  "http (unsubscribeOnGlobalAcc w r) = http w"
  "engineLog (unsubscribeOnGlobalAcc w r) = engineLog w"
  "streams (snd (memphisRemoveConsumer F w s d)) = streams w"
  "http (snd (memphisRemoveConsumer F w s d)) = http w"
  "engineLog (snd (memphisRemoveConsumer F w s d)) = engineLog w @ [RemoveConsumer s d]"
  by (simp_all add: nuidNext_def memphisAddConsumer_def subscribeOnGlobalAcc_def
      sendInternalAccountMsgWithReply_def unsubscribeOnGlobalAcc_def memphisRemoveConsumer_def
      Let_def split: option.splits)

lemma abort_frames [simp]:
  "streams (AbortWithStatusJSON w s m) = streams w"
  "http (AbortWithStatusJSON w s m) = http w @ [(s, Message m)]"
  "engineLog (AbortWithStatusJSON w s m) = engineLog w"
  "streams (IndentedJSON w s b) = streams w"
  "http (IndentedJSON w s b) = http w @ [(s, b)]"
  "engineLog (IndentedJSON w s b) = engineLog w"
  by (simp_all add: AbortWithStatusJSON_def IndentedJSON_def)

lemma fetch_ok:
  assumes "fetchDlsMessages N F w sn streamName msgId events = Inr (msgs, w1)"
  shows "deletions (engineLog w1) = deletions (engineLog w)"
    and "streams w1 = streams w"
    and "http w1 = http w"
    and "consumersAdded (engineLog w1)
         = consumersAdded (engineLog w) @ [(streamName, GetDlsSubject N ''poison'' (Intern sn) msgId)]"
  using assms
  unfolding fetchDlsMessages_def Let_def split_beta
  by (auto split: sum.splits option.splits)

lemma fetch_fail:
  assumes "fetchDlsMessages N F w sn streamName msgId events = Inl w1"
  shows "deletions (engineLog w1) = deletions (engineLog w)"
    and "streams w1 = streams w"
    and "http w1 = http w @ [(Status 500, Message ''Server error'')]"
    and "consumersAdded (engineLog w1) = consumersAdded (engineLog w)
       \<or> consumersAdded (engineLog w1)
         = consumersAdded (engineLog w) @ [(streamName, GetDlsSubject N ''poison'' (Intern sn) msgId)]"
  using assms
  unfolding fetchDlsMessages_def Let_def split_beta
  by (auto split: sum.splits option.splits)

lemma delete_frames [simp]:
  "http (snd (memphisDeleteMsgFromStream F w s q)) = http w"
  "engineLog (snd (memphisDeleteMsgFromStream F w s q)) = engineLog w @ [DeleteMsg s q]"
  by (simp_all add: memphisDeleteMsgFromStream_def Let_def split: option.splits)

lemma delete_streams:
  "fst (memphisDeleteMsgFromStream F w s q) = None \<Longrightarrow>
   streams (snd (memphisDeleteMsgFromStream F w s q))
     = map (\<lambda>x. if fst x = s then (fst x, filter (\<lambda>m. Sequence m \<noteq> q) (snd x)) else x) (streams w)"
  by (simp add: memphisDeleteMsgFromStream_def Let_def split: option.splits)

lemma deleteMsgs_ok:
  assumes "deleteMsgs F w streamName msgs = Inr w1"
  shows "deletions (engineLog w1)
           = deletions (engineLog w) @ map (\<lambda>m. (streamName, Sequence m)) msgs
       \<and> http w1 = http w
       \<and> consumersAdded (engineLog w1) = consumersAdded (engineLog w)
       \<and> (\<forall>A. streams w = withoutSeqs streamName A ss \<longrightarrow>
              streams w1 = withoutSeqs streamName (Sequence ` set msgs \<union> A) ss)"
  using assms
proof (induction msgs arbitrary: w)
  case Nil
  then show ?case by simp
next
  case (Cons m msgs)
  from Cons.prems obtain w0 where
    d: "memphisDeleteMsgFromStream F w streamName (Sequence m) = (None, w0)"
    and r: "deleteMsgs F w0 streamName msgs = Inr w1"
    by (auto split: prod.splits option.splits)
  from d have f: "fst (memphisDeleteMsgFromStream F w streamName (Sequence m)) = None"
    and w0: "w0 = snd (memphisDeleteMsgFromStream F w streamName (Sequence m))"
    by simp_all
  have s0: "streams w = withoutSeqs streamName A ss \<Longrightarrow>
            streams w0 = withoutSeqs streamName (insert (Sequence m) A) ss" for A
    unfolding w0 delete_streams [OF f] by (simp add: withoutSeqs_insert)
  from Cons.IH [OF r] s0 show ?case
    by (auto simp: w0)
qed

lemma deleteMsgs_fail:
  assumes "deleteMsgs F w streamName msgs = Inl w1"
  shows "http w1 = http w @ [(Status 500, Message ''Server error'')]
       \<and> (\<exists>k. consumersAdded (engineLog w1) = consumersAdded (engineLog w))"
  using assms
proof (induction msgs arbitrary: w)
  case Nil
  then show ?case by simp
next
  case (Cons m msgs)
  show ?case
  proof (cases "fst (memphisDeleteMsgFromStream F w streamName (Sequence m))")
    case None
    with Cons.prems have "deleteMsgs F (snd (memphisDeleteMsgFromStream F w streamName (Sequence m)))
        streamName msgs = Inl w1"
      by (simp add: split_beta)
    from Cons.IH [OF this] show ?thesis by simp
  next
    case (Some e)
    with Cons.prems show ?thesis
      by (auto simp: split_beta)
  qed
qed


lemma ack_ids_ok:
  assumes "AckPoisonMessages_ids N F sn st w ids evss = (Inr w1, coll)"
  shows "deletions (engineLog w1) = deletions (engineLog w) @ map (\<lambda>m. (st, Sequence m)) coll
       \<and> http w1 = http w
       \<and> consumersAdded (engineLog w1)
           = consumersAdded (engineLog w)
               @ map (\<lambda>i. (st, GetDlsSubject N ''poison'' (Intern sn) i)) ids
       \<and> (\<forall>A. streams w = withoutSeqs st A ss \<longrightarrow>
              streams w1 = withoutSeqs st (Sequence ` set coll \<union> A) ss)"
  using assms
proof (induction ids arbitrary: w evss coll)
  case Nil
  then show ?case by simp
next
  case (Cons i ids)
  from Cons.prems obtain msgs wa wb rest where
    f: "fetchDlsMessages N F w sn st i (case evss of [] \<Rightarrow> [] | e # es \<Rightarrow> e) = Inr (msgs, wa)"
    and d: "deleteMsgs F wa st msgs = Inr wb"
    and r: "AckPoisonMessages_ids N F sn st wb ids (tl evss) = (Inr w1, rest)"
    and c: "coll = msgs @ rest"
    by (auto split: sum.splits prod.splits)
  note fo = fetch_ok [OF f]
  note dl = deleteMsgs_ok [OF d, of ss]
  note ih = Cons.IH [OF r]
  show ?case
  proof (intro conjI allI impI)
    show "deletions (engineLog w1) = deletions (engineLog w) @ map (\<lambda>m. (st, Sequence m)) coll"
      using fo dl ih by (simp add: c)
    show "http w1 = http w"
      using fo dl ih by simp
    show "consumersAdded (engineLog w1)
           = consumersAdded (engineLog w)
               @ map (\<lambda>i. (st, GetDlsSubject N ''poison'' (Intern sn) i)) (i # ids)"
      using fo dl ih by simp
  next
    fix A
    assume "streams w = withoutSeqs st A ss"
    with fo have "streams wa = withoutSeqs st A ss" by simp
    with dl have "streams wb = withoutSeqs st (Sequence ` set msgs \<union> A) ss" by blast
    with ih have "streams w1 = withoutSeqs st (Sequence ` set rest \<union> (Sequence ` set msgs \<union> A)) ss"
      by blast
    moreover have "Sequence ` set rest \<union> (Sequence ` set msgs \<union> A) = Sequence ` set coll \<union> A"
      by (auto simp: c)
    ultimately show "streams w1 = withoutSeqs st (Sequence ` set coll \<union> A) ss"
      by simp
  qed
qed

lemma ack_ids_fail:
  assumes "AckPoisonMessages_ids N F sn st w ids evss = (Inl w1, coll)"
  shows "http w1 = http w @ [(Status 500, Message ''Server error'')]
       \<and> (\<exists>k \<le> length ids. consumersAdded (engineLog w1)
           = consumersAdded (engineLog w)
               @ map (\<lambda>i. (st, GetDlsSubject N ''poison'' (Intern sn) i)) (take k ids))"
  using assms
proof (induction ids arbitrary: w evss coll)
  case Nil
  then show ?case by simp
next
  case (Cons i ids)
  let ?sub = "\<lambda>i. (st, GetDlsSubject N ''poison'' (Intern sn) i)"
  show ?case
  proof (cases "fetchDlsMessages N F w sn st i (case evss of [] \<Rightarrow> [] | e # es \<Rightarrow> e)")
    case (Inl wa)
    with Cons.prems have w1: "w1 = wa" by simp
    from fetch_fail(4) [OF Inl] have
      "consumersAdded (engineLog wa) = consumersAdded (engineLog w) @ map ?sub (take 0 (i # ids))
     \<or> consumersAdded (engineLog wa) = consumersAdded (engineLog w) @ map ?sub (take 1 (i # ids))"
      by simp
    then have "\<exists>k \<le> length (i # ids). consumersAdded (engineLog wa)
         = consumersAdded (engineLog w) @ map ?sub (take k (i # ids))"
      by (metis One_nat_def Suc_leI le0 length_Cons zero_less_Suc)
    with fetch_fail(3) [OF Inl] show ?thesis by (simp only: w1)
  next
    case (Inr p)
    obtain msgs wa where p: "p = (msgs, wa)" by (cases p)
    note fo = fetch_ok [OF Inr [unfolded p]]
    show ?thesis
    proof (cases "deleteMsgs F wa st msgs")
      case (Inl wb)
      with Cons.prems Inr p have w1: "w1 = wb" by simp
      from deleteMsgs_fail [OF Inl] fo have
        "http wb = http w @ [(Status 500, Message ''Server error'')]"
        "consumersAdded (engineLog wb) = consumersAdded (engineLog w) @ map ?sub (take 1 (i # ids))"
        by simp_all
      moreover have "1 \<le> length (i # ids)" by simp
      ultimately show ?thesis unfolding w1 by blast
    next
      case (Inr wb)
      with Cons.prems \<open>fetchDlsMessages N F w sn st i (case evss of [] \<Rightarrow> [] | e # es \<Rightarrow> e) = Inr p\<close> p
      obtain rest where r: "AckPoisonMessages_ids N F sn st wb ids (tl evss) = (Inl w1, rest)"
        by (auto split: prod.splits sum.splits)
      from Cons.IH [OF r] obtain k where k: "k \<le> length ids"
        "http w1 = http wb @ [(Status 500, Message ''Server error'')]"
        "consumersAdded (engineLog w1) = consumersAdded (engineLog wb) @ map ?sub (take k ids)"
        by blast
      from deleteMsgs_ok [OF Inr, of ss] fo k have
        "http w1 = http w @ [(Status 500, Message ''Server error'')]"
        "consumersAdded (engineLog w1) = consumersAdded (engineLog w) @ map ?sub (take (Suc k) (i # ids))"
        by simp_all
      moreover from k(1) have "Suc k \<le> length (i # ids)" by simp
      ultimately show ?thesis by blast
    qed
  qed
qed



text \<open>
  C5.  When AckPoisonMessages completes with the status 200, the delete calls that it
  has made on the engine are, in order, exactly the sequences of the messages that its
  fetches collected, all on the DLS stream of the station of the first id; and the
  streams of the engine are the streams before the call without the collected sequences
  in that DLS stream: no other message is deleted.
\<close>

theorem ack_deletes_exactly_collected:
  assumes "AckPoisonMessages N F w ids eventss = (Returned w', collected)"
    and "http w' = http w @ [(Status 200, EmptyObject)]"
  shows "\<exists>sn. StationNameFromStr N (takeWhile (\<lambda>c. c \<noteq> dlsMsgSep N) (hd ids)) = Inr sn
     \<and> deletions (engineLog w')
         = deletions (engineLog w) @ map (\<lambda>m. (dlsStreamName N (Intern sn), Sequence m)) collected
     \<and> streams w' = withoutSeqs (dlsStreamName N (Intern sn)) (Sequence ` set collected) (streams w)"
proof (cases ids)
  case Nil
  with assms(1) show ?thesis by (simp add: AckPoisonMessages_def)
next
  case (Cons first rest)
  show ?thesis
  proof (cases "StationNameFromStr N (takeWhile (\<lambda>c. c \<noteq> dlsMsgSep N) first)")
    case (Inl e)
    with assms Cons show ?thesis by (auto simp: AckPoisonMessages_def)
  next
    case (Inr sn)
    let ?st = "dlsStreamName N (Intern sn)"
    obtain r coll where run: "AckPoisonMessages_ids N F sn ?st w ids eventss = (r, coll)"
      by (cases "AckPoisonMessages_ids N F sn ?st w ids eventss")
    show ?thesis
    proof (cases r)
      case (Inl wf)
      with assms(1) Cons Inr run have "w' = wf"
        by (simp add: AckPoisonMessages_def Let_def del: AckPoisonMessages_ids.simps)
      with ack_ids_fail [OF run [unfolded Inl]] assms(2) show ?thesis by simp
    next
      case (Inr w1)
      with assms(1) Cons \<open>StationNameFromStr N (takeWhile (\<lambda>c. c \<noteq> dlsMsgSep N) first) = Inr sn\<close> run
      have w': "w' = IndentedJSON w1 (Status 200) EmptyObject" and c: "collected = coll"
        by (simp_all add: AckPoisonMessages_def Let_def del: AckPoisonMessages_ids.simps)
      note ok = ack_ids_ok [OF run [unfolded Inr], of "streams w"]
      from ok have "deletions (engineLog w1)
              = deletions (engineLog w) @ map (\<lambda>m. (?st, Sequence m)) coll"
        by (rule conjunct1)
      moreover from ok have "\<forall>A. streams w = withoutSeqs ?st A (streams w) \<longrightarrow>
              streams w1 = withoutSeqs ?st (Sequence ` set coll \<union> A) (streams w)"
        by blast
      then have "streams w = withoutSeqs ?st {} (streams w) \<longrightarrow>
              streams w1 = withoutSeqs ?st (Sequence ` set coll \<union> {}) (streams w)"
        by (rule spec)
      then have "streams w1 = withoutSeqs ?st (Sequence ` set coll) (streams w)"
        by simp
      ultimately show ?thesis
        using Cons \<open>StationNameFromStr N (takeWhile (\<lambda>c. c \<noteq> dlsMsgSep N) first) = Inr sn\<close>
        by (simp add: w' c)
    qed
  qed
qed


theorem ack_deletes_exactly_collected_witness:
  "AckPoisonMessages exampleNaming noFaults exDlsWorld [''orders~poison~1'']
       [[ResponseChan exMsg1, ResponseChan exMsg2]]
     = (Returned (outcomeState (fst (AckPoisonMessages exampleNaming noFaults exDlsWorld
                    [''orders~poison~1''] [[ResponseChan exMsg1, ResponseChan exMsg2]]))),
        [exMsg1, exMsg2])
   \<and> http (outcomeState (fst (AckPoisonMessages exampleNaming noFaults exDlsWorld
               [''orders~poison~1''] [[ResponseChan exMsg1, ResponseChan exMsg2]])))
       = http exDlsWorld @ [(Status 200, EmptyObject)]
   \<and> (\<exists>sn. StationNameFromStr exampleNaming
               (takeWhile (\<lambda>c. c \<noteq> dlsMsgSep exampleNaming) (hd [''orders~poison~1''])) = Inr sn
     \<and> deletions (engineLog (outcomeState (fst (AckPoisonMessages exampleNaming noFaults exDlsWorld
               [''orders~poison~1''] [[ResponseChan exMsg1, ResponseChan exMsg2]]))))
         = deletions (engineLog exDlsWorld)
           @ map (\<lambda>m. (dlsStreamName exampleNaming (Intern sn), Sequence m)) [exMsg1, exMsg2]
     \<and> streams (outcomeState (fst (AckPoisonMessages exampleNaming noFaults exDlsWorld
               [''orders~poison~1''] [[ResponseChan exMsg1, ResponseChan exMsg2]])))
         = withoutSeqs (dlsStreamName exampleNaming (Intern sn))
             (Sequence ` set [exMsg1, exMsg2]) (streams exDlsWorld))"
proof -
  have h1: "AckPoisonMessages exampleNaming noFaults exDlsWorld [''orders~poison~1'']
       [[ResponseChan exMsg1, ResponseChan exMsg2]]
     = (Returned (outcomeState (fst (AckPoisonMessages exampleNaming noFaults exDlsWorld
                    [''orders~poison~1''] [[ResponseChan exMsg1, ResponseChan exMsg2]]))),
        [exMsg1, exMsg2])"
    by code_simp
  have h2: "http (outcomeState (fst (AckPoisonMessages exampleNaming noFaults exDlsWorld
               [''orders~poison~1''] [[ResponseChan exMsg1, ResponseChan exMsg2]])))
       = http exDlsWorld @ [(Status 200, EmptyObject)]"
    by code_simp
  from ack_deletes_exactly_collected [OF h1 h2] h1 h2 show ?thesis
    by blast
qed


section \<open>The collection loop and the cleanup of the fetch\<close>

lemma collectLoop_arrivals:
  "collectLoop amount (map ResponseChan ms @ TimerC # evs) acc = acc @ take amount ms"
  "collectLoop amount (map ResponseChan ms) acc = acc @ take amount ms"
proof -
  show "collectLoop amount (map ResponseChan ms @ TimerC # evs) acc = acc @ take amount ms"
  proof (induction ms arbitrary: amount acc)
    case Nil
    then show ?case by (cases amount) simp_all
  next
    case (Cons m ms)
    then show ?case by (cases amount) simp_all
  qed
  show "collectLoop amount (map ResponseChan ms) acc = acc @ take amount ms"
  proof (induction ms arbitrary: amount acc)
    case Nil
    then show ?case by (cases amount) simp_all
  next
    case (Cons m ms)
    then show ?case by (cases amount) simp_all
  qed
qed

lemma collectLoop_count:
  "length (collectLoop amount (map ResponseChan ms @ TimerC # evs) []) = min amount (length ms)"
  by (simp add: collectLoop_arrivals min.commute)

text \<open>
  C3.  The loop of the fetch is a recursion on the number of iterations that are left,
  and of \<open>k\<close> messages that arrive before the timer fires it collects the first
  \<open>amount\<close>, all of them when \<open>amount\<close> is at least \<open>k\<close> (\<open>collectLoop_arrivals\<close>); the
  one-second bound itself is wall-clock time and is not part of the model.  The durable
  consumer is not removed on every exit path: in the run below the subscription of the
  reply subject fails after the consumer was created, the handler answers 500 and
  returns, and the consumer \<open>$memphis_fetch_dls_consumer_0\<close> is still there.  In the run
  without failure both messages are collected and the consumer is removed.
\<close>

theorem fetch_consumer_left_behind:
  "durables exDlsWorld = []
   \<and> (case fst (AckPoisonMessages exampleNaming (noFaults(CallSubscribe := Some ''no subscription''))
                  exDlsWorld [''orders~poison~1''] [[ResponseChan exMsg1, ResponseChan exMsg2]]) of
         Returned w \<Rightarrow>
           map (\<lambda>d. (fst d, Durable (snd d))) (durables w)
             = [(''$memphis-orders-dls'', ''$memphis_fetch_dls_consumer_0'')]
           \<and> http w = [(Status 500, Message ''Server error'')]
       | Panicked w \<Rightarrow> False)
   \<and> (case AckPoisonMessages exampleNaming noFaults exDlsWorld [''orders~poison~1'']
               [[ResponseChan exMsg1, ResponseChan exMsg2]] of
         (Returned w, collected) \<Rightarrow>
           durables w = [] \<and> collected = [exMsg1, exMsg2] \<and> http w = [(Status 200, EmptyObject)]
       | (Panicked w, collected) \<Rightarrow> False)"
  by code_simp


section \<open>Which stream and which filter the fetches use\<close>

lemma resend_frames [simp]:
  "engineLog (snd (ResendPoisonMessage F w s d h)) = engineLog w"
  "http (snd (ResendPoisonMessage F w s d h)) = http w"
  by (simp_all add: ResendPoisonMessage_def split: option.splits)

lemma resendMsgs_log:
  "resendMsgs C N F w msgs = r \<Longrightarrow>
   (case r of
      Inr w1 \<Rightarrow> engineLog w1 = engineLog w \<and> http w1 = http w
    | Inl w1 \<Rightarrow> engineLog w1 = engineLog w \<and> http w1 = http w @ [(Status 500, Message ''Server error'')])"
proof (induction msgs arbitrary: w r)
  case Nil
  then show ?case by auto
next
  case (Cons m msgs)
  show ?case
  proof (cases "unmarshalDlsMessage C (Data m)")
    case (Inl e)
    with Cons.prems show ?thesis by auto
  next
    case (Inr dm)
    note um = this
    show ?thesis
    proof (cases "hexDecodeString C (dlsData dm)")
      case (Inl e)
      with Cons.prems um show ?thesis by (auto simp: Let_def)
    next
      case (Inr data)
      let ?p = "ResendPoisonMessage F w
                 (''$memphis_dls_'' @ replaceDelimiters N (dlsStationName dm) @ ''_''
                    @ replaceDelimiters N (dlsCgName dm)) data
                 (setHeader ''$memphis_pm_sequence'' (FormatUint (Sequence m))
                    (setHeader ''$memphis_pm_id'' (dlsID dm)
                       (fold (\<lambda>h. setHeader (fst h) (snd h)) (dlsHeaders dm) [])))"
      show ?thesis
      proof (cases "fst ?p")
        case None
        with Cons.prems um Inr have "resendMsgs C N F (snd ?p) msgs = r"
          by (simp add: Let_def split_beta)
        from Cons.IH [OF this] show ?thesis
          by (auto split: sum.splits)
      next
        case (Some e)
        with Cons.prems um Inr show ?thesis
          by (auto simp: Let_def split_beta)
      qed
    qed
  qed
qed

lemma resend_ids:
  "ResendPoisonMessages_ids C N F sn st w ids evss = r \<Longrightarrow>
   (case r of
      Inr w1 \<Rightarrow> http w1 = http w
        \<and> consumersAdded (engineLog w1)
            = consumersAdded (engineLog w)
                @ map (\<lambda>i. (st, GetDlsSubject N ''poison'' (Intern sn) i)) ids
    | Inl w1 \<Rightarrow> http w1 = http w @ [(Status 500, Message ''Server error'')]
        \<and> (\<exists>k \<le> length ids. consumersAdded (engineLog w1)
            = consumersAdded (engineLog w)
                @ map (\<lambda>i. (st, GetDlsSubject N ''poison'' (Intern sn) i)) (take k ids)))"
proof (induction ids arbitrary: w evss r)
  case Nil
  then show ?case by auto
next
  case (Cons i ids)
  let ?sub = "\<lambda>i. (st, GetDlsSubject N ''poison'' (Intern sn) i)"
  show ?case
  proof (cases "fetchDlsMessages N F w sn st i (case evss of [] \<Rightarrow> [] | e # es \<Rightarrow> e)")
    case (Inl wa)
    with Cons.prems have r: "r = Inl wa" by simp
    from fetch_fail(4) [OF Inl] have
      "consumersAdded (engineLog wa) = consumersAdded (engineLog w) @ map ?sub (take 0 (i # ids))
     \<or> consumersAdded (engineLog wa) = consumersAdded (engineLog w) @ map ?sub (take 1 (i # ids))"
      by simp
    then have "\<exists>k \<le> length (i # ids). consumersAdded (engineLog wa)
         = consumersAdded (engineLog w) @ map ?sub (take k (i # ids))"
      by (metis One_nat_def Suc_leI le0 length_Cons zero_less_Suc)
    with fetch_fail(3) [OF Inl] show ?thesis by (simp only: r sum.case)
  next
    case (Inr p)
    obtain msgs wa where p: "p = (msgs, wa)" by (cases p)
    note fo = fetch_ok [OF Inr [unfolded p]]
    show ?thesis
    proof (cases "resendMsgs C N F wa msgs")
      case (Inl wb)
      with Cons.prems Inr p have r: "r = Inl wb" by simp
      from resendMsgs_log [OF Inl] fo have
        "http wb = http w @ [(Status 500, Message ''Server error'')]"
        "consumersAdded (engineLog wb) = consumersAdded (engineLog w) @ map ?sub (take 1 (i # ids))"
        by simp_all
      moreover have "1 \<le> length (i # ids)" by simp
      ultimately show ?thesis unfolding r by (simp only: sum.case) blast
    next
      case (Inr wb)
      with Cons.prems \<open>fetchDlsMessages N F w sn st i (case evss of [] \<Rightarrow> [] | e # es \<Rightarrow> e) = Inr p\<close> p
      have run: "ResendPoisonMessages_ids C N F sn st wb ids (tl evss) = r"
        by simp
      from resendMsgs_log [OF Inr] fo have wb: "http wb = http w"
        "consumersAdded (engineLog wb) = consumersAdded (engineLog w) @ [?sub i]"
        by simp_all
      show ?thesis
      proof (cases r)
        case (Inl w1)
        from Cons.IH [OF run] Inl obtain k where k: "k \<le> length ids"
          "http w1 = http wb @ [(Status 500, Message ''Server error'')]"
          "consumersAdded (engineLog w1) = consumersAdded (engineLog wb) @ map ?sub (take k ids)"
          by auto
        from wb k have
          "http w1 = http w @ [(Status 500, Message ''Server error'')]"
          "consumersAdded (engineLog w1) = consumersAdded (engineLog w) @ map ?sub (take (Suc k) (i # ids))"
          by simp_all
        moreover from k(1) have "Suc k \<le> length (i # ids)" by simp
        ultimately show ?thesis unfolding Inl by (simp only: sum.case) blast
      next
        case (Inr w1)
        from Cons.IH [OF run] Inr wb show ?thesis by simp
      qed
    qed
  qed
qed


lemma sep_split:
  "a @ c # r = b @ c # r' \<Longrightarrow> c \<notin> set a \<Longrightarrow> c \<notin> set b \<Longrightarrow> a = b \<and> r = r'"
proof (induction a arbitrary: b)
  case Nil
  then show ?case by (cases b) auto
next
  case (Cons x a)
  then show ?case by (cases b) auto
qed

lemma dlsId_inj:
  assumes "dlsId N s k q = dlsId N s' k' q'"
    and "dlsMsgSep N \<notin> set s" "dlsMsgSep N \<notin> set s'"
    and "dlsMsgSep N \<notin> set k" "dlsMsgSep N \<notin> set k'"
  shows "s = s' \<and> k = k'"
proof -
  from assms(1) have "s @ dlsMsgSep N # (k @ dlsMsgSep N # q) = s' @ dlsMsgSep N # (k' @ dlsMsgSep N # q')"
    by (simp add: dlsId_def)
  from sep_split [OF this assms(2,3)] have "s = s'" "k @ dlsMsgSep N # q = k' @ dlsMsgSep N # q'"
    by simp_all
  with sep_split [OF _ assms(4,5)] show ?thesis by blast
qed

lemma other_ids_match_nothing:
  assumes st: "storedUnderOwnSubject N station0 kinds msgs"
    and di: "subjectsDistinct N station0 kinds"
    and p: "''poison'' \<in> kinds"
    and seps: "dlsMsgSep N \<notin> set station0" "dlsMsgSep N \<notin> set station"
      "dlsMsgSep N \<notin> set kind" "dlsMsgSep N \<notin> set ''poison''"
    and other: "station \<noteq> station0 \<or> kind \<noteq> ''poison''"
  shows "dlsMatching (GetDlsSubject N ''poison'' station0 (dlsId N station kind seq)) msgs = []"
proof -
  have "Subject m \<noteq> GetDlsSubject N ''poison'' station0 (dlsId N station kind seq)"
    if "m \<in> set msgs" for m
  proof
    assume eq: "Subject m = GetDlsSubject N ''poison'' station0 (dlsId N station kind seq)"
    from st that obtain k q where k: "k \<in> kinds"
      and sub: "Subject m = GetDlsSubject N k station0 (dlsId N station0 k q)"
      unfolding storedUnderOwnSubject_def by blast
    from eq sub have "GetDlsSubject N ''poison'' station0 (dlsId N station kind seq)
        = GetDlsSubject N k station0 (dlsId N station0 k q)"
      by simp
    with di p k have kp: "''poison'' = k" and ids: "dlsId N station kind seq = dlsId N station0 k q"
      unfolding subjectsDistinct_def by blast+
    from dlsId_inj [OF ids seps(2) seps(1) seps(3)] seps(4) kp
    have "station = station0 \<and> kind = k" by simp
    with kp other show False by simp
  qed
  then show ?thesis
    by (simp add: dlsMatching_def filter_empty_conv)
qed

lemma collectLoop_subset:
  "set (collectLoop n evs acc) \<subseteq> set acc \<union> set (arrivals evs)"
proof (induction n evs acc rule: collectLoop.induct)
  case (4 n msg evs msgs)
  then show ?case by auto
qed simp_all

lemma withoutSeqs_keys:
  "map_of (withoutSeqs n A ss) k = None \<longleftrightarrow> map_of ss k = None"
  by (induction ss) (auto simp: withoutSeqs_def)

lemma fetch_total:
  assumes "fetchCallsSucceed F" and "map_of (streams w) st \<noteq> None"
  shows "\<exists>msgs w1. fetchDlsMessages N F w sn st i evs = Inr (msgs, w1)
           \<and> set msgs \<subseteq> set (arrivals evs)"
proof -
  from assms(2) obtain ms where ms: "map_of (streams w) st = Some ms" by auto
  have sub: "set (collectLoop (length ms) evs []) \<subseteq> set (arrivals evs)"
    using collectLoop_subset [of "length ms" evs "[]"] by simp
  from assms(1) have f: "F CallStreamInfo = None" "F CallAddConsumer = None"
    "F CallSubscribe = None" "F CallRemoveConsumer = None"
    by (simp_all add: fetchCallsSucceed_def)
  show ?thesis
    using f ms sub
    by (simp add: fetchDlsMessages_def Let_def split_beta memphisStreamInfo_def nuidNext_def
        memphisAddConsumer_def subscribeOnGlobalAcc_def memphisRemoveConsumer_def
        sendInternalAccountMsgWithReply_def unsubscribeOnGlobalAcc_def)
qed

lemma deleteMsgs_total:
  assumes "F CallDeleteMsg = None"
  shows "\<exists>w1. deleteMsgs F w st msgs = Inr w1"
proof (induction msgs arbitrary: w)
  case Nil
  then show ?case by simp
next
  case (Cons m msgs)
  from assms have "fst (memphisDeleteMsgFromStream F w st (Sequence m)) = None"
    by (simp add: memphisDeleteMsgFromStream_def Let_def)
  with Cons.IH [of "snd (memphisDeleteMsgFromStream F w st (Sequence m))"] show ?case
    by (simp add: split_beta)
qed

lemma ack_ids_total:
  assumes "fetchCallsSucceed F" and "F CallDeleteMsg = None"
    and "map_of (streams w) st \<noteq> None"
  shows "\<exists>w1 coll. AckPoisonMessages_ids N F sn st w ids evss = (Inr w1, coll)"
  using assms(3)
proof (induction ids arbitrary: w evss)
  case Nil
  then show ?case by simp
next
  case (Cons i ids)
  from fetch_total [OF assms(1) Cons.prems] obtain msgs wa where
    f: "fetchDlsMessages N F w sn st i (case evss of [] \<Rightarrow> [] | e # es \<Rightarrow> e) = Inr (msgs, wa)"
    by blast
  from deleteMsgs_total [where F = F and w = wa and st = st and msgs = msgs] assms(2)
  obtain wb where d: "deleteMsgs F wa st msgs = Inr wb"
    by blast
  from fetch_ok(2) [OF f] have "streams wa = withoutSeqs st {} (streams w)"
    by simp
  with deleteMsgs_ok [OF d, of "streams w"] have
    "streams wb = withoutSeqs st (Sequence ` set msgs \<union> {}) (streams w)"
    by blast
  with Cons.prems have "map_of (streams wb) st \<noteq> None"
    by (simp add: withoutSeqs_keys)
  from Cons.IH [OF this, of "tl evss"] obtain w1 rest where
    "AckPoisonMessages_ids N F sn st wb ids (tl evss) = (Inr w1, rest)"
    by blast
  with f d show ?case by simp
qed

lemma resend_streams [simp]:
  "streams (snd (ResendPoisonMessage F w s d h)) = streams w"
  by (simp add: ResendPoisonMessage_def split: option.splits)

lemma resendMsgs_total:
  assumes "F CallResend = None" and "list_all (decodes C) msgs"
  shows "\<exists>w1. resendMsgs C N F w msgs = Inr w1 \<and> streams w1 = streams w"
  using assms(2)
proof (induction msgs arbitrary: w)
  case Nil
  then show ?case by simp
next
  case (Cons m msgs)
  from Cons.prems obtain dm data where
    u: "unmarshalDlsMessage C (Data m) = Inr dm" and h: "hexDecodeString C (dlsData dm) = Inr data"
    by (auto simp: decodes_def split: sum.splits)
  let ?p = "ResendPoisonMessage F w
                 (''$memphis_dls_'' @ replaceDelimiters N (dlsStationName dm) @ ''_''
                    @ replaceDelimiters N (dlsCgName dm)) data
                 (setHeader ''$memphis_pm_sequence'' (FormatUint (Sequence m))
                    (setHeader ''$memphis_pm_id'' (dlsID dm)
                       (fold (\<lambda>h. setHeader (fst h) (snd h)) (dlsHeaders dm) [])))"
  from assms(1) have p: "fst ?p = None"
    by (simp add: ResendPoisonMessage_def)
  from Cons.prems have "list_all (decodes C) msgs" by simp
  from Cons.IH [OF this, of "snd ?p"] obtain w1 where
    "resendMsgs C N F (snd ?p) msgs = Inr w1" "streams w1 = streams (snd ?p)"
    by blast
  with u h p show ?case
    by (simp add: Let_def split_beta)
qed

lemma resend_ids_total:
  assumes "fetchCallsSucceed F" and "F CallResend = None"
    and "map_of (streams w) st \<noteq> None"
    and "list_all (decodes C) (concat (map arrivals evss))"
  shows "\<exists>w1. ResendPoisonMessages_ids C N F sn st w ids evss = Inr w1"
  using assms(3,4)
proof (induction ids arbitrary: w evss)
  case Nil
  then show ?case by simp
next
  case (Cons i ids)
  let ?evs = "case evss of [] \<Rightarrow> [] | e # es \<Rightarrow> e"
  from fetch_total [OF assms(1) Cons.prems(1)] obtain msgs wa where
    f: "fetchDlsMessages N F w sn st i ?evs = Inr (msgs, wa)"
    and sub: "set msgs \<subseteq> set (arrivals ?evs)"
    by blast
  from Cons.prems(2) have "list_all (decodes C) (arrivals ?evs)"
    and tl: "list_all (decodes C) (concat (map arrivals (tl evss)))"
    by (cases evss; simp)+
  with sub have "list_all (decodes C) msgs"
    by (auto simp: list_all_iff)
  with resendMsgs_total [where F = F and C = C and msgs = msgs and w = wa and N = N] assms(2)
  obtain wb where r: "resendMsgs C N F wa msgs = Inr wb" and s: "streams wb = streams wa"
    by blast
  from s fetch_ok(2) [OF f] Cons.prems(1) have "map_of (streams wb) st \<noteq> None"
    by simp
  from Cons.IH [OF this tl] obtain w1 where
    "ResendPoisonMessages_ids C N F sn st wb ids (tl evss) = Inr w1"
    by blast
  with f r show ?case by simp
qed

lemma ack_consumers:
  assumes sn: "StationNameFromStr N (takeWhile (\<lambda>c. c \<noteq> dlsMsgSep N) first) = Inr sn"
  shows "(\<exists>k \<le> length (first # rest).
           consumersAdded (engineLog (outcomeState (fst (AckPoisonMessages N F w (first # rest) evss))))
           = consumersAdded (engineLog w) @ poisonConsumers N sn (take k (first # rest)))
      \<and> (http (outcomeState (fst (AckPoisonMessages N F w (first # rest) evss)))
             = http w @ [(Status 200, EmptyObject)]
           \<longrightarrow> consumersAdded (engineLog (outcomeState (fst (AckPoisonMessages N F w (first # rest) evss))))
             = consumersAdded (engineLog w) @ poisonConsumers N sn (first # rest))
      \<and> (fetchCallsSucceed F \<and> F CallDeleteMsg = None
            \<and> map_of (streams w) (dlsStreamName N (Intern sn)) \<noteq> None
           \<longrightarrow> http (outcomeState (fst (AckPoisonMessages N F w (first # rest) evss)))
             = http w @ [(Status 200, EmptyObject)])"
proof -
  let ?st = "dlsStreamName N (Intern sn)"
  let ?run = "outcomeState (fst (AckPoisonMessages N F w (first # rest) evss))"
  obtain r coll where run: "AckPoisonMessages_ids N F sn ?st w (first # rest) evss = (r, coll)"
    by (cases "AckPoisonMessages_ids N F sn ?st w (first # rest) evss")
  show ?thesis
  proof (cases r)
    case (Inl w1)
    with sn run have eq: "?run = w1"
      by (simp add: AckPoisonMessages_def Let_def del: AckPoisonMessages_ids.simps)
    note fail = ack_ids_fail [OF run [unfolded Inl]]
    have "\<not> (fetchCallsSucceed F \<and> F CallDeleteMsg = None \<and> map_of (streams w) ?st \<noteq> None)"
      using ack_ids_total [of F w ?st N sn "first # rest" evss] run Inl by auto
    with fail show ?thesis
      unfolding eq poisonConsumers_def by simp
  next
    case (Inr w1)
    with sn run have eq: "?run = IndentedJSON w1 (Status 200) EmptyObject"
      by (simp add: AckPoisonMessages_def Let_def del: AckPoisonMessages_ids.simps)
    from ack_ids_ok [OF run [unfolded Inr], of "streams w"]
    have c: "consumersAdded (engineLog w1) = consumersAdded (engineLog w)
               @ poisonConsumers N sn (first # rest)"
      and h: "http w1 = http w"
      by (simp_all add: poisonConsumers_def)
    have "\<exists>k \<le> length (first # rest).
           consumersAdded (engineLog ?run)
           = consumersAdded (engineLog w) @ poisonConsumers N sn (take k (first # rest))"
    proof (intro exI conjI)
      show "length (first # rest) \<le> length (first # rest)" by simp
      show "consumersAdded (engineLog ?run)
           = consumersAdded (engineLog w) @ poisonConsumers N sn (take (length (first # rest)) (first # rest))"
        unfolding eq using c by simp
    qed
    moreover have "consumersAdded (engineLog ?run)
             = consumersAdded (engineLog w) @ poisonConsumers N sn (first # rest)"
      unfolding eq using c by simp
    moreover have "http ?run = http w @ [(Status 200, EmptyObject)]"
      unfolding eq using h by simp
    ultimately show ?thesis by blast
  qed
qed

lemma resend_consumers:
  assumes sn: "StationNameFromStr N (takeWhile (\<lambda>c. c \<noteq> dlsMsgSep N) first) = Inr sn"
  shows "(\<exists>k \<le> length (first # rest).
           consumersAdded (engineLog (outcomeState (ResendPoisonMessages C N F w (first # rest) evss)))
           = consumersAdded (engineLog w) @ poisonConsumers N sn (take k (first # rest)))
      \<and> (http (outcomeState (ResendPoisonMessages C N F w (first # rest) evss))
             = http w @ [(Status 200, EmptyObject)]
           \<longrightarrow> consumersAdded (engineLog (outcomeState (ResendPoisonMessages C N F w (first # rest) evss)))
             = consumersAdded (engineLog w) @ poisonConsumers N sn (first # rest))
      \<and> (fetchCallsSucceed F \<and> F CallResend = None
            \<and> map_of (streams w) (dlsStreamName N (Intern sn)) \<noteq> None
            \<and> list_all (decodes C) (concat (map arrivals evss))
           \<longrightarrow> http (outcomeState (ResendPoisonMessages C N F w (first # rest) evss))
             = http w @ [(Status 200, EmptyObject)])"
proof -
  let ?st = "dlsStreamName N (Intern sn)"
  let ?run = "outcomeState (ResendPoisonMessages C N F w (first # rest) evss)"
  obtain r where run: "ResendPoisonMessages_ids C N F sn ?st w (first # rest) evss = r"
    by simp
  show ?thesis
  proof (cases r)
    case (Inl w1)
    with sn run have eq: "?run = w1"
      by (simp add: ResendPoisonMessages_def Let_def del: ResendPoisonMessages_ids.simps)
    from resend_ids [OF run] Inl have fail:
      "http w1 = http w @ [(Status 500, Message ''Server error'')]"
      "\<exists>k \<le> length (first # rest). consumersAdded (engineLog w1)
            = consumersAdded (engineLog w) @ poisonConsumers N sn (take k (first # rest))"
      by (simp_all add: poisonConsumers_def)
    have "\<not> (fetchCallsSucceed F \<and> F CallResend = None \<and> map_of (streams w) ?st \<noteq> None
             \<and> list_all (decodes C) (concat (map arrivals evss)))"
      using resend_ids_total [of F w ?st C evss N sn "first # rest"] run Inl by auto
    with fail show ?thesis
      unfolding eq by simp
  next
    case (Inr w1)
    with sn run have eq: "?run = IndentedJSON w1 (Status 200) EmptyObject"
      by (simp add: ResendPoisonMessages_def Let_def del: ResendPoisonMessages_ids.simps)
    from resend_ids [OF run] Inr
    have c: "consumersAdded (engineLog w1) = consumersAdded (engineLog w)
               @ poisonConsumers N sn (first # rest)"
      and h: "http w1 = http w"
      by (simp_all add: poisonConsumers_def)
    have "\<exists>k \<le> length (first # rest).
           consumersAdded (engineLog ?run)
           = consumersAdded (engineLog w) @ poisonConsumers N sn (take k (first # rest))"
    proof (intro exI conjI)
      show "length (first # rest) \<le> length (first # rest)" by simp
      show "consumersAdded (engineLog ?run)
           = consumersAdded (engineLog w) @ poisonConsumers N sn (take (length (first # rest)) (first # rest))"
        unfolding eq using c by simp
    qed
    moreover have "consumersAdded (engineLog ?run)
             = consumersAdded (engineLog w) @ poisonConsumers N sn (first # rest)"
      unfolding eq using c by simp
    moreover have "http ?run = http w @ [(Status 200, EmptyObject)]"
      unfolding eq using h by simp
    ultimately show ?thesis by blast
  qed
qed


text \<open>
  C9.  AckPoisonMessages and ResendPoisonMessages take the station from the first id of
  the list alone.  When that name canonicalizes to \<open>sn\<close>, the consumers that a run
  creates are, in order, one for each id of a prefix of the list, each on the DLS stream
  of \<open>sn\<close> and with the poison-kind subject of \<open>sn\<close> and of that id as its filter.  A
  run that answers 200 has created one for every id of the list; and the run answers 200
  when the DLS stream of \<open>sn\<close> exists and no call fails (for ResendPoisonMessages: when
  also every message delivered decodes).  So, when the DLS stream of \<open>sn\<close> stores every
  message under the subject of its own kind and id and different kinds or ids give
  different subjects, an id of another station or of another kind than poison matches no
  message of that stream.
\<close>

theorem poison_fetch_uses_first_station:
  assumes "StationNameFromStr N (takeWhile (\<lambda>c. c \<noteq> dlsMsgSep N) first) = Inr sn"
  shows "(\<exists>k \<le> length (first # rest).
           consumersAdded (engineLog (outcomeState (fst (AckPoisonMessages N F w (first # rest) evss))))
           = consumersAdded (engineLog w) @ poisonConsumers N sn (take k (first # rest)))
       \<and> (http (outcomeState (fst (AckPoisonMessages N F w (first # rest) evss)))
             = http w @ [(Status 200, EmptyObject)]
           \<longrightarrow> consumersAdded (engineLog (outcomeState (fst (AckPoisonMessages N F w (first # rest) evss))))
             = consumersAdded (engineLog w) @ poisonConsumers N sn (first # rest))
       \<and> (fetchCallsSucceed F \<and> F CallDeleteMsg = None
            \<and> map_of (streams w) (dlsStreamName N (Intern sn)) \<noteq> None
           \<longrightarrow> http (outcomeState (fst (AckPoisonMessages N F w (first # rest) evss)))
             = http w @ [(Status 200, EmptyObject)])
       \<and> (\<exists>k \<le> length (first # rest).
           consumersAdded (engineLog (outcomeState (ResendPoisonMessages C N F w (first # rest) evss)))
           = consumersAdded (engineLog w) @ poisonConsumers N sn (take k (first # rest)))
       \<and> (http (outcomeState (ResendPoisonMessages C N F w (first # rest) evss))
             = http w @ [(Status 200, EmptyObject)]
           \<longrightarrow> consumersAdded (engineLog (outcomeState (ResendPoisonMessages C N F w (first # rest) evss)))
             = consumersAdded (engineLog w) @ poisonConsumers N sn (first # rest))
       \<and> (fetchCallsSucceed F \<and> F CallResend = None
            \<and> map_of (streams w) (dlsStreamName N (Intern sn)) \<noteq> None
            \<and> list_all (decodes C) (concat (map arrivals evss))
           \<longrightarrow> http (outcomeState (ResendPoisonMessages C N F w (first # rest) evss))
             = http w @ [(Status 200, EmptyObject)])
       \<and> (storedUnderOwnSubject N (Intern sn) kinds msgs \<and> subjectsDistinct N (Intern sn) kinds
            \<and> ''poison'' \<in> kinds
            \<and> dlsMsgSep N \<notin> set (Intern sn) \<and> dlsMsgSep N \<notin> set station
            \<and> dlsMsgSep N \<notin> set kind \<and> dlsMsgSep N \<notin> set ''poison''
            \<and> (station \<noteq> Intern sn \<or> kind \<noteq> ''poison'')
          \<longrightarrow> dlsMatching (GetDlsSubject N ''poison'' (Intern sn) (dlsId N station kind seq)) msgs = [])"
proof -
  note a = ack_consumers [OF assms, of rest F w evss]
  note r = resend_consumers [OF assms, of rest C F w evss]
  note m = other_ids_match_nothing [of N "Intern sn" kinds msgs station kind seq]
  from a r m show ?thesis by blast
qed

theorem poison_fetch_uses_first_station_witness:
  "StationNameFromStr exampleNaming
       (takeWhile (\<lambda>c. c \<noteq> dlsMsgSep exampleNaming) ''orders~poison~1'')
     = Inr \<lparr>internal = ''orders'', external = ''orders''\<rparr>
   \<and> fetchCallsSucceed noFaults \<and> noFaults CallDeleteMsg = None \<and> noFaults CallResend = None
   \<and> map_of (streams exDlsWorld) ''$memphis-orders-dls'' = Some [exMsg1, exMsg2]
   \<and> list_all (decodes exCodecs)
        (concat (map arrivals [[ResponseChan exMsg1, ResponseChan exMsg2], [TimerC]]))
   \<and> consumersAdded (engineLog (outcomeState (fst (AckPoisonMessages exampleNaming noFaults
         exDlsWorld [''orders~poison~1'', ''payments~schema~7'']
         [[ResponseChan exMsg1, ResponseChan exMsg2], [TimerC]]))))
       = [(''$memphis-orders-dls'', ''$memphis-orders-dls.poison.orders~poison~1''),
          (''$memphis-orders-dls'', ''$memphis-orders-dls.poison.payments~schema~7'')]
   \<and> consumersAdded (engineLog (outcomeState (ResendPoisonMessages exCodecs exampleNaming noFaults
         exDlsWorld [''orders~poison~1'', ''payments~schema~7'']
         [[ResponseChan exMsg1, ResponseChan exMsg2], [TimerC]])))
       = [(''$memphis-orders-dls'', ''$memphis-orders-dls.poison.orders~poison~1''),
          (''$memphis-orders-dls'', ''$memphis-orders-dls.poison.payments~schema~7'')]
   \<and> storedUnderOwnSubject exampleNaming ''orders'' {''poison'', ''schema''} [exMsg1, exMsg2]
   \<and> subjectsDistinct exampleNaming ''orders'' {''poison'', ''schema''}
   \<and> dlsMatching (GetDlsSubject exampleNaming ''poison'' ''orders''
                    (dlsId exampleNaming ''payments'' ''schema'' ''7'')) [exMsg1, exMsg2] = []
   \<and> dlsMatching (GetDlsSubject exampleNaming ''poison'' ''orders''
                    (dlsId exampleNaming ''orders'' ''schema'' ''1'')) [exMsg1, exMsg2] = []"
proof -
  let ?sn = "\<lparr>internal = ''orders'', external = ''orders''\<rparr>"
  let ?ids = "[''orders~poison~1'', ''payments~schema~7'']"
  let ?evss = "[[ResponseChan exMsg1, ResponseChan exMsg2], [TimerC]]"
  have h: "StationNameFromStr exampleNaming
       (takeWhile (\<lambda>c. c \<noteq> dlsMsgSep exampleNaming) ''orders~poison~1'') = Inr ?sn"
    by code_simp
  have i: "Intern ?sn = ''orders''"
    by (simp add: Intern_def)
  have f: "fetchCallsSucceed noFaults" "noFaults CallDeleteMsg = None" "noFaults CallResend = None"
    by (simp_all add: fetchCallsSucceed_def noFaults_def)
  have s: "map_of (streams exDlsWorld) ''$memphis-orders-dls'' = Some [exMsg1, exMsg2]"
    by (simp add: exDlsWorld_def)
  have s': "map_of (streams exDlsWorld) (dlsStreamName exampleNaming (Intern ?sn)) \<noteq> None"
    using s by (simp add: exampleNaming_def Intern_def)
  have d: "list_all (decodes exCodecs) (concat (map arrivals ?evss))"
    by (simp add: decodes_def exCodecs_def exUnmarshal_def exMsg1_def exMsg2_def fromHexChar_def)
  have e: "consumersAdded (engineLog exDlsWorld) = []" "http exDlsWorld = []"
    by (simp_all add: exDlsWorld_def exWorld_def emptyWorld_def)
  have pc: "poisonConsumers exampleNaming ?sn ?ids
       = [(''$memphis-orders-dls'', ''$memphis-orders-dls.poison.orders~poison~1''),
          (''$memphis-orders-dls'', ''$memphis-orders-dls.poison.payments~schema~7'')]"
    by (simp add: poisonConsumers_def exampleNaming_def Intern_def)
  have st: "storedUnderOwnSubject exampleNaming ''orders'' {''poison'', ''schema''} [exMsg1, exMsg2]"
    unfolding storedUnderOwnSubject_def
    by (auto simp: exMsg1_def exMsg2_def exampleNaming_def dlsId_def)
  have di: "subjectsDistinct exampleNaming ''orders'' {''poison'', ''schema''}"
    unfolding subjectsDistinct_def
    by (auto simp: exampleNaming_def)
  have sep: "dlsMsgSep exampleNaming = CHR ''~''"
    by (simp add: exampleNaming_def)
  note inst = poison_fetch_uses_first_station
      [OF h, where kinds = "{''poison'', ''schema''}" and msgs = "[exMsg1, exMsg2]"
         and F = noFaults and w = exDlsWorld and rest = "[''payments~schema~7'']" and evss = ?evss
         and C = exCodecs]
  from inst [where station = "''payments''" and kind = "''schema''" and seq = "''7''"] f s' d
  have ack: "consumersAdded (engineLog (outcomeState (fst (AckPoisonMessages exampleNaming noFaults
         exDlsWorld ?ids ?evss))))
       = consumersAdded (engineLog exDlsWorld) @ poisonConsumers exampleNaming ?sn ?ids"
    and res: "consumersAdded (engineLog (outcomeState (ResendPoisonMessages exCodecs exampleNaming
         noFaults exDlsWorld ?ids ?evss)))
       = consumersAdded (engineLog exDlsWorld) @ poisonConsumers exampleNaming ?sn ?ids"
    by blast+
  from inst [where station = "''payments''" and kind = "''schema''" and seq = "''7''"] st di
  have m1: "dlsMatching (GetDlsSubject exampleNaming ''poison'' ''orders''
                    (dlsId exampleNaming ''payments'' ''schema'' ''7'')) [exMsg1, exMsg2] = []"
    unfolding i sep by simp
  from inst [where station = "''orders''" and kind = "''schema''" and seq = "''1''"] st di
  have m2: "dlsMatching (GetDlsSubject exampleNaming ''poison'' ''orders''
                    (dlsId exampleNaming ''orders'' ''schema'' ''1'')) [exMsg1, exMsg2] = []"
    unfolding i sep by simp
  from h f s d ack res st di m1 m2 show ?thesis
    unfolding e pc by simp
qed

section \<open>Station records without the field is_deleted\<close>

text \<open>
  C10.  The store holds the record of the station \<open>orders\<close> without the field
  \<open>is_deleted\<close>.  GetStation returns the record, as for a live station.  AttachSchema
  treats the station as existing, publishes the update and replies with success, but
  its update filter asks for \<open>is_deleted = false\<close> and matches no record: the binding
  of the record stays empty.  On the record with \<open>is_deleted = false\<close> the same request
  sets the binding.
\<close>

theorem attach_schema_skips_legacy_record:
  "map IsDeleted (stations exLegacyWorld) = [None]
   \<and> http (GetStation noFaults exLegacyWorld ''orders'')
       = [(Status 200, StationBody (exOrders\<lparr>StorageType := ''disk''\<rparr>) [])]
   \<and> (case useSchemaDirect exampleNaming noFaults exLegacyWorld exClient ''reply''
              (\<lparr>asrName = ''OrderV1'', asrStationName = ''Orders''\<rparr>, None) of
         Returned w \<Rightarrow>
           map Schema (stations w) = [emptySchemaDetails]
           \<and> map fst (sent w) = [''$memphis_schema_updates_orders'', ''reply'']
           \<and> snd (sent w ! 1) = Bytes []
       | Panicked w \<Rightarrow> False)
   \<and> (case useSchemaDirect exampleNaming noFaults exWorld exClient ''reply''
              (\<lparr>asrName = ''OrderV1'', asrStationName = ''Orders''\<rparr>, None) of
         Returned w \<Rightarrow>
           map Schema (stations w) = [\<lparr>SchemaName = ''orderv1'', VersionNumber = 3\<rparr>]
       | Panicked w \<Rightarrow> False)"
  by code_simp


end
